(* ===== verification/Prelude.thy ===== *)
theory Prelude
  imports Main "HOL-Library.Sublist"
begin

text \<open>
  Shared vocabulary of the development: the Python built-ins the scraper
  (\<open>src/app/scraper.py\<close>) and the API layer (\<open>src/app/main.py\<close>) call on strings,
  lists and dictionaries, written as executable HOL functions, the JSON values that
  \<open>json.loads\<close> and \<open>resp.json()\<close> return, Python's truthiness, the exception
  values that replace \<open>raise\<close>, and a first-occurrence deduplication used as the
  reference for the scraper's two \<open>seen\<close>-set loops. A Python \<open>str\<close> is a
  \<open>string\<close> (\<open>char list\<close>), each \<open>char\<close> read as the Unicode code point
  U+0000..U+00FF (Latin-1), so \<open>str.isspace\<close>, \<open>str.lower\<close> and
  \<open>str.isdigit\<close> are written for that range exactly as CPython defines them.
\<close>

named_theorems py_str "facts about the model of Python string operations"

section \<open>Python exceptions\<close>

datatype py_exc =
    IndexError
  | AttributeError
  | TypeError
  | KeyError
  | ValueError
  | OpenAIError \<comment> \<open>\<open>openai.OpenAI(api_key=None)\<close> with no key configured\<close>
  | ValidationError \<comment> \<open>pydantic model construction rejected a field\<close>
  | OverflowError \<comment> \<open>\<open>float(n)\<close> of an \<open>int\<close> too large for a double\<close>

section \<open>Characters\<close>

definition is_space :: "char \<Rightarrow> bool" where
  \<comment> \<open>\<open>str.isspace\<close> on U+0000..U+00FF\<close>
  "is_space c \<longleftrightarrow> (let n = of_char c :: nat in
     (9 \<le> n \<and> n \<le> 13) \<or> (28 \<le> n \<and> n \<le> 32) \<or> n = 133 \<or> n = 160)"

definition py_isdigit :: "char \<Rightarrow> bool" where
  \<comment> \<open>\<open>str.isdigit\<close> on U+0000..U+00FF: ASCII digits and the superscripts 1, 2, 3\<close>
  "py_isdigit c \<longleftrightarrow> (let n = of_char c :: nat in
     (48 \<le> n \<and> n \<le> 57) \<or> n = 178 \<or> n = 179 \<or> n = 185)"

definition is_ascii_alnum :: "char \<Rightarrow> bool" where
  \<comment> \<open>the regular-expression class \<open>[a-zA-Z0-9]\<close>\<close>
  "is_ascii_alnum c \<longleftrightarrow> (let n = of_char c :: nat in
     (48 \<le> n \<and> n \<le> 57) \<or> (65 \<le> n \<and> n \<le> 90) \<or> (97 \<le> n \<and> n \<le> 122))"

definition is_upper :: "char \<Rightarrow> bool" where
  \<comment> \<open>the characters that \<open>str.lower\<close> changes in U+0000..U+00FF\<close>
  "is_upper c \<longleftrightarrow> (let n = of_char c :: nat in
     (65 \<le> n \<and> n \<le> 90) \<or> (192 \<le> n \<and> n \<le> 222 \<and> n \<noteq> 215))"

definition lower_char :: "char \<Rightarrow> char" where
  \<comment> \<open>\<open>str.lower\<close> on U+0000..U+00FF: add 32, that is, set bit 5\<close>
  "lower_char c =
     (if is_upper c
      then (case c of Char b0 b1 b2 b3 b4 b5 b6 b7 \<Rightarrow> Char b0 b1 b2 b3 b4 True b6 b7)
      else c)"

section \<open>Strings\<close>

definition py_lower :: "string \<Rightarrow> string" where
  "py_lower s = map lower_char s"

definition py_strip :: "string \<Rightarrow> string" where
  \<comment> \<open>\<open>str.strip()\<close>\<close>
  "py_strip s = rev (dropWhile is_space (rev (dropWhile is_space s)))"

definition py_rstrip :: "char \<Rightarrow> string \<Rightarrow> string" where
  \<comment> \<open>\<open>str.rstrip(c)\<close> for a one-character argument\<close>
  "py_rstrip c s = rev (dropWhile (\<lambda>x. x = c) (rev s))"

definition py_startswith :: "string \<Rightarrow> string \<Rightarrow> bool" where
  \<comment> \<open>\<open>s.startswith(p)\<close> is \<open>py_startswith p s\<close>\<close>
  "py_startswith p s \<longleftrightarrow> take (length p) s = p"

definition py_endswith :: "string \<Rightarrow> string \<Rightarrow> bool" where
  \<comment> \<open>\<open>s.endswith(p)\<close> is \<open>py_endswith p s\<close>\<close>
  "py_endswith p s \<longleftrightarrow> length p \<le> length s \<and> drop (length s - length p) s = p"

fun py_in :: "'a list \<Rightarrow> 'a list \<Rightarrow> bool" where
  \<comment> \<open>the operator \<open>n in h\<close> on strings: \<open>n\<close> occurs contiguously in \<open>h\<close>\<close>
  "py_in n [] \<longleftrightarrow> n = []"
| "py_in n (c # cs) \<longleftrightarrow> take (length n) (c # cs) = n \<or> py_in n cs"

fun py_join :: "string \<Rightarrow> string list \<Rightarrow> string" where
  \<comment> \<open>\<open>sep.join(xs)\<close>\<close>
  "py_join sep [] = []"
| "py_join sep [x] = x"
| "py_join sep (x # y # zs) = x @ sep @ py_join sep (y # zs)"

fun split_char :: "char \<Rightarrow> string \<Rightarrow> string list" where
  \<comment> \<open>\<open>s.split(c)\<close> for a one-character separator; never empty\<close>
  "split_char c [] = [[]]"
| "split_char c (x # xs) =
     (if x = c then [] # split_char c xs
      else (case split_char c xs of [] \<Rightarrow> [[x]] | w # ws \<Rightarrow> (x # w) # ws))"

fun replace_aux :: "'a list \<Rightarrow> 'a list \<Rightarrow> 'a list \<Rightarrow> 'a list" where
  "replace_aux old new [] = []"
| "replace_aux old new (c # cs) =
     (if old \<noteq> [] \<and> take (length old) (c # cs) = old
      then new @ replace_aux old new (drop (length old) (c # cs))
      else c # replace_aux old new cs)"

definition py_replace :: "string \<Rightarrow> string \<Rightarrow> string \<Rightarrow> string" where
  \<comment> \<open>\<open>s.replace(old, new)\<close> is \<open>py_replace old new s\<close>: every occurrence, left to
    right; an empty \<open>old\<close> inserts \<open>new\<close> around every character, as CPython does\<close>
  "py_replace old new s =
     (if old = [] then concat (map (\<lambda>c. new @ [c]) s) @ new else replace_aux old new s)"

definition py_index :: "'a list \<Rightarrow> nat \<Rightarrow> py_exc + 'a" where
  \<comment> \<open>\<open>xs[i]\<close> for a non-negative literal index\<close>
  "py_index xs i = (if i < length xs then Inr (xs ! i) else Inl IndexError)"

section \<open>JSON values and truthiness\<close>

datatype json =
    JNull
  | JBool bool
  | JNum int
  | JStr string
  | JArr "json list"
  | JObj "(string \<times> json) list"

fun py_truthy :: "json \<Rightarrow> bool" where
  "py_truthy JNull \<longleftrightarrow> False"
| "py_truthy (JBool b) \<longleftrightarrow> b"
| "py_truthy (JNum n) \<longleftrightarrow> n \<noteq> 0"
| "py_truthy (JStr s) \<longleftrightarrow> s \<noteq> []"
| "py_truthy (JArr xs) \<longleftrightarrow> xs \<noteq> []"
| "py_truthy (JObj kvs) \<longleftrightarrow> kvs \<noteq> []"

definition dict_get :: "(string \<times> json) list \<Rightarrow> string \<Rightarrow> json option" where
  \<comment> \<open>\<open>d.get(k)\<close> on a dictionary decoded by \<open>json.loads\<close>: a repeated key keeps
    its last value\<close>
  "dict_get kvs k = map_of (rev kvs) k"

fun json_get :: "json \<Rightarrow> string \<Rightarrow> json \<Rightarrow> py_exc + json" where
  \<comment> \<open>\<open>v.get(k, default)\<close>: \<open>AttributeError\<close> unless \<open>v\<close> is a dictionary\<close>
  "json_get (JObj kvs) k dflt = Inr (case dict_get kvs k of None \<Rightarrow> dflt | Some v \<Rightarrow> v)"
| "json_get v k dflt = Inl AttributeError"

section \<open>Python dictionaries with insertion order\<close>

fun dict_set :: "'k \<Rightarrow> 'v \<Rightarrow> ('k \<times> 'v) list \<Rightarrow> ('k \<times> 'v) list" where
  \<comment> \<open>\<open>d[k] = v\<close>: an existing key keeps its position, a new key goes last\<close>
  "dict_set k v [] = [(k, v)]"
| "dict_set k v ((k', v') # d) =
     (if k = k' then (k, v) # d else (k', v') # dict_set k v d)"

section \<open>First-occurrence deduplication\<close>

text \<open>
  The reference behaviour of the scraper's \<open>seen\<close>-set loops: keep the first element
  of every key, in order.
\<close>

fun nub_by :: "('a \<Rightarrow> 'k) \<Rightarrow> 'a list \<Rightarrow> 'a list" where
  "nub_by f [] = []"
| "nub_by f (x # xs) = x # nub_by f (filter (\<lambda>y. f y \<noteq> f x) xs)"

section \<open>Reference semantics of \<open>re.findall\<close>\<close>

text \<open>
  For a pattern that cannot match the empty string, given by the set \<open>L\<close> of strings
  it matches, \<open>re.findall\<close> scans left to right: at the first position where some
  non-empty prefix of the rest is in \<open>L\<close> it takes the longest such prefix (for the
  two patterns of the scraper the greedy match is the longest one) and resumes after
  it; where none is, it moves on by one character. \<open>findall_ref\<close> is this
  specification, written from the language alone, against which the two scanners are
  proved equal.
\<close>

fun longest_from :: "(string \<Rightarrow> bool) \<Rightarrow> string \<Rightarrow> nat \<Rightarrow> nat option" where
  \<comment> \<open>the longest prefix of \<open>s\<close> of length at most \<open>k\<close>, and at least one, in \<open>L\<close>\<close>
  "longest_from L s 0 = None"
| "longest_from L s (Suc k) = (if L (take (Suc k) s) then Some (Suc k) else longest_from L s k)"

function findall_ref :: "(string \<Rightarrow> bool) \<Rightarrow> string \<Rightarrow> string list" where
  \<comment> \<open>leftmost-longest non-overlapping matches, left to right\<close>
  "findall_ref L [] = []"
| "findall_ref L (c # cs) =
     (case longest_from L (c # cs) (length (c # cs)) of
        None \<Rightarrow> findall_ref L cs
      | Some k \<Rightarrow> take k (c # cs) # findall_ref L (drop k (c # cs)))"
  by pat_completeness auto
termination
proof (relation "measure (\<lambda>(L, s). length s)")
  show "wf (measure (\<lambda>(L, s). length s))" by simp
next
  fix L c cs
  show "((L, cs), L, c # cs) \<in> measure (\<lambda>(L, s). length s)" by simp
next
  fix L c cs k
  assume a: "longest_from L (c # cs) (length (c # cs)) = Some k"
  have "longest_from L s n = Some k \<Longrightarrow> 0 < k" for s n
    by (induction n) (auto split: if_splits)
  then have "0 < k" using a .
  then show "((L, drop k (c # cs)), L, c # cs) \<in> measure (\<lambda>(L, s). length s)" by simp
qed

section \<open>Lemmas on the string model\<close>

lemma take_length_prefix [py_str]: "take (length p) s = p \<longleftrightarrow> prefix p s"
proof
  assume "take (length p) s = p"
  then have "s = p @ drop (length p) s"
    using append_take_drop_id [of "length p" s] by simp
  then show "prefix p s" by (rule prefixI)
next
  assume "prefix p s"
  then show "take (length p) s = p" by (auto simp: prefix_def)
qed

lemma py_in_sublist [py_str]: "py_in n h \<longleftrightarrow> sublist n h"
  by (induction h) (simp_all add: take_length_prefix sublist_Cons_right)

lemma py_in_append [py_str]: "py_in n h \<Longrightarrow> py_in n (a @ h @ b)"
proof -
  assume "py_in n h"
  then obtain ps ss where "h = ps @ n @ ss" by (auto simp: py_in_sublist sublist_def)
  then have "a @ h @ b = (a @ ps) @ n @ (ss @ b)" by simp
  then show ?thesis by (simp only: py_in_sublist sublist_appendI)
qed

lemma py_in_Nil [simp]: "py_in [] h"
  by (cases h) simp_all

lemma py_startswith_prefix [py_str]: "py_startswith p s \<longleftrightarrow> prefix p s"
  by (simp add: py_startswith_def take_length_prefix)

lemma py_endswith_suffix [py_str]: "py_endswith p s \<longleftrightarrow> suffix p s"
proof
  assume a: "py_endswith p s"
  have "s = take (length s - length p) s @ drop (length s - length p) s" by simp
  with a have "s = take (length s - length p) s @ p" by (simp add: py_endswith_def)
  then show "suffix p s" by (rule suffixI)
next
  assume "suffix p s"
  then obtain u where "s = u @ p" by (auto simp: suffix_def)
  then show "py_endswith p s" by (simp add: py_endswith_def)
qed

lemma split_char_nonempty [simp]: "split_char c s \<noteq> []"
  by (induction s) (auto split: list.split)

lemma concat_split_char: "py_join [c] (split_char c s) = s"
proof (induction s)
  case Nil
  then show ?case by simp
next
  case (Cons x xs)
  show ?case
  proof (cases "x = c")
    case True
    with Cons show ?thesis
      by (cases "split_char c xs") simp_all
  next
    case False
    obtain w ws where ws: "split_char c xs = w # ws"
      by (cases "split_char c xs") simp_all
    with Cons False show ?thesis by (cases ws) simp_all
  qed
qed

lemma split_char_no_sep: "c \<notin> set s \<Longrightarrow> split_char c s = [s]"
  by (induction s) auto

lemma split_char_append_sep:
  "c \<notin> set u \<Longrightarrow> split_char c (u @ c # v) = u # split_char c v"
  by (induction u) auto

lemma set_dropWhile_le: "set (dropWhile P xs) \<subseteq> set xs"
  by (induction xs) auto

lemma py_strip_idem_pieces:
  assumes "s \<noteq> []" "\<not> is_space (hd s)" "\<not> is_space (last s)"
  shows "py_strip s = s"
proof -
  have "dropWhile is_space s = s"
    using assms by (cases s) simp_all
  moreover have "dropWhile is_space (rev s) = rev s"
    using assms by (cases "rev s") (simp_all add: hd_rev)
  ultimately show ?thesis by (simp add: py_strip_def)
qed

lemma py_strip_Nil [simp]: "py_strip [] = []"
  by (simp add: py_strip_def)

lemma py_in_Cons: "py_in n cs \<Longrightarrow> py_in n (c # cs)"
  by simp

lemma replace_aux_no_occ [py_str]: "\<not> py_in old s \<Longrightarrow> replace_aux old new s = s"
  by (induction s) auto

lemma replace_aux_prefix [py_str]:
  "old \<noteq> [] \<Longrightarrow> replace_aux old new (old @ s) = new @ replace_aux old new s"
  by (cases old) simp_all

lemma py_replace_delete_prefix [py_str]:
  "old \<noteq> [] \<Longrightarrow> \<not> py_in old s \<Longrightarrow> py_replace old [] (old @ s) = s"
  by (simp add: py_replace_def replace_aux_prefix replace_aux_no_occ)

lemma py_strip_space_Cons [py_str]: "is_space c \<Longrightarrow> py_strip (c # s) = py_strip s"
  by (simp add: py_strip_def)

lemma py_strip_fixed_hd:
  assumes "py_strip s = s" "s \<noteq> []"
  shows "\<not> is_space (hd s)"
proof
  assume sp: "is_space (hd s)"
  have "length (py_strip s) \<le> length (dropWhile is_space s)"
    using length_dropWhile_le [of is_space "rev (dropWhile is_space s)"]
    by (simp add: py_strip_def)
  also have "\<dots> < length s"
    using assms(2) sp by (cases s) (simp_all add: le_imp_less_Suc length_dropWhile_le)
  finally show False using assms(1) by simp
qed

lemma newline_space [simp]: "is_space (CHR 0x0A)"
  by (simp add: is_space_def)

lemma lower_char_plus32:
  "is_upper c \<Longrightarrow> of_char (lower_char c) = (of_char c + 32 :: nat)"
proof (cases c)
  case (Char b0 b1 b2 b3 b4 b5 b6 b7)
  assume "is_upper c"
  then show ?thesis
    unfolding lower_char_def is_upper_def Char
    by (cases b0; cases b1; cases b2; cases b3; cases b4; cases b5; cases b6; cases b7)
       (simp_all add: Let_def)
qed

lemma takeWhile_ne_sep [py_str]: "c \<notin> set xs \<Longrightarrow> takeWhile (\<lambda>x. x \<noteq> c) (xs @ c # ys) = xs"
  by (induction xs) auto

lemma suffix_unique_sep:
  assumes "suffix (c # u) (xs @ c # v)" "c \<notin> set u" "c \<notin> set v"
  shows "u = v"
proof -
  obtain w where w: "xs @ c # v = w @ c # u" using assms(1) by (auto simp: suffix_def)
  have "rev (xs @ c # v) = rev (w @ c # u)" using w by simp
  then have "rev v @ c # rev xs = rev u @ c # rev w" by simp
  then have "takeWhile (\<lambda>x. x \<noteq> c) (rev v @ c # rev xs) = takeWhile (\<lambda>x. x \<noteq> c) (rev u @ c # rev w)"
    by simp
  moreover have "takeWhile (\<lambda>x. x \<noteq> c) (rev v @ c # rev xs) = rev v"
    using assms(3) by (simp add: takeWhile_ne_sep)
  moreover have "takeWhile (\<lambda>x. x \<noteq> c) (rev u @ c # rev w) = rev u"
    using assms(2) by (simp add: takeWhile_ne_sep)
  ultimately show ?thesis by simp
qed

section \<open>Lemmas on dictionaries\<close>

lemma map_of_dict_set [simp]: "map_of (dict_set k v d) = (map_of d)(k \<mapsto> v)"
  by (induction d) (auto simp: fun_eq_iff)

lemma keys_dict_set:
  "map fst (dict_set k v d) = (if k \<in> set (map fst d) then map fst d else map fst d @ [k])"
  by (induction d) force+

lemma distinct_dict_set [intro]:
  "distinct (map fst d) \<Longrightarrow> distinct (map fst (dict_set k v d))"
  by (simp add: keys_dict_set)

section \<open>Lemmas on first-occurrence deduplication\<close>

lemma set_nub_by: "set (nub_by f xs) \<subseteq> set xs"
  by (induction f xs rule: nub_by.induct) auto

lemma keys_nub_by [simp]: "f ` set (nub_by f xs) = f ` set xs"
  by (induction f xs rule: nub_by.induct) auto

lemma distinct_nub_by [simp]: "distinct (map f (nub_by f xs))"
proof (induction f xs rule: nub_by.induct)
  case (1 f)
  then show ?case by simp
next
  case (2 f x xs)
  have "f x \<notin> f ` set (nub_by f (filter (\<lambda>y. f y \<noteq> f x) xs))"
    by auto
  with 2 show ?case by simp
qed

lemma nub_by_distinct_id: "distinct (map f xs) \<Longrightarrow> nub_by f xs = xs"
proof (induction xs)
  case Nil
  then show ?case by simp
next
  case (Cons x xs)
  then have "\<forall>y \<in> set xs. f y \<noteq> f x"
    by (metis distinct.simps(2) image_eqI list.set_map list.simps(9))
  then have "filter (\<lambda>y. f y \<noteq> f x) xs = xs"
    by (simp add: filter_id_conv)
  with Cons show ?case by simp
qed

lemma nub_by_idem [simp]: "nub_by f (nub_by f xs) = nub_by f xs"
  by (rule nub_by_distinct_id) simp

lemma subseq_nub_by: "subseq (nub_by f xs) xs"
proof (induction f xs rule: nub_by.induct)
  case (1 f)
  then show ?case by simp
next
  case (2 f x xs)
  have "subseq (filter (\<lambda>y. f y \<noteq> f x) xs) xs"
    by (rule subseq_filter_left)
  with 2 have "subseq (nub_by f (filter (\<lambda>y. f y \<noteq> f x) xs)) xs"
    using subseq_order.order_trans by blast
  then show ?case by simp
qed

lemma find_nub_by: "find (\<lambda>y. f y = k) (nub_by f xs) = find (\<lambda>y. f y = k) xs"
proof (induction f xs rule: nub_by.induct)
  case (1 f)
  then show ?case by simp
next
  case (2 f x xs)
  show ?case
  proof (cases "f x = k")
    case True
    then show ?thesis by simp
  next
    case False
    then have "find (\<lambda>y. f y = k) (filter (\<lambda>y. f y \<noteq> f x) xs) = find (\<lambda>y. f y = k) xs"
      by (induction xs) auto
    with 2 False show ?thesis by simp
  qed
qed

lemma find_filter_conj: "find P (filter Q xs) = find (\<lambda>x. Q x \<and> P x) xs"
  by (induction xs) auto

lemma py_strip_last: "py_strip s \<noteq> [] \<Longrightarrow> \<not> is_space (last (py_strip s))"
proof -
  assume "py_strip s \<noteq> []"
  then have ne: "dropWhile is_space (rev (dropWhile is_space s)) \<noteq> []" by (simp add: py_strip_def)
  show ?thesis using hd_dropWhile [OF ne] by (simp add: py_strip_def last_rev)
qed

lemma py_strip_hd: "py_strip s \<noteq> [] \<Longrightarrow> \<not> is_space (hd (py_strip s))"
proof -
  assume ne: "py_strip s \<noteq> []"
  define d where "d = dropWhile is_space s"
  have ps: "py_strip s = rev (dropWhile is_space (rev d))" by (simp add: py_strip_def d_def)
  obtain ys where "rev d = ys @ dropWhile is_space (rev d)"
    using takeWhile_dropWhile_id by metis
  then have "d = py_strip s @ rev ys" by (metis ps rev_append rev_rev_ident)
  then have "hd d = hd (py_strip s)" "d \<noteq> []" using ne by (simp_all add: hd_append2)
  then show ?thesis using hd_dropWhile [of is_space s] by (simp add: d_def)
qed

lemma py_strip_idem [simp]: "py_strip (py_strip s) = py_strip s"
  by (cases "py_strip s = []") (simp_all add: py_strip_idem_pieces py_strip_hd py_strip_last)

lemma hd_py_join: "x \<noteq> [] \<Longrightarrow> hd (py_join sep (x # xs)) = hd x"
  by (cases xs) simp_all

lemma last_py_join_aux:
  "last xs \<noteq> [] \<Longrightarrow> xs \<noteq> [] \<Longrightarrow> py_join sep xs \<noteq> [] \<and> last (py_join sep xs) = last (last xs)"
  by (induction sep xs rule: py_join.induct) simp_all

lemma last_py_join: "last xs \<noteq> [] \<Longrightarrow> xs \<noteq> [] \<Longrightarrow> last (py_join sep xs) = last (last xs)"
  using last_py_join_aux by blast

lemma py_join_nonempty: "x \<noteq> [] \<Longrightarrow> py_join sep (x # xs) \<noteq> []"
  by (cases xs) simp_all

lemma last_filter_Cons:
  assumes "filter P xs = y # ys"
  shows "P (last (y # ys))"
proof -
  have "last (y # ys) \<in> set (filter P xs)" using assms last_in_set by (metis list.distinct(1))
  then show ?thesis by simp
qed

section \<open>Lemmas on the reference \<open>findall\<close>\<close>

lemma longest_from_Some:
  "longest_from L s n = Some k \<longleftrightarrow>
     0 < k \<and> k \<le> n \<and> L (take k s) \<and> (\<forall>i. k < i \<and> i \<le> n \<longrightarrow> \<not> L (take i s))"
  by (induction n) (auto simp: le_Suc_eq)

lemma longest_from_None: "longest_from L s n = None \<longleftrightarrow> (\<forall>i. 0 < i \<and> i \<le> n \<longrightarrow> \<not> L (take i s))"
  by (induction n) (auto simp: le_Suc_eq)

lemma longest_from_matcher:
  assumes sound: "\<And>m rest. M s = Some (m, rest) \<Longrightarrow> s = m @ rest \<and> m \<noteq> [] \<and> L m"
    and complete: "\<And>k. 0 < k \<Longrightarrow> k \<le> length s \<Longrightarrow> L (take k s) \<Longrightarrow>
                      \<exists>m rest. M s = Some (m, rest) \<and> k \<le> length m"
  shows "longest_from L s (length s) = map_option (length \<circ> fst) (M s)"
proof (cases "M s")
  case None
  have "\<not> L (take i s)" if "0 < i" "i \<le> length s" for i
    using complete [OF that] None by auto
  with None show ?thesis by (simp add: longest_from_None)
next
  case (Some a)
  obtain m rest where a: "M s = Some (m, rest)" using Some by (cases a) auto
  then have s: "s = m @ rest" "m \<noteq> []" "L m" using sound by auto
  have "\<not> L (take i s)" if i1: "length m < i" and i2: "i \<le> length s" for i
  proof
    assume li: "L (take i s)"
    have "0 < i" using i1 by simp
    then obtain m' rest' where "M s = Some (m', rest')" "i \<le> length m'"
      using complete [OF _ i2 li] by blast
    with a i1 show False by simp
  qed
  moreover have "take (length m) s = m" using s(1) by simp
  ultimately show ?thesis using a s by (auto simp: longest_from_Some)
qed

lemma find_append_split: "find P (xs @ ys) = (case find P xs of None \<Rightarrow> find P ys | Some x \<Rightarrow> Some x)"
  by (induction xs) auto

end
