(* ===== verification/Html.thy ===== *)
theory Html
  imports Prelude
begin

text \<open>
  The parsed document that every resolver of \<open>src/app/scraper.py\<close> works on:
  \<open>BeautifulSoup(html, 'html.parser')\<close> gives a forest of elements and text strings,
  and the scraper only reads it through a handful of BeautifulSoup calls, modelled
  here as functions on that forest: \<open>find_all\<close> and \<open>find\<close> (document order,
  descendants only), attribute access (\<open>a['href']\<close>, \<open>has_attr\<close>, the
  multi-valued \<open>class\<close>), \<open>get_text(separator, strip)\<close>,
  \<open>find_next_sibling\<close> and \<open>decompose\<close>. The parser itself
  (\<open>html \<Rightarrow> forest\<close>) is an external library and stays a parameter of the
  resolvers (see \<open>Web\<close>).
\<close>

section \<open>Documents\<close>

datatype node =
    Text string
  | Elem string "(string \<times> string) list" "node list"
    \<comment> \<open>tag name (lower case, as \<open>html.parser\<close> gives it), attributes in source order, children\<close>

type_synonym doc = "node list"

fun children :: "node \<Rightarrow> node list" where
  "children (Text s) = []"
| "children (Elem t a cs) = cs"

fun get_attr :: "node \<Rightarrow> string \<Rightarrow> string option" where
  \<comment> \<open>\<open>tag.get(k)\<close>; a repeated attribute keeps its last value (BeautifulSoup's default)\<close>
  "get_attr (Text s) k = None"
| "get_attr (Elem t a cs) k = map_of (rev a) k"

fun has_name :: "string list \<Rightarrow> node \<Rightarrow> bool" where
  "has_name names (Text s) \<longleftrightarrow> False"
| "has_name names (Elem t a cs) \<longleftrightarrow> t \<in> set names"

fun nodes :: "node list \<Rightarrow> node list" where
  \<comment> \<open>all descendants of a forest in document order (pre-order)\<close>
  "nodes [] = []"
| "nodes (Text s # ns) = Text s # nodes ns"
| "nodes (Elem t a cs # ns) = Elem t a cs # nodes cs @ nodes ns"

fun texts :: "node list \<Rightarrow> string list" where
  \<comment> \<open>the text strings of a forest in document order\<close>
  "texts [] = []"
| "texts (Text s # ns) = s # texts ns"
| "texts (Elem t a cs # ns) = texts cs @ texts ns"

fun with_sibs :: "node list \<Rightarrow> (node \<times> node list) list" where
  \<comment> \<open>every descendant together with the siblings that follow it\<close>
  "with_sibs [] = []"
| "with_sibs (Text s # ns) = (Text s, ns) # with_sibs ns"
| "with_sibs (Elem t a cs # ns) = (Elem t a cs, ns) # with_sibs cs @ with_sibs ns"

section \<open>Searching\<close>

definition find_all :: "string list \<Rightarrow> doc \<Rightarrow> node list" where
  \<comment> \<open>\<open>x.find_all(names)\<close> on a forest (the children of \<open>x\<close>)\<close>
  "find_all names ns = filter (has_name names) (nodes ns)"

definition find_tag :: "string list \<Rightarrow> doc \<Rightarrow> node option" where
  \<comment> \<open>\<open>x.find(names)\<close>: the first match, or \<open>None\<close>\<close>
  "find_tag names ns = (case find_all names ns of [] \<Rightarrow> None | n # _ \<Rightarrow> Some n)"

definition anchors :: "doc \<Rightarrow> (node \<times> string) list" where
  \<comment> \<open>\<open>soup.find_all('a', href=True)\<close>, each anchor with \<open>a['href']\<close>\<close>
  "anchors ns = concat (map (\<lambda>n. case get_attr n ''href'' of None \<Rightarrow> [] | Some h \<Rightarrow> [(n, h)])
                          (find_all [''a''] ns))"

fun find_next_sibling :: "string list \<Rightarrow> node list \<Rightarrow> node option" where
  \<comment> \<open>\<open>q.find_next_sibling(names)\<close>, given the siblings after \<open>q\<close>: the first
    later sibling with one of the names, not necessarily the adjacent one\<close>
  "find_next_sibling names [] = None"
| "find_next_sibling names (n # ns) =
     (if has_name names n then Some n else find_next_sibling names ns)"

fun ws_split_aux :: "string \<Rightarrow> string \<Rightarrow> string list" where
  "ws_split_aux cur [] = (if cur = [] then [] else [rev cur])"
| "ws_split_aux cur (c # cs) =
     (if is_space c then (if cur = [] then ws_split_aux [] cs else rev cur # ws_split_aux [] cs)
      else ws_split_aux (c # cur) cs)"

definition py_split_ws :: "string \<Rightarrow> string list" where
  \<comment> \<open>\<open>str.split()\<close>, which BeautifulSoup uses to split the \<open>class\<close> attribute\<close>
  "py_split_ws s = ws_split_aux [] s"

definition has_class :: "string list \<Rightarrow> node \<Rightarrow> bool" where
  \<comment> \<open>\<open>class_=names\<close>: one of the element's class tokens is one of \<open>names\<close>\<close>
  "has_class names n \<longleftrightarrow>
     (case get_attr n ''class'' of None \<Rightarrow> False
      | Some v \<Rightarrow> list_ex (\<lambda>tok. tok \<in> set names) (py_split_ws v))"

definition find_all_class :: "string list \<Rightarrow> doc \<Rightarrow> node list" where
  \<comment> \<open>\<open>soup.find_all(class_=names)\<close>\<close>
  "find_all_class names ns = filter (has_class names) (nodes ns)"

section \<open>Text extraction and removal\<close>

definition get_text :: "string \<Rightarrow> bool \<Rightarrow> doc \<Rightarrow> string" where
  \<comment> \<open>\<open>x.get_text(separator=sep, strip=strip)\<close> on the children of \<open>x\<close>: with
    \<open>strip\<close>, every string is stripped and the empty ones are dropped\<close>
  "get_text sep strip ns =
     py_join sep (if strip then filter (\<lambda>s. s \<noteq> []) (map py_strip (texts ns)) else texts ns)"

abbreviation tag_text :: "node \<Rightarrow> string" where
  \<comment> \<open>\<open>x.get_text(strip=True)\<close>\<close>
  "tag_text n \<equiv> get_text [] True (children n)"

fun decompose :: "string list \<Rightarrow> doc \<Rightarrow> doc" where
  \<comment> \<open>\<open>for tag in soup(names): tag.decompose()\<close>: every such element is removed
    with its subtree\<close>
  "decompose names [] = []"
| "decompose names (Text s # ns) = Text s # decompose names ns"
| "decompose names (Elem t a cs # ns) =
     (if t \<in> set names then decompose names ns
      else Elem t a (decompose names cs) # decompose names ns)"

definition main_content :: "doc \<Rightarrow> doc" where
  \<comment> \<open>\<open>soup.find('main') or soup.find('div', {'id': 'MainContent'}) or soup\<close>;
    a BeautifulSoup tag is always true, so \<open>or\<close> only skips \<open>None\<close>\<close>
  "main_content ns =
     (case find_tag [''main''] ns of
        Some m \<Rightarrow> children m
      | None \<Rightarrow>
          (case filter (\<lambda>n. get_attr n ''id'' = Some ''MainContent'') (find_all [''div''] ns) of
             d # _ \<Rightarrow> children d
           | [] \<Rightarrow> ns))"

definition main_text :: "doc \<Rightarrow> string" where
  \<comment> \<open>\<open>main.get_text(separator='\n', strip=True)\<close>\<close>
  "main_text ns = get_text ''\<newline>'' True (main_content ns)"

section \<open>Lemmas\<close>

lemma nodes_append [simp]: "nodes (xs @ ys) = nodes xs @ nodes ys"
  by (induction xs rule: nodes.induct) simp_all

lemma texts_append [simp]: "texts (xs @ ys) = texts xs @ texts ys"
  by (induction xs rule: texts.induct) simp_all

lemma map_fst_with_sibs [simp]: "map fst (with_sibs ns) = nodes ns"
  by (induction ns rule: with_sibs.induct) simp_all

lemma find_all_append [simp]: "find_all names (xs @ ys) = find_all names xs @ find_all names ys"
  by (simp add: find_all_def)

lemma find_all_Text [simp]: "find_all names (Text s # ns) = find_all names ns"
  by (simp add: find_all_def)

lemma find_all_Elem [simp]:
  "find_all names (Elem t a cs # ns) =
     (if t \<in> set names then [Elem t a cs] else []) @ find_all names cs @ find_all names ns"
  by (simp add: find_all_def)

lemma find_all_Nil [simp]: "find_all names [] = []"
  by (simp add: find_all_def)

lemma anchors_Nil [simp]: "anchors [] = []"
  by (simp add: anchors_def)

lemma anchors_append [simp]: "anchors (xs @ ys) = anchors xs @ anchors ys"
  by (simp add: anchors_def)

lemma decompose_no_names [simp]: "set (find_all names (decompose names ns)) = {}"
  by (induction names ns rule: decompose.induct) simp_all

lemma get_text_stripped: "py_strip (get_text sep True ns) = get_text sep True ns"
proof (cases "filter (\<lambda>s. s \<noteq> []) (map py_strip (texts ns))")
  case Nil
  then show ?thesis by (simp add: get_text_def)
next
  case (Cons x xs)
  have pieces: "\<forall>p \<in> set (x # xs). p \<noteq> [] \<and> py_strip p = p"
    using Cons [symmetric] by auto
  then have "last (x # xs) \<noteq> []" "py_strip (last (x # xs)) = last (x # xs)" by simp_all
  then have "\<not> is_space (last (py_join sep (x # xs)))"
    using py_strip_last [of "last (x # xs)"] by (simp add: last_py_join)
  moreover have "\<not> is_space (hd (py_join sep (x # xs)))"
    using pieces py_strip_hd [of x] by (simp add: hd_py_join)
  moreover have "py_join sep (x # xs) \<noteq> []" using pieces by (simp add: py_join_nonempty)
  ultimately show ?thesis by (simp add: get_text_def Cons py_strip_idem_pieces)
qed

end
