(* ===== verification/Web.thy ===== *)
theory Web
  imports Html
begin

text \<open>
  The page-fetching layer of \<open>src/app/scraper.py\<close> and the collaborators every
  resolver shares. A \<open>runtime\<close> record holds the external world the scraper calls
  into: the web as seen by \<open>requests.get(url, timeout=10)\<close> (a response or a raised
  exception, \<open>None\<close>), BeautifulSoup's parser, \<open>json.loads\<close>, the
  \<open>phonenumbers\<close> matcher, the OpenAI chat completion, the \<open>OPENAI_API_KEY\<close>
  setting, and the iteration order of a Python \<open>set\<close>. The web is a snapshot: the
  same URL gives the same answer within one extraction. The scraper object itself
  (\<open>ShopifyScraper\<close>) only holds its base URL.
\<close>

record response =
  status_code :: nat
  resp_text :: string

record runtime =
  http_get :: "string \<Rightarrow> response option"
    \<comment> \<open>\<open>requests.get(url, timeout=10)\<close>; \<open>None\<close>: it raised (timeout, DNS, refused)\<close>
  parse_html :: "string \<Rightarrow> doc"
    \<comment> \<open>\<open>BeautifulSoup(text, 'html.parser')\<close>\<close>
  json_loads :: "string \<Rightarrow> json option"
    \<comment> \<open>\<open>json.loads(text)\<close> and \<open>resp.json()\<close>; \<open>None\<close>: it raised\<close>
  phone_numbers :: "string \<Rightarrow> string list"
    \<comment> \<open>\<open>PhoneNumberMatcher(text, "IN")\<close>, each match formatted as E.164\<close>
  llm_complete :: "string \<Rightarrow> nat \<Rightarrow> string option"
    \<comment> \<open>\<open>client.chat.completions.create(...)\<close> on a prompt with \<open>max_tokens\<close>, and
      \<open>choices[0].message.content\<close>; \<open>None\<close>: the call raised or the content is null\<close>
  api_key :: "string option"
    \<comment> \<open>\<open>os.getenv("OPENAI_API_KEY")\<close>\<close>
  set_order :: "string list \<Rightarrow> string list"
    \<comment> \<open>\<open>list(s)\<close> for the Python set built by inserting these distinct strings in order\<close>

record scraper =
  base_url :: string

definition scraper_init :: "string \<Rightarrow> scraper" where
  \<comment> \<open>\<open>ShopifyScraper.__init__\<close>\<close>
  "scraper_init u = \<lparr>base_url = py_rstrip CHR ''/'' u\<rparr>"

definition fetch_homepage_html :: "runtime \<Rightarrow> scraper \<Rightarrow> string" where
  \<comment> \<open>\<open>fetch_homepage_html\<close>: the body on status 200, else the empty string\<close>
  "fetch_homepage_html rt sc =
     (case http_get rt (base_url sc) of
        None \<Rightarrow> []
      | Some r \<Rightarrow> if status_code r = 200 then resp_text r else [])"

definition get_200 :: "runtime \<Rightarrow> string \<Rightarrow> string option" where
  \<comment> \<open>\<open>resp = requests.get(url, timeout=10)\<close> followed by
    \<open>if resp.status_code == 200:\<close> inside \<open>try ... except Exception\<close>\<close>
  "get_200 rt url =
     (case http_get rt url of
        None \<Rightarrow> None
      | Some r \<Rightarrow> if status_code r = 200 then Some (resp_text r) else None)"

definition resolve_href :: "scraper \<Rightarrow> string \<Rightarrow> string" where
  \<comment> \<open>\<open>href if href.startswith('http') else
     f"{self.base_url}{href if href.startswith('/') else '/' + href}"\<close>\<close>
  "resolve_href sc href =
     (if py_startswith ''http'' href then href
      else base_url sc @ (if py_startswith ''/'' href then href else ''/'' @ href))"

definition openai_client :: "runtime \<Rightarrow> py_exc + unit" where
  \<comment> \<open>\<open>openai.OpenAI(api_key=os.getenv("OPENAI_API_KEY"))\<close>: raises without a key\<close>
  "openai_client rt = (case api_key rt of None \<Rightarrow> Inl OpenAIError | Some k \<Rightarrow> Inr ())"

section \<open>Lemmas\<close>

lemma get_200_Some:
  "get_200 rt url = Some t \<longleftrightarrow>
     (\<exists>r. http_get rt url = Some r \<and> status_code r = 200 \<and> resp_text r = t)"
  by (auto simp: get_200_def split: option.splits)

lemma fetch_homepage_get_200:
  "fetch_homepage_html rt sc = (case get_200 rt (base_url sc) of None \<Rightarrow> [] | Some t \<Rightarrow> t)"
  by (simp add: fetch_homepage_html_def get_200_def split: option.split)

lemma py_rstrip_last: "py_rstrip c s \<noteq> [] \<Longrightarrow> last (py_rstrip c s) \<noteq> c"
proof -
  assume ne: "py_rstrip c s \<noteq> []"
  then have "dropWhile (\<lambda>x. x = c) (rev s) \<noteq> []" by (simp add: py_rstrip_def)
  then have "hd (dropWhile (\<lambda>x. x = c) (rev s)) \<noteq> c"
    using hd_dropWhile by blast
  then show ?thesis by (simp add: py_rstrip_def last_rev)
qed

lemma resolve_href_abs: "py_startswith ''http'' href \<Longrightarrow> resolve_href sc href = href"
  by (simp add: resolve_href_def)

lemma resolve_href_rel_slash:
  "\<not> py_startswith ''http'' href \<Longrightarrow> href = CHR ''/'' # p \<Longrightarrow> resolve_href sc href = base_url sc @ href"
  by (simp add: resolve_href_def py_startswith_def)

lemma resolve_href_rel_noslash:
  "\<not> py_startswith ''http'' href \<Longrightarrow> \<not> py_startswith ''/'' href \<Longrightarrow>
   resolve_href sc href = base_url sc @ CHR ''/'' # href"
  by (simp add: resolve_href_def)

end
