(* ===== verification/Faq.thy ===== *)
theory Faq
  imports Web
begin

text \<open>
  \<open>ShopifyScraper.get_faqs\<close> and \<open>extract_faqs_with_llm\<close>
  (\<open>src/app/scraper.py\<close>, lines 117-221). The locate phase probes twelve FAQ-like
  paths, then scans every homepage link not probed yet; the parse phase runs four
  structural heuristics over the page, keeps the first occurrence of every non-empty
  (question, answer) pair, and hands the page text to the language model when nothing
  is left. Every failure inside the \<open>try\<close> block gives the empty list.
\<close>

section \<open>Locating the FAQ page\<close>

definition faq_paths :: "string list" where
  "faq_paths =
     [''/pages/faq'', ''/pages/faqs'', ''/faq'', ''/faqs'',
      ''/pages/help'', ''/help'', ''/pages/support'', ''/support'',
      ''/pages/customer-service'', ''/customer-service'', ''/pages/questions'', ''/questions'']"

definition faq_page_matches :: "runtime \<Rightarrow> string \<Rightarrow> bool" where
  \<comment> \<open>\<open>resp.status_code == 200 and ('faq' in resp.text.lower() or
     'question' in resp.text.lower())\<close>; a raised request is no match\<close>
  "faq_page_matches rt url \<longleftrightarrow>
     (case http_get rt url of
        None \<Rightarrow> False
      | Some r \<Rightarrow> status_code r = 200 \<and>
          (py_in ''faq'' (py_lower (resp_text r)) \<or> py_in ''question'' (py_lower (resp_text r))))"

fun probe_faq_paths :: "runtime \<Rightarrow> string \<Rightarrow> string set \<Rightarrow> string list \<Rightarrow> string option \<times> string set" where
  \<comment> \<open>the first loop: every probed URL is added to \<open>checked_urls\<close> before the request;
    the loop stops at the first match\<close>
  "probe_faq_paths rt base checked [] = (None, checked)"
| "probe_faq_paths rt base checked (p # ps) =
     (let url = base @ p; checked' = insert url checked in
      if faq_page_matches rt url then (Some url, checked')
      else probe_faq_paths rt base checked' ps)"

definition faq_candidate_links :: "runtime \<Rightarrow> scraper \<Rightarrow> string set \<Rightarrow> string list" where
  \<comment> \<open>every homepage anchor, made absolute, that was not probed\<close>
  "faq_candidate_links rt sc checked =
     (let html = fetch_homepage_html rt sc in
      if html = [] then []
      else filter (\<lambda>href. href \<notin> checked)
             (map (\<lambda>(a, href). resolve_href sc href) (anchors (parse_html rt html))))"

fun scan_candidate_links :: "runtime \<Rightarrow> string list \<Rightarrow> string option" where
  \<comment> \<open>the second loop: the first candidate whose page matches\<close>
  "scan_candidate_links rt [] = None"
| "scan_candidate_links rt (l # ls) =
     (if faq_page_matches rt l then Some l else scan_candidate_links rt ls)"

definition locate_faq :: "runtime \<Rightarrow> scraper \<Rightarrow> string option" where
  \<comment> \<open>\<open>faq_url\<close> after both loops: the link scan runs whatever the probe found, and
    a matching link overrides the probed path\<close>
  "locate_faq rt sc =
     (let (found, checked) = probe_faq_paths rt (base_url sc) {} faq_paths in
      case scan_candidate_links rt (faq_candidate_links rt sc checked) of
        Some l \<Rightarrow> Some l
      | None \<Rightarrow> found)"

section \<open>Parsing the FAQ page\<close>

definition faq_class_items :: "doc \<Rightarrow> (string \<times> string) list" where
  \<comment> \<open>heuristic 1: elements classed \<open>faq\<close>/\<open>faq-item\<close>, first heading-like and first
    paragraph descendant\<close>
  "faq_class_items soup =
     concat (map (\<lambda>item.
        case (find_tag [''h2'', ''h3'', ''h4'', ''strong'', ''b''] (children item),
              find_tag [''p''] (children item)) of
          (Some q, Some a) \<Rightarrow> [(tag_text q, tag_text a)]
        | _ \<Rightarrow> [])
      (find_all_class [''faq'', ''faq-item''] soup))"

definition faq_details :: "doc \<Rightarrow> (string \<times> string) list" where
  \<comment> \<open>heuristic 2: \<open><details>\<close> with a \<open><summary>\<close>; every occurrence of the summary
    text is removed from the element's text\<close>
  "faq_details soup =
     concat (map (\<lambda>d.
        case find_tag [''summary''] (children d) of
          None \<Rightarrow> []
        | Some s \<Rightarrow>
            [(tag_text s, py_strip (py_replace (tag_text s) [] (get_text ''\<newline>'' True (children d))))])
      (find_all [''details''] soup))"

definition faq_headings :: "doc \<Rightarrow> (string \<times> string) list" where
  \<comment> \<open>heuristic 3: every heading-like element with its next \<open><p>\<close> sibling and its
    next \<open><ul>\<close>/\<open><ol>\<close> sibling\<close>
  "faq_headings soup =
     concat (map (\<lambda>(q, sibs).
        (case find_next_sibling [''p''] sibs of
           None \<Rightarrow> []
         | Some p \<Rightarrow> [(tag_text q, tag_text p)]) @
        (case find_next_sibling [''ul'', ''ol''] sibs of
           None \<Rightarrow> []
         | Some l \<Rightarrow> [(tag_text q, py_join ''\<newline>'' (map tag_text (find_all [''li''] (children l))))]))
      (filter (\<lambda>(n, sibs). has_name [''h2'', ''h3'', ''h4'', ''b'', ''strong''] n) (with_sibs soup)))"

definition faq_list_items :: "doc \<Rightarrow> (string \<times> string) list" where
  \<comment> \<open>heuristic 4: list items with a bold child, the rest of the item as answer\<close>
  "faq_list_items soup =
     concat (map (\<lambda>li.
        case find_tag [''strong'', ''b''] (children li) of
          None \<Rightarrow> []
        | Some q \<Rightarrow>
            (let answer = py_strip (py_replace (tag_text q) [] (tag_text li)) in
             if answer \<noteq> [] then [(tag_text q, answer)] else []))
      (find_all [''li''] soup))"

definition faq_heuristics :: "doc \<Rightarrow> (string \<times> string) list" where
  "faq_heuristics soup =
     faq_class_items soup @ faq_details soup @ faq_headings soup @ faq_list_items soup"

fun unique_faqs :: "(string \<times> string) set \<Rightarrow> (string \<times> string) list \<Rightarrow> (string \<times> string) list" where
  \<comment> \<open>the \<open>seen\<close> loop: keep a pair if it is new and both fields are non-empty\<close>
  "unique_faqs seen [] = []"
| "unique_faqs seen ((q, a) # fs) =
     (if (q, a) \<notin> seen \<and> q \<noteq> [] \<and> a \<noteq> []
      then (q, a) # unique_faqs (insert (q, a) seen) fs
      else unique_faqs seen fs)"

definition faq_json :: "string \<times> string \<Rightarrow> json" where
  \<comment> \<open>\<open>{'question': q, 'answer': a}\<close>\<close>
  "faq_json qa = JObj [(''question'', JStr (fst qa)), (''answer'', JStr (snd qa))]"

section \<open>The language-model fallback\<close>

definition quoted :: "string \<Rightarrow> string" where
  "quoted s = CHR 0x27 # s @ [CHR 0x27]"

definition faq_prompt :: "string \<Rightarrow> string" where
  "faq_prompt text =
     ''Extract all FAQ question and answer pairs from the following text. '' @
     ''Return as a JSON array of objects with '' @ quoted ''question'' @ '' and '' @
     quoted ''answer'' @ ''. '' @ ''Text:\<newline>'' @ text"

fun llm_faq_ok :: "json \<Rightarrow> bool" where
  \<comment> \<open>\<open>faq.get('question') and faq.get('answer')\<close> on a dictionary\<close>
  "llm_faq_ok (JObj kvs) \<longleftrightarrow>
     (case dict_get kvs ''question'' of None \<Rightarrow> False | Some q \<Rightarrow> py_truthy q) \<and>
     (case dict_get kvs ''answer'' of None \<Rightarrow> False | Some a \<Rightarrow> py_truthy a)"
| "llm_faq_ok v \<longleftrightarrow> False"

fun is_dict :: "json \<Rightarrow> bool" where
  "is_dict (JObj kvs) \<longleftrightarrow> True"
| "is_dict v \<longleftrightarrow> False"

definition extract_faqs_with_llm :: "runtime \<Rightarrow> string \<Rightarrow> py_exc + json list" where
  \<comment> \<open>the client is built outside the \<open>try\<close>: without a key it raises; a reply that
    is not a JSON list gives \<open>[]\<close>, and so does a list with a non-dictionary entry
    (\<open>.get\<close> raises \<open>AttributeError\<close>, caught)\<close>
  "extract_faqs_with_llm rt text =
     (case openai_client rt of
        Inl e \<Rightarrow> Inl e
      | Inr _ \<Rightarrow> Inr
          (case llm_complete rt (faq_prompt text) 512 of
             None \<Rightarrow> []
           | Some content \<Rightarrow>
               (case json_loads rt content of
                  Some (JArr xs) \<Rightarrow> (if list_all is_dict xs then filter llm_faq_ok xs else [])
                | _ \<Rightarrow> [])))"

section \<open>The resolver\<close>

definition get_faqs :: "runtime \<Rightarrow> scraper \<Rightarrow> json list" where
  "get_faqs rt sc =
     (case locate_faq rt sc of
        None \<Rightarrow> []
      | Some url \<Rightarrow>
          (case get_200 rt url of
             None \<Rightarrow> []
           | Some body \<Rightarrow>
               (let soup = parse_html rt body;
                    uniq = unique_faqs {} (faq_heuristics soup) in
                if uniq \<noteq> [] then map faq_json uniq
                else (case extract_faqs_with_llm rt (get_text ''\<newline>'' True soup) of
                        Inl e \<Rightarrow> []
                      | Inr fs \<Rightarrow> fs))))"

definition faq_nonempty :: "string \<times> string \<Rightarrow> bool" where
  \<comment> \<open>\<open>faq['question'] and faq['answer']\<close> on a heuristic pair\<close>
  "faq_nonempty qa \<longleftrightarrow> fst qa \<noteq> [] \<and> snd qa \<noteq> []"

section \<open>Example pages\<close>

definition details_elem :: "string \<times> string \<Rightarrow> node" where
  \<comment> \<open>\<open><details><summary>q</summary>a</details>\<close>\<close>
  "details_elem qa = Elem ''details'' [] [Elem ''summary'' [] [Text (fst qa)], Text (snd qa)]"

definition demo_web :: "string \<Rightarrow> response option" where
  \<comment> \<open>two storefronts: \<open>a.test\<close> links a catalogue page whose menu mentions the
    FAQ, \<open>b.test\<close> links only its FAQ page\<close>
  "demo_web u =
     (if u = ''https://a.test'' then Some \<lparr>status_code = 200, resp_text = ''home-a''\<rparr>
      else if u = ''https://b.test'' then Some \<lparr>status_code = 200, resp_text = ''home-b''\<rparr>
      else if u = ''https://a.test/pages/faq'' \<or> u = ''https://b.test/pages/faq''
        then Some \<lparr>status_code = 200, resp_text = ''FAQ''\<rparr>
      else if u = ''https://a.test/collections/all''
        then Some \<lparr>status_code = 200, resp_text = ''Menu: FAQ''\<rparr>
      else None)"

definition demo_parse :: "string \<Rightarrow> doc" where
  "demo_parse t =
     (if t = ''home-a'' then
        [Elem ''a'' [(''href'', ''/collections/all'')] [Text ''Shop''],
         Elem ''a'' [(''href'', ''/pages/faq'')] [Text ''FAQ'']]
      else if t = ''home-b'' then [Elem ''a'' [(''href'', ''/pages/faq'')] [Text ''FAQ'']]
      else if t = ''FAQ'' then [details_elem (''Q1'', ''A1'')]
      else [])"

definition demo_rt :: runtime where
  "demo_rt = \<lparr>http_get = demo_web, parse_html = demo_parse, json_loads = (\<lambda>_. None),
     phone_numbers = (\<lambda>_. []), llm_complete = (\<lambda>_ _. None), api_key = None, set_order = id\<rparr>"

section \<open>Deduplication\<close>

lemma unique_faqs_nub_by:
  "unique_faqs seen fs = nub_by id (filter (\<lambda>x. x \<notin> seen \<and> faq_nonempty x) fs)"
proof (induction fs arbitrary: seen)
  case Nil
  then show ?case by simp
next
  case (Cons x fs)
  obtain q a where x: "x = (q, a)" by fastforce
  have flt: "filter (\<lambda>y. y \<noteq> x) (filter (\<lambda>y. y \<notin> seen \<and> faq_nonempty y) fs) =
             filter (\<lambda>y. y \<notin> insert x seen \<and> faq_nonempty y) fs"
    by (simp add: filter_filter conj_ac)
  show ?case
    using Cons.IH flt by (auto simp: x faq_nonempty_def)
qed

text \<open>
  C1. The deduplication loop of \<open>get_faqs\<close> (lines 209-215) computes the reference
  specification: drop the pairs with an empty question or answer, then keep the first
  occurrence of every pair, in order.
\<close>

theorem unique_faqs_spec: "unique_faqs {} fs = nub_by id (filter faq_nonempty fs)"
  by (simp add: unique_faqs_nub_by)

text \<open>Deduplication is idempotent: running it on its own output changes nothing.\<close>

theorem unique_faqs_idem: "unique_faqs {} (unique_faqs {} fs) = unique_faqs {} fs"
proof -
  have ne: "\<forall>x \<in> set (nub_by id (filter faq_nonempty fs)). faq_nonempty x"
    using set_nub_by by fastforce
  have "filter faq_nonempty (nub_by id (filter faq_nonempty fs)) = nub_by id (filter faq_nonempty fs)"
    using ne by (simp add: filter_id_conv)
  then show ?thesis by (simp add: unique_faqs_nub_by)
qed

lemma unique_faqs_props:
  "distinct (unique_faqs {} fs) \<and> set (unique_faqs {} fs) = {x \<in> set fs. faq_nonempty x} \<and>
   subseq (unique_faqs {} fs) fs"
proof (intro conjI)
  have e: "unique_faqs {} fs = nub_by id (filter faq_nonempty fs)"
    using unique_faqs_nub_by [of "{}" fs] by simp
  show "distinct (unique_faqs {} fs)"
    using distinct_nub_by [of id] by (simp add: e)
  show "set (unique_faqs {} fs) = {x \<in> set fs. faq_nonempty x}"
    using keys_nub_by [of id "filter faq_nonempty fs"] by (simp add: e)
  have "subseq (nub_by id (filter faq_nonempty fs)) (filter faq_nonempty fs)"
    by (rule subseq_nub_by)
  then show "subseq (unique_faqs {} fs) fs"
    unfolding e using subseq_filter_left subseq_order.order_trans by blast
qed

section \<open>Locating the page\<close>

lemma probe_faq_paths_find:
  "fst (probe_faq_paths rt b S ps) = find (faq_page_matches rt) (map (\<lambda>p. b @ p) ps)"
  by (induction ps arbitrary: S) (simp_all add: Let_def)

lemma scan_candidate_links_find: "scan_candidate_links rt ls = find (faq_page_matches rt) ls"
  by (induction ls) simp_all

lemma locate_faq_find:
  "locate_faq rt sc =
     (case find (faq_page_matches rt)
             (faq_candidate_links rt sc (snd (probe_faq_paths rt (base_url sc) {} faq_paths))) of
        Some l \<Rightarrow> Some l
      | None \<Rightarrow> find (faq_page_matches rt) (map (\<lambda>p. base_url sc @ p) faq_paths))"
proof -
  obtain found checked where p: "probe_faq_paths rt (base_url sc) {} faq_paths = (found, checked)"
    by fastforce
  then have "found = find (faq_page_matches rt) (map (\<lambda>p. base_url sc @ p) faq_paths)"
    using probe_faq_paths_find [of rt "base_url sc" "{}" faq_paths] by simp
  then show ?thesis
    by (simp add: locate_faq_def p scan_candidate_links_find split: option.split)
qed

section \<open>The heuristics on a page of \<open><details>\<close> elements\<close>

lemma details_tag_text:
  "q \<noteq> [] \<Longrightarrow> py_strip q = q \<Longrightarrow> get_text [] True [Text q] = q"
  by (simp add: get_text_def)

lemma details_body_text:
  "q \<noteq> [] \<Longrightarrow> py_strip q = q \<Longrightarrow> a \<noteq> [] \<Longrightarrow> py_strip a = a \<Longrightarrow>
   get_text ''\<newline>'' True [Elem ''summary'' [] [Text q], Text a] = q @ CHR 0x0A # a"
  by (simp add: get_text_def)

lemma faq_details_clean:
  assumes "q \<noteq> []" "py_strip q = q" "a \<noteq> []" "py_strip a = a" "\<not> py_in q (CHR 0x0A # a)"
  shows "faq_details [details_elem (q, a)] = [(q, a)]"
proof -
  have "py_replace q [] (q @ CHR 0x0A # a) = CHR 0x0A # a"
    using assms by (simp add: py_replace_delete_prefix)
  then have "py_strip (py_replace q [] (q @ CHR 0x0A # a)) = a"
    using assms by (simp add: py_strip_space_Cons)
  with assms show ?thesis
    by (simp add: faq_details_def details_elem_def find_tag_def details_tag_text details_body_text)
qed

lemma faq_details_append: "faq_details (xs @ ys) = faq_details xs @ faq_details ys"
  by (simp add: faq_details_def)

lemma details_only_other_heuristics:
  "faq_class_items (map details_elem ds) = [] \<and> faq_headings (map details_elem ds) = [] \<and>
   faq_list_items (map details_elem ds) = []"
  by (induction ds)
     (simp_all add: details_elem_def faq_class_items_def faq_headings_def faq_list_items_def
        find_all_class_def has_class_def)

text \<open>
  C3. On a page made only of \<open><details><summary>q</summary>a</details>\<close> elements, the
  heuristic chain yields exactly one pair per element, in page order, with the summary
  text removed from the answer, provided the texts are already stripped and the
  question does not occur again in the answer.
\<close>

theorem faq_details_only_page:
  assumes "\<forall>(q, a) \<in> set ds. q \<noteq> [] \<and> py_strip q = q \<and> a \<noteq> [] \<and> py_strip a = a \<and>
                               \<not> py_in q (CHR 0x0A # a)"
  shows "faq_heuristics (map details_elem ds) = ds"
proof -
  have "faq_details (map details_elem ds) = ds"
    using assms
  proof (induction ds)
    case Nil
    then show ?case by (simp add: faq_details_def)
  next
    case (Cons x ds)
    obtain q a where x: "x = (q, a)" by fastforce
    from Cons.prems x have "faq_details [details_elem (q, a)] = [(q, a)]"
      by (intro faq_details_clean) auto
    moreover have "map details_elem (x # ds) = [details_elem (q, a)] @ map details_elem ds"
      by (simp add: x)
    ultimately show ?case
      using Cons x by (simp only: faq_details_append) simp
  qed
  then show ?thesis
    using details_only_other_heuristics by (simp add: faq_heuristics_def)
qed

theorem faq_details_only_page_witness:
  "faq_heuristics (map details_elem [(''Returns?'', ''Within 30 days''), (''Shipping?'', ''Free'')]) =
     [(''Returns?'', ''Within 30 days''), (''Shipping?'', ''Free'')]"
  by (rule faq_details_only_page) (simp add: py_strip_def is_space_def)

section \<open>Results of the resolver\<close>

lemma extract_faqs_ok: "extract_faqs_with_llm rt t = Inr fs \<Longrightarrow> \<forall>j \<in> set fs. llm_faq_ok j"
  by (auto simp: extract_faqs_with_llm_def split: sum.splits option.splits json.splits if_splits)

text \<open>
  C4. Every entry \<open>get_faqs\<close> returns has a non-empty question and a non-empty answer:
  either it is a heuristic pair, both fields non-empty strings, or it is a dictionary
  from the language model whose \<open>question\<close> and \<open>answer\<close> are both truthy.
\<close>

theorem get_faqs_entries:
  "\<forall>j \<in> set (get_faqs rt sc). (\<exists>qa. j = faq_json qa \<and> faq_nonempty qa) \<or> llm_faq_ok j"
proof
  fix j
  assume j: "j \<in> set (get_faqs rt sc)"
  show "(\<exists>qa. j = faq_json qa \<and> faq_nonempty qa) \<or> llm_faq_ok j"
  proof (cases "locate_faq rt sc")
    case None
    with j show ?thesis by (simp add: get_faqs_def)
  next
    case (Some url)
    note loc = this
    show ?thesis
    proof (cases "get_200 rt url")
      case None
      with j loc show ?thesis by (simp add: get_faqs_def)
    next
      case (Some body)
      define uniq where "uniq = unique_faqs {} (faq_heuristics (parse_html rt body))"
      show ?thesis
      proof (cases "uniq = []")
        case False
        with j loc Some have "j \<in> set (map faq_json uniq)"
          by (simp add: get_faqs_def uniq_def Let_def)
        then obtain qa where qa: "qa \<in> set uniq" "j = faq_json qa" by auto
        have "faq_nonempty qa"
          using qa(1) unique_faqs_nub_by [of "{}"] set_nub_by by (fastforce simp: uniq_def)
        with qa show ?thesis by blast
      next
        case True
        with j loc Some have "j \<in> set (case extract_faqs_with_llm rt (get_text ''\<newline>'' True (parse_html rt body)) of
                                     Inl e \<Rightarrow> [] | Inr fs \<Rightarrow> fs)"
          by (simp add: get_faqs_def uniq_def Let_def)
        then have "llm_faq_ok j"
          by (auto split: sum.splits dest: extract_faqs_ok [OF sym])
        then show ?thesis ..
      qed
    qed
  qed
qed

theorem get_faqs_entries_witness:
  "get_faqs demo_rt (scraper_init ''https://b.test'') = [faq_json (''Q1'', ''A1'')] \<and>
   ((\<exists>qa. faq_json (''Q1'', ''A1'') = faq_json qa \<and> faq_nonempty qa) \<or> llm_faq_ok (faq_json (''Q1'', ''A1'')))"
proof -
  have e: "get_faqs demo_rt (scraper_init ''https://b.test'') = [faq_json (''Q1'', ''A1'')]"
    by (simp add: get_faqs_def locate_faq_def demo_rt_def demo_web_def demo_parse_def faq_paths_def
        faq_page_matches_def py_lower_def lower_char_def is_upper_def Let_def scraper_init_def
        py_rstrip_def faq_candidate_links_def fetch_homepage_html_def anchors_def resolve_href_def
        py_startswith_def get_200_def faq_heuristics_def faq_class_items_def faq_details_def
        faq_headings_def faq_list_items_def find_all_class_def has_class_def details_elem_def
        find_tag_def get_text_def py_strip_def is_space_def py_replace_def)
  show ?thesis
    using get_faqs_entries [of demo_rt "scraper_init ''https://b.test''"] by (simp add: e)
qed

lemma probe_faq_paths_checked:
  "probe_faq_paths rt base checked ps =
     (find (faq_page_matches rt) (map ((@) base) ps),
      checked \<union> set (take (Suc (length (takeWhile (\<lambda>u. \<not> faq_page_matches rt u) (map ((@) base) ps))))
                        (map ((@) base) ps)))"
  by (induction ps arbitrary: checked) (auto simp: Let_def)

text \<open>
  C5. The location phase takes the first homepage link, not probed already, whose
  page matches; the probed paths count only when no such link exists. Both loops are
  \<open>find\<close> over their candidates, and the probe's \<open>checked_urls\<close> are the paths up to
  its first match. So the link scan overrides a matching probe: a storefront whose
  \<open>/pages/faq\<close> is its FAQ page still gets the first homepage link to any page that
  mentions "faq" or "question" (a menu on every page does).
\<close>

theorem faq_locate_links_first:
  "locate_faq rt sc =
     (let probed = map (\<lambda>p. base_url sc @ p) faq_paths;
          checked = set (take (Suc (length (takeWhile (\<lambda>u. \<not> faq_page_matches rt u) probed))) probed)
      in case find (faq_page_matches rt) (faq_candidate_links rt sc checked) of
           Some l \<Rightarrow> Some l
         | None \<Rightarrow> find (faq_page_matches rt) probed)"
  by (simp add: locate_faq_def probe_faq_paths_checked scan_candidate_links_find Let_def)

text \<open>When no FAQ page is located, \<open>get_faqs\<close> returns the empty list.\<close>

theorem get_faqs_no_page: "locate_faq rt sc = None \<Longrightarrow> get_faqs rt sc = []"
  by (simp add: get_faqs_def)

theorem get_faqs_no_page_witness:
  "locate_faq demo_rt (scraper_init ''https://c.test'') = None \<and> get_faqs demo_rt (scraper_init ''https://c.test'') = []"
proof -
  have n: "locate_faq demo_rt (scraper_init ''https://c.test'') = None"
    by (simp add: locate_faq_def demo_rt_def demo_web_def faq_paths_def
        faq_page_matches_def Let_def scraper_init_def py_rstrip_def faq_candidate_links_def
        fetch_homepage_html_def)
  show ?thesis using get_faqs_no_page [OF n] n by simp
qed

end
