(* ===== verification/Policy.thy ===== *)
theory Policy
  imports Web
begin

text \<open>
  \<open>ShopifyScraper.get_policy_text\<close> and its two callers
  \<open>get_privacy_policy\<close>/\<open>get_refund_policy\<close> (\<open>src/app/scraper.py\<close>, lines 63-115).
  Three tiers, each returning on its first success: the well-known policy paths, then
  the homepage links whose lower-cased \<open>href\<close> contains a keyword (both accept the
  main-content text when it is longer than 100 characters), then, for refunds only,
  the homepage sections, divs and paragraphs whose text mentions a refund keyword
  (accepted above 50 characters). The result is \<open>None\<close> when every tier fails.
\<close>

section \<open>The three tiers\<close>

definition policy_paths :: "string \<Rightarrow> string list" where
  \<comment> \<open>\<open>policy_paths.get(policy_type, [])\<close>\<close>
  "policy_paths t =
     (if t = ''privacy'' then [''/policies/privacy-policy'', ''/pages/privacy-policy'', ''/privacy-policy'']
      else if t = ''refund'' then
        [''/policies/refund-policy'', ''/pages/refund-policy'', ''/refund-policy'',
         ''/policies/return-policy'', ''/pages/return-policy'', ''/return-policy'']
      else [])"

definition policy_keywords :: "string \<Rightarrow> string list" where
  "policy_keywords t = (if t = ''refund'' then [''refund'', ''return'', ''exchange''] else [t])"

definition accept_page :: "runtime \<Rightarrow> string \<Rightarrow> string option" where
  \<comment> \<open>fetch, take the main-content text, keep it when \<open>text and len(text) > 100\<close>\<close>
  "accept_page rt url =
     (case get_200 rt url of
        None \<Rightarrow> None
      | Some body \<Rightarrow>
          (let text = main_text (parse_html rt body) in
           if text \<noteq> [] \<and> 100 < length text then Some text else None))"

fun policy_probe :: "runtime \<Rightarrow> string \<Rightarrow> string list \<Rightarrow> string option" where
  \<comment> \<open>tier 1: the well-known paths in order\<close>
  "policy_probe rt base [] = None"
| "policy_probe rt base (p # ps) =
     (case accept_page rt (base @ p) of
        Some text \<Rightarrow> Some text
      | None \<Rightarrow> policy_probe rt base ps)"

fun policy_links :: "runtime \<Rightarrow> scraper \<Rightarrow> string list \<Rightarrow> (node \<times> string) list \<Rightarrow> string option" where
  \<comment> \<open>tier 2: homepage anchors; the \<open>href\<close> is lower-cased before it is resolved and
    fetched\<close>
  "policy_links rt sc kws [] = None"
| "policy_links rt sc kws ((a, h) # as) =
     (let href = py_lower h in
      if list_ex (\<lambda>kw. py_in kw href) kws then
        (case accept_page rt (resolve_href sc href) of
           Some text \<Rightarrow> Some text
         | None \<Rightarrow> policy_links rt sc kws as)
      else policy_links rt sc kws as)"

fun snippet_for :: "string \<Rightarrow> node list \<Rightarrow> string option" where
  \<comment> \<open>tier 3, inner loop over \<open>soup.find_all(['section', 'div', 'p'])\<close> for one keyword\<close>
  "snippet_for kw [] = None"
| "snippet_for kw (sec # secs) =
     (let raw = get_text [] False (children sec) in
      if raw \<noteq> [] \<and> py_in kw (py_lower raw) then
        (let text = get_text ''\<newline>'' True (children sec) in
         if text \<noteq> [] \<and> 50 < length text then Some text else snippet_for kw secs)
      else snippet_for kw secs)"

fun snippet_scan :: "string list \<Rightarrow> node list \<Rightarrow> string option" where
  \<comment> \<open>tier 3, outer loop over the keywords\<close>
  "snippet_scan [] secs = None"
| "snippet_scan (kw # kws) secs =
     (case snippet_for kw secs of
        Some text \<Rightarrow> Some text
      | None \<Rightarrow> snippet_scan kws secs)"

definition get_policy_text :: "runtime \<Rightarrow> scraper \<Rightarrow> string \<Rightarrow> string option" where
  "get_policy_text rt sc t =
     (case policy_probe rt (base_url sc) (policy_paths t) of
        Some text \<Rightarrow> Some text
      | None \<Rightarrow>
          (let html = fetch_homepage_html rt sc in
           if html = [] then None
           else
             (let soup = parse_html rt html in
              case policy_links rt sc (policy_keywords t) (anchors soup) of
                Some text \<Rightarrow> Some text
              | None \<Rightarrow>
                  if t = ''refund''
                  then snippet_scan [''refund'', ''return'', ''exchange''] (find_all [''section'', ''div'', ''p''] soup)
                  else None)))"

definition get_privacy_policy :: "runtime \<Rightarrow> scraper \<Rightarrow> string option" where
  "get_privacy_policy rt sc = get_policy_text rt sc ''privacy''"

definition get_refund_policy :: "runtime \<Rightarrow> scraper \<Rightarrow> string option" where
  "get_refund_policy rt sc = get_policy_text rt sc ''refund''"

section \<open>Example storefront\<close>

definition policy_body :: string where
  "policy_body =
     ''Refunds are accepted within thirty days of delivery for unworn items in their '' @
     ''original packaging; contact support to start a return or an exchange.''"

definition policy_web :: "string \<Rightarrow> response option" where
  "policy_web u =
     (if u = ''https://p.test/policies/refund-policy'' \<or> u = ''https://p.test/policies/privacy-policy''
      then Some \<lparr>status_code = 200, resp_text = ''policy''\<rparr>
      else if u = ''https://q.test'' then Some \<lparr>status_code = 200, resp_text = ''home-q''\<rparr>
      else None)"

definition policy_rt :: runtime where
  "policy_rt = \<lparr>http_get = policy_web,
     parse_html = (\<lambda>t. if t = ''policy'' then [Elem ''main'' [] [Text policy_body]]
                       else if t = ''home-q'' then [Elem ''a'' [(''href'', ''/pages/about'')] [Text ''About'']]
                       else []),
     json_loads = (\<lambda>_. None), phone_numbers = (\<lambda>_. []), llm_complete = (\<lambda>_ _. None),
     api_key = None, set_order = id\<rparr>"

section \<open>Lemmas\<close>

lemma accept_page_len: "accept_page rt url = Some text \<Longrightarrow> 100 < length text"
  by (auto simp: accept_page_def Let_def split: option.splits if_splits)

lemma policy_probe_len: "policy_probe rt b ps = Some text \<Longrightarrow> 100 < length text"
  by (induction ps) (auto split: option.splits dest: accept_page_len)

lemma policy_links_len: "policy_links rt sc kws as = Some text \<Longrightarrow> 100 < length text"
  by (induction rt sc kws as rule: policy_links.induct)
     (auto simp: Let_def split: option.splits if_splits dest: accept_page_len)

lemma snippet_for_len: "snippet_for kw secs = Some text \<Longrightarrow> 50 < length text"
  by (induction secs) (auto simp: Let_def split: if_splits)

lemma snippet_scan_len: "snippet_scan kws secs = Some text \<Longrightarrow> 50 < length text"
  by (induction kws) (auto split: option.splits dest: snippet_for_len)

text \<open>
  C7. A policy text is never empty: whatever tier produced it, it is longer than 50
  characters, and longer than 100 for every kind but \<open>refund\<close> (only the refund
  snippet tier accepts shorter texts).
\<close>

theorem get_policy_text_quality:
  "get_policy_text rt sc t = Some text \<Longrightarrow> 50 < length text \<and> (t \<noteq> ''refund'' \<longrightarrow> 100 < length text)"
  by (auto simp: get_policy_text_def Let_def split: option.splits if_splits
           dest: policy_probe_len policy_links_len snippet_for_len)

lemma policy_rt_eval:
  "get_policy_text policy_rt (scraper_init ''https://p.test'') ''privacy'' = Some policy_body"
  by (simp add: get_policy_text_def policy_rt_def policy_web_def policy_paths_def accept_page_def
      get_200_def main_text_def main_content_def find_tag_def get_text_def scraper_init_def py_rstrip_def
      policy_body_def py_strip_def is_space_def)

theorem get_policy_text_quality_witness:
  "get_policy_text policy_rt (scraper_init ''https://p.test'') ''privacy'' = Some policy_body \<and>
   50 < length policy_body \<and> 100 < length policy_body"
  using get_policy_text_quality [OF policy_rt_eval] policy_rt_eval by simp

text \<open>
  C8. When \<open>/policies/refund-policy\<close> answers 200 and its main content has more than
  100 characters, the refund policy is that text, whatever the rest of the site
  serves: no further path or tier is consulted.
\<close>

theorem refund_first_tier:
  assumes "get_200 rt (base_url sc @ ''/policies/refund-policy'') = Some body"
    and "main_text (parse_html rt body) = text" and "100 < length text"
  shows "get_refund_policy rt sc = Some text"
proof -
  from assms(3) have "text \<noteq> []" by auto
  with assms show ?thesis
    by (simp add: get_refund_policy_def get_policy_text_def policy_paths_def accept_page_def)
qed

theorem refund_first_tier_witness:
  "get_refund_policy policy_rt (scraper_init ''https://p.test'') = Some policy_body"
proof (rule refund_first_tier)
  show "get_200 policy_rt (base_url (scraper_init ''https://p.test'') @ ''/policies/refund-policy'') = Some ''policy''"
    by (simp add: policy_rt_def policy_web_def get_200_def scraper_init_def py_rstrip_def)
  show "main_text (parse_html policy_rt ''policy'') = policy_body"
    by (simp add: policy_rt_def main_text_def main_content_def find_tag_def get_text_def
        policy_body_def py_strip_def is_space_def)
  show "100 < length policy_body" by (simp add: policy_body_def)
qed

lemma policy_links_none:
  "\<forall>(a, h) \<in> set as. \<not> list_ex (\<lambda>kw. py_in kw (py_lower h)) kws \<Longrightarrow> policy_links rt sc kws as = None"
  by (induction rt sc kws as rule: policy_links.induct) (auto simp: Let_def)

text \<open>
  A site with no privacy page among the well-known paths and no homepage link
  mentioning "privacy" has no privacy policy: the result is absent, not an empty
  string.
\<close>

theorem privacy_absent:
  assumes "policy_probe rt (base_url sc) (policy_paths ''privacy'') = None"
    and "\<forall>(a, h) \<in> set (anchors (parse_html rt (fetch_homepage_html rt sc))). \<not> py_in ''privacy'' (py_lower h)"
  shows "get_privacy_policy rt sc = None"
proof -
  have "policy_links rt sc [''privacy''] (anchors (parse_html rt (fetch_homepage_html rt sc))) = None"
    using assms(2) by (intro policy_links_none) auto
  with assms(1) show ?thesis
    by (simp add: get_privacy_policy_def get_policy_text_def policy_keywords_def Let_def)
qed

theorem privacy_absent_witness:
  "get_privacy_policy policy_rt (scraper_init ''https://q.test'') = None"
proof (rule privacy_absent)
  show "policy_probe policy_rt (base_url (scraper_init ''https://q.test'')) (policy_paths ''privacy'') = None"
    by (simp add: policy_rt_def policy_web_def policy_paths_def accept_page_def get_200_def
        scraper_init_def py_rstrip_def)
  show "\<forall>(a, h) \<in> set (anchors (parse_html policy_rt (fetch_homepage_html policy_rt (scraper_init ''https://q.test'')))).
          \<not> py_in ''privacy'' (py_lower h)"
    by (simp add: policy_rt_def policy_web_def fetch_homepage_html_def scraper_init_def py_rstrip_def
        anchors_def py_lower_def lower_char_def is_upper_def)
qed

lemma accept_page_SomeD:
  "accept_page rt url = Some text \<Longrightarrow> (\<exists>body. text = main_text (parse_html rt body)) \<and> 100 < length text"
  by (auto simp: accept_page_def Let_def split: option.splits if_splits)

end
