(* ===== verification/Contact.thy ===== *)
theory Contact
  imports Web
begin

text \<open>
  \<open>ShopifyScraper.get_contact_details\<close> and \<open>extract_contact_with_llm\<close>
  (\<open>src/app/scraper.py\<close>, lines 248-324). The email pattern
  \<open>[a-zA-Z0-9_.+-]+@[a-zA-Z0-9-]+\.[a-zA-Z0-9-.]+\<close> is modelled as a scanner with
  \<open>re.findall\<close>'s semantics (leftmost match, resume after it); the local check
  \<open>is_real_email\<close> keeps its \<open>IndexError\<close> path; the two Python sets are
  insertion-ordered lists read back through the runtime's \<open>set_order\<close>; the
  language-model fallback keeps the exceptions that escape the method: the client
  built without a key, and slicing a reply field that is not a list or a string.
\<close>

section \<open>The email pattern\<close>

definition local_char :: "char \<Rightarrow> bool" where
  \<comment> \<open>\<open>[a-zA-Z0-9_.+-]\<close>\<close>
  "local_char c \<longleftrightarrow> is_ascii_alnum c \<or> c \<in> set ''_.+-''"

definition label_char :: "char \<Rightarrow> bool" where
  \<comment> \<open>\<open>[a-zA-Z0-9-]\<close>\<close>
  "label_char c \<longleftrightarrow> is_ascii_alnum c \<or> c = CHR ''-''"

definition tail_char :: "char \<Rightarrow> bool" where
  \<comment> \<open>\<open>[a-zA-Z0-9-.]\<close>\<close>
  "tail_char c \<longleftrightarrow> is_ascii_alnum c \<or> c = CHR ''-'' \<or> c = CHR ''.''"

definition match_email :: "string \<Rightarrow> (string \<times> string) option" where
  \<comment> \<open>the match starting at the head of the string, with the text after it; the
    classes before \<open>@\<close> and \<open>.\<close> exclude those characters, so the greedy runs are
    the only candidates and no backtracking is needed\<close>
  "match_email s =
     (let l = takeWhile local_char s in
      if l = [] then None else
      (case dropWhile local_char s of
         [] \<Rightarrow> None
       | c # r1 \<Rightarrow>
           if c \<noteq> CHR ''@'' then None else
           (let d1 = takeWhile label_char r1 in
            if d1 = [] then None else
            (case dropWhile label_char r1 of
               [] \<Rightarrow> None
             | c' # r3 \<Rightarrow>
                 if c' \<noteq> CHR ''.'' then None else
                 (let d2 = takeWhile tail_char r3 in
                  if d2 = [] then None
                  else Some (l @ CHR ''@'' # d1 @ CHR ''.'' # d2, dropWhile tail_char r3))))))"

function email_findall :: "string \<Rightarrow> string list" where
  \<comment> \<open>\<open>email_pattern.findall(text)\<close>\<close>
  "email_findall [] = []"
| "email_findall (c # cs) =
     (case match_email (c # cs) of
        Some (m, rest) \<Rightarrow> m # email_findall rest
      | None \<Rightarrow> email_findall cs)"
  by pat_completeness auto
termination
proof (relation "measure length", goal_cases)
  case 1
  show ?case by simp
next
  case (3 c cs x m rest)
  then have a: "match_email (c # cs) = Some (m, rest)" by simp
  obtain c1 r1 where h1: "dropWhile local_char (c # cs) = c1 # r1"
    using a by (auto simp: match_email_def Let_def split: list.splits if_splits)
  obtain c2 r3 where h2: "dropWhile label_char r1 = c2 # r3"
    using a h1 by (auto simp: match_email_def Let_def split: list.splits if_splits)
  have "rest = dropWhile tail_char r3"
    using a h1 h2 by (auto simp: match_email_def Let_def split: if_splits)
  then have "length rest \<le> length r3" by (simp add: length_dropWhile_le)
  also have "length r3 < length (dropWhile label_char r1)" using h2 by simp
  also have "\<dots> \<le> length r1" by (rule length_dropWhile_le)
  also have "length r1 < length (dropWhile local_char (c # cs))" using h1 by simp
  also have "\<dots> \<le> length (c # cs)" by (rule length_dropWhile_le)
  finally show ?case by simp
next
  case (2 c cs)
  then show ?case by simp
qed

definition email_lang :: "string \<Rightarrow> bool" where
  \<comment> \<open>the strings the pattern of line 277 matches: \<open>[a-zA-Z0-9_.+-]+@[a-zA-Z0-9-]+\.[a-zA-Z0-9-.]+\<close>\<close>
  "email_lang m \<longleftrightarrow>
     (\<exists>l d1 d2. m = l @ CHR ''@'' # d1 @ CHR ''.'' # d2 \<and> l \<noteq> [] \<and> list_all local_char l \<and>
        d1 \<noteq> [] \<and> list_all label_char d1 \<and> d2 \<noteq> [] \<and> list_all tail_char d2)"

definition is_real_email :: "string \<Rightarrow> py_exc + bool" where
  \<comment> \<open>\<open>email.split('@')[1].split('.')[0]\<close> must hold no digit and the address must
    not end with one of the four listed suffixes; \<open>[1]\<close> raises without an \<open>@\<close>\<close>
  "is_real_email email =
     (case py_index (split_char CHR ''@'' email) 1 of
        Inl e \<Rightarrow> Inl e
      | Inr domain \<Rightarrow>
          if list_ex py_isdigit (hd (split_char CHR ''.'' domain)) then Inr False
          else if list_ex (\<lambda>suffix. py_endswith (CHR ''@'' # suffix) email)
                     [''6.8.6'', ''1.8.2'', ''2.0.1'', ''0.2.6''] then Inr False
          else Inr True)"

fun real_emails :: "string list \<Rightarrow> py_exc + string list" where
  \<comment> \<open>\<open>[e for e in ... if is_real_email(e)]\<close>: the first exception escapes\<close>
  "real_emails [] = Inr []"
| "real_emails (e # es) =
     (case is_real_email e of
        Inl x \<Rightarrow> Inl x
      | Inr b \<Rightarrow> (case real_emails es of Inl x \<Rightarrow> Inl x | Inr r \<Rightarrow> Inr (if b then e # r else r)))"

section \<open>Sets, text and the contact page\<close>

fun set_update :: "string list \<Rightarrow> string list \<Rightarrow> string list" where
  \<comment> \<open>\<open>s.update(xs)\<close> on a set kept in insertion order\<close>
  "set_update s [] = s"
| "set_update s (x # xs) = set_update (if x \<in> set s then s else s @ [x]) xs"

definition stripped_text :: "doc \<Rightarrow> string" where
  \<comment> \<open>decompose script, style, noscript, svg, meta, head, title and link, then
    \<open>soup.get_text(separator='\n', strip=True)\<close>\<close>
  "stripped_text soup =
     get_text ''\<newline>'' True
       (decompose [''script'', ''style'', ''noscript'', ''svg'', ''meta'', ''head'', ''title'', ''link''] soup)"

definition contact_link :: "scraper \<Rightarrow> doc \<Rightarrow> string option" where
  \<comment> \<open>the first anchor whose lower-cased \<open>href\<close> mentions contact, support or
    customer-service, resolved from the lower-cased \<open>href\<close>\<close>
  "contact_link sc soup =
     (case find (\<lambda>(a, h). list_ex (\<lambda>x. py_in x (py_lower h)) [''contact'', ''support'', ''customer-service''])
                (anchors (decompose [''script'', ''style'', ''noscript'', ''svg'', ''meta'', ''head'', ''title'', ''link''] soup)) of
        None \<Rightarrow> None
      | Some (a, h) \<Rightarrow> Some (resolve_href sc (py_lower h)))"

record contact_details =
  emails :: json
  phones :: json
  contact_page :: "string option"

section \<open>The language-model fallback\<close>

definition contact_prompt :: "string \<Rightarrow> string" where
  "contact_prompt text =
     ''Extract all email addresses and phone numbers from the following text. '' @
     ''Return them as a JSON object with '' @ [CHR 0x27] @ ''emails'' @ [CHR 0x27] @ '' and '' @
     [CHR 0x27] @ ''phones'' @ [CHR 0x27] @ '' fields. '' @ ''Text:\<newline>'' @ text"

definition extract_contact_with_llm :: "runtime \<Rightarrow> string \<Rightarrow> py_exc + json \<times> json" where
  \<comment> \<open>the client is built outside the \<open>try\<close>; inside it every failure gives two
    empty lists\<close>
  "extract_contact_with_llm rt text =
     (case openai_client rt of
        Inl e \<Rightarrow> Inl e
      | Inr _ \<Rightarrow> Inr
          (case llm_complete rt (contact_prompt text) 256 of
             None \<Rightarrow> (JArr [], JArr [])
           | Some content \<Rightarrow>
               (case json_loads rt content of
                  Some (JObj kvs) \<Rightarrow>
                    ((case dict_get kvs ''emails'' of None \<Rightarrow> JArr [] | Some v \<Rightarrow> v),
                     (case dict_get kvs ''phones'' of None \<Rightarrow> JArr [] | Some v \<Rightarrow> v))
                | _ \<Rightarrow> (JArr [], JArr []))))"

fun slice5 :: "json \<Rightarrow> py_exc + json" where
  \<comment> \<open>\<open>v[:5]\<close>: lists and strings are cut, everything else raises \<open>TypeError\<close>\<close>
  "slice5 (JArr xs) = Inr (JArr (take 5 xs))"
| "slice5 (JStr s) = Inr (JStr (take 5 s))"
| "slice5 v = Inl TypeError"

section \<open>The resolver\<close>

definition scrape_page ::
  "runtime \<Rightarrow> doc \<Rightarrow> string list \<Rightarrow> string list \<Rightarrow> string \<times> (py_exc + string list \<times> string list)" where
  \<comment> \<open>the text of one page, and its emails and phones added to the two sets (the
    emails first); the text is assigned before \<open>emails.update\<close> can raise\<close>
  "scrape_page rt soup es ps =
     (let text = stripped_text soup in
      (text,
       case real_emails (email_findall text) of
         Inl e \<Rightarrow> Inl e
       | Inr new \<Rightarrow> Inr (set_update es new, set_update ps (phone_numbers rt text))))"

definition contact_page_scrape ::
  "runtime \<Rightarrow> string option \<Rightarrow> string list \<Rightarrow> string list \<Rightarrow> string \<times> string list \<times> string list" where
  \<comment> \<open>the \<open>try\<close> block on the contact page: any failure leaves the sets as they were\<close>
  "contact_page_scrape rt page es ps =
     (case page of
        None \<Rightarrow> ([], es, ps)
      | Some url \<Rightarrow>
          (case get_200 rt url of
             None \<Rightarrow> ([], es, ps)
           | Some body \<Rightarrow>
               (case scrape_page rt (parse_html rt body) es ps of
                  (t, Inl e) \<Rightarrow> (t, es, ps)
                | (t, Inr (es', ps')) \<Rightarrow> (t, es', ps'))))"

definition contact_fallback ::
  "runtime \<Rightarrow> string \<Rightarrow> string option \<Rightarrow> py_exc + contact_details" where
  \<comment> \<open>no email and no phone: ask the model and slice its two fields\<close>
  "contact_fallback rt text page =
     (case extract_contact_with_llm rt text of
        Inl e \<Rightarrow> Inl e
      | Inr (je, jp) \<Rightarrow>
          (case slice5 je of
             Inl e \<Rightarrow> Inl e
           | Inr je' \<Rightarrow>
               (case slice5 jp of
                  Inl e \<Rightarrow> Inl e
                | Inr jp' \<Rightarrow> Inr \<lparr>emails = je', phones = jp', contact_page = page\<rparr>)))"

definition get_contact_details :: "runtime \<Rightarrow> scraper \<Rightarrow> py_exc + contact_details" where
  "get_contact_details rt sc =
     (let html = fetch_homepage_html rt sc;
          home =
            (if html = [] then Inr ([], [], [], None)
             else (let soup = parse_html rt html in
                   case scrape_page rt soup [] [] of
                     (t, Inl e) \<Rightarrow> Inl e
                   | (t, Inr (es, ps)) \<Rightarrow> Inr (t, es, ps, contact_link sc soup)))
      in case home of
        Inl e \<Rightarrow> Inl e
      | Inr (all_text, es, ps, page) \<Rightarrow>
          (let (contact_text, es', ps') = contact_page_scrape rt page es ps;
               el = take 5 (set_order rt es');
               pl = take 5 (set_order rt ps')
           in if el = [] \<and> pl = []
              then contact_fallback rt (if contact_text \<noteq> [] then contact_text else all_text) page
              else Inr \<lparr>emails = JArr (map JStr el), phones = JArr (map JStr pl), contact_page = page\<rparr>))"

section \<open>Example storefronts\<close>

fun at_most_five :: "json \<Rightarrow> bool" where
  "at_most_five (JArr xs) \<longleftrightarrow> length xs \<le> 5"
| "at_most_five (JStr s) \<longleftrightarrow> length s \<le> 5"
| "at_most_five v \<longleftrightarrow> False"

definition contact_web :: "string \<Rightarrow> response option" where
  "contact_web u =
     (if u = ''https://c.test'' then Some \<lparr>status_code = 200, resp_text = ''home-c''\<rparr>
      else if u = ''https://c.test/pages/contact'' then Some \<lparr>status_code = 200, resp_text = ''contact-c''\<rparr>
      else if u = ''https://d.test'' then Some \<lparr>status_code = 200, resp_text = ''home-d''\<rparr>
      else None)"

definition contact_parse :: "string \<Rightarrow> doc" where
  "contact_parse t =
     (if t = ''home-c'' then
        [Elem ''p'' [] [Text ''Write to jane@example.com''],
         Elem ''a'' [(''href'', ''/pages/Contact'')] [Text ''Contact us'']]
      else if t = ''contact-c'' then [Elem ''script'' [] [Text ''x@6.8.6''], Elem ''p'' [] [Text ''sales@shop.com'']]
      else if t = ''home-d'' then [Elem ''p'' [] [Text ''Welcome'']]
      else [])"

definition contact_rt :: runtime where
  "contact_rt = \<lparr>http_get = contact_web, parse_html = contact_parse, json_loads = (\<lambda>_. None),
     phone_numbers = (\<lambda>_. []), llm_complete = (\<lambda>_ _. None), api_key = None, set_order = id\<rparr>"

section \<open>Lemmas\<close>

lemma match_email_shape:
  assumes "match_email s = Some (m, rest)"
  shows "s = m @ rest \<and>
         (\<exists>l d1 d2. m = l @ CHR ''@'' # d1 @ CHR ''.'' # d2 \<and> l \<noteq> [] \<and> list_all local_char l \<and>
            d1 \<noteq> [] \<and> list_all label_char d1 \<and> d2 \<noteq> [] \<and> list_all tail_char d2)"
proof -
  obtain r1 where h1: "dropWhile local_char s = CHR ''@'' # r1" and l: "takeWhile local_char s \<noteq> []"
    using assms by (auto simp: match_email_def Let_def split: list.splits if_splits)
  obtain r3 where h2: "dropWhile label_char r1 = CHR ''.'' # r3" and d1: "takeWhile label_char r1 \<noteq> []"
    using assms h1 by (auto simp: match_email_def Let_def split: list.splits if_splits)
  have d2: "takeWhile tail_char r3 \<noteq> []"
    and m: "m = takeWhile local_char s @ CHR ''@'' # takeWhile label_char r1 @ CHR ''.'' # takeWhile tail_char r3"
    and r: "rest = dropWhile tail_char r3"
    using assms h1 h2 by (auto simp: match_email_def Let_def split: if_splits)
  have "s = takeWhile local_char s @ CHR ''@'' # r1" using h1 takeWhile_dropWhile_id [of local_char s] by simp
  moreover have "r1 = takeWhile label_char r1 @ CHR ''.'' # r3" using h2 takeWhile_dropWhile_id [of label_char r1] by simp
  moreover have "r3 = takeWhile tail_char r3 @ rest" using r takeWhile_dropWhile_id [of tail_char r3] by simp
  ultimately have "s = m @ rest" using m by (metis append.assoc append_Cons)
  moreover have "list_all local_char (takeWhile local_char s)" "list_all label_char (takeWhile label_char r1)"
                "list_all tail_char (takeWhile tail_char r3)"
    by (auto simp: list_all_iff dest: set_takeWhileD)
  ultimately show ?thesis using m l d1 d2 by blast
qed

lemma email_findall_shape:
  "m \<in> set (email_findall s) \<Longrightarrow>
   \<exists>l d1 d2. m = l @ CHR ''@'' # d1 @ CHR ''.'' # d2 \<and> l \<noteq> [] \<and> list_all local_char l \<and>
     d1 \<noteq> [] \<and> list_all label_char d1 \<and> d2 \<noteq> [] \<and> list_all tail_char d2"
proof (induction s rule: email_findall.induct)
  case 1
  then show ?case by simp
next
  case (2 c cs)
  show ?case
  proof (cases "match_email (c # cs)")
    case None
    with 2 show ?thesis by simp
  next
    case (Some x)
    obtain m' rest where x: "x = (m', rest)" by fastforce
    show ?thesis
    proof (cases "m = m'")
      case True
      with Some x match_email_shape show ?thesis by blast
    next
      case False
      with 2 Some x show ?thesis by simp
    qed
  qed
qed

lemma not_local_at [simp]: "\<not> local_char CHR ''@''"
  by (simp add: local_char_def is_ascii_alnum_def)

lemma not_label_at [simp]: "\<not> label_char CHR ''@''" "\<not> label_char CHR ''.''"
  by (simp_all add: label_char_def is_ascii_alnum_def)

lemma not_tail_at [simp]: "\<not> tail_char CHR ''@''"
  by (simp add: tail_char_def is_ascii_alnum_def)

lemma takeWhile_all_stop:
  "list_all P xs \<Longrightarrow> \<not> P c \<Longrightarrow> takeWhile P (xs @ c # ys) = xs \<and> dropWhile P (xs @ c # ys) = c # ys"
  by (induction xs) auto

lemma match_email_complete:
  assumes "0 < k" and "k \<le> length s" and "email_lang (take k s)"
  shows "\<exists>m rest. match_email s = Some (m, rest) \<and> k \<le> length m"
proof -
  obtain l d1 d2 where t: "take k s = l @ CHR ''@'' # d1 @ CHR ''.'' # d2" and
    l: "l \<noteq> []" "list_all local_char l" and d1: "d1 \<noteq> []" "list_all label_char d1" and
    d2: "d2 \<noteq> []" "list_all tail_char d2"
    using assms(3) by (auto simp: email_lang_def)
  define t' where "t' = drop k s"
  have "s = take k s @ drop k s" by simp
  then have s: "s = l @ CHR ''@'' # d1 @ CHR ''.'' # d2 @ t'" by (simp add: t t'_def)
  have k: "k = length (l @ CHR ''@'' # d1 @ CHR ''.'' # d2)"
  proof -
    have "length (take k s) = k" using assms(2) by simp
    then show ?thesis by (simp only: t)
  qed
  have e1: "takeWhile local_char s = l" "dropWhile local_char s = CHR ''@'' # d1 @ CHR ''.'' # d2 @ t'"
    using takeWhile_all_stop [OF l(2), of "CHR ''@''" "d1 @ CHR ''.'' # d2 @ t'"] s by simp_all
  have e2: "takeWhile label_char (d1 @ CHR ''.'' # d2 @ t') = d1"
           "dropWhile label_char (d1 @ CHR ''.'' # d2 @ t') = CHR ''.'' # d2 @ t'"
    using takeWhile_all_stop [OF d1(2), of "CHR ''.''" "d2 @ t'"] by simp_all
  have e3: "takeWhile tail_char (d2 @ t') = d2 @ takeWhile tail_char t'"
    using d2(2) by (simp add: list_all_iff takeWhile_append2)
  have "match_email s = Some (l @ CHR ''@'' # d1 @ CHR ''.'' # d2 @ takeWhile tail_char t',
                              dropWhile tail_char (d2 @ t'))"
    using l(1) d1(1) d2(1) e1 e2 e3 by (simp add: match_email_def Let_def)
  then show ?thesis using k by auto
qed

lemma match_email_sound: "match_email s = Some (m, rest) \<Longrightarrow> s = m @ rest \<and> m \<noteq> [] \<and> email_lang m"
  using match_email_shape [of s m rest] by (auto simp: email_lang_def)

text \<open>
  C10. The scanner is \<open>re.findall\<close> of the email pattern: it returns exactly the
  leftmost-longest non-overlapping matches of the pattern's language, left to right
  (\<open>findall_ref\<close> of \<open>Prelude\<close>).
\<close>

theorem email_findall_ref: "email_findall s = findall_ref email_lang s"
proof (induction s rule: email_findall.induct)
  case 1
  then show ?case by simp
next
  case (2 c cs)
  have lf: "longest_from email_lang (c # cs) (length (c # cs)) = map_option (length \<circ> fst) (match_email (c # cs))"
    by (rule longest_from_matcher [OF match_email_sound match_email_complete])
  show ?case
  proof (cases "match_email (c # cs)")
    case None
    with 2 lf show ?thesis by simp
  next
    case (Some a)
    then obtain m rest where a: "match_email (c # cs) = Some (m, rest)" by (cases a) auto
    have ih: "email_findall rest = findall_ref email_lang rest" using "2" a by simp
    have "c # cs = m @ rest" using a match_email_sound by blast
    then have tk: "take (length m) (c # cs) = m" "drop (length m) (c # cs) = rest" by simp_all
    show ?thesis using lf a by (simp add: tk ih del: take_Suc_Cons drop_Suc_Cons)
  qed
qed


lemma local_no_at: "list_all local_char l \<Longrightarrow> CHR ''@'' \<notin> set l"
  by (auto simp: list_all_iff)

lemma label_no_sep: "list_all label_char d \<Longrightarrow> CHR ''@'' \<notin> set d \<and> CHR ''.'' \<notin> set d"
  by (auto simp: list_all_iff)

lemma tail_no_at: "list_all tail_char d \<Longrightarrow> CHR ''@'' \<notin> set d"
  by (auto simp: list_all_iff)

lemma first_label:
  "CHR ''.'' \<notin> set d1 \<Longrightarrow> takeWhile (\<lambda>x. x \<noteq> CHR ''.'') (d1 @ CHR ''.'' # d2) = d1"
  by (rule takeWhile_ne_sep)

text \<open>
  C11. On an address of the pattern's shape \<open>l@d1.d2\<close>, \<open>is_real_email\<close> never
  raises and accepts exactly when the first domain label \<open>d1\<close> has no digit: the
  check of the four numeric suffixes never decides anything, since each of them
  starts with a digit label.
\<close>

theorem is_real_email_shape:
  assumes "list_all local_char l" "list_all label_char d1" "list_all tail_char d2"
  shows "is_real_email (l @ CHR ''@'' # d1 @ CHR ''.'' # d2) = Inr (\<not> list_ex py_isdigit d1)"
proof -
  let ?rest = "d1 @ CHR ''.'' # d2"
  have nl: "CHR ''@'' \<notin> set l" using local_no_at [OF assms(1)] .
  have nd1: "CHR ''@'' \<notin> set d1" "CHR ''.'' \<notin> set d1" using label_no_sep [OF assms(2)] by auto
  have nd2: "CHR ''@'' \<notin> set d2" using tail_no_at [OF assms(3)] .
  have nr: "CHR ''@'' \<notin> set ?rest" using nd1 nd2 by simp
  have sp: "split_char CHR ''@'' (l @ CHR ''@'' # ?rest) = [l, ?rest]"
    using nl nr by (simp add: split_char_append_sep split_char_no_sep)
  have sp2: "hd (split_char CHR ''.'' ?rest) = d1"
    using nd1(2) by (simp add: split_char_append_sep)
  have nosuf: "\<not> list_ex py_isdigit d1 \<Longrightarrow>
      \<not> list_ex (\<lambda>suffix. py_endswith (CHR ''@'' # suffix) (l @ CHR ''@'' # ?rest))
          [''6.8.6'', ''1.8.2'', ''2.0.1'', ''0.2.6'']"
  proof
    assume nodig: "\<not> list_ex py_isdigit d1"
      and "list_ex (\<lambda>suffix. py_endswith (CHR ''@'' # suffix) (l @ CHR ''@'' # ?rest))
          [''6.8.6'', ''1.8.2'', ''2.0.1'', ''0.2.6'']"
    then obtain suf where suf: "suf \<in> {''6.8.6'', ''1.8.2'', ''2.0.1'', ''0.2.6''}"
      and e: "suffix (CHR ''@'' # suf) (l @ CHR ''@'' # ?rest)"
      by (auto simp: list_ex_iff py_endswith_suffix)
    have "CHR ''@'' \<notin> set suf" using suf by auto
    then have "suf = ?rest" using suffix_unique_sep [OF e _ nr] by simp
    then have "d1 = takeWhile (\<lambda>x. x \<noteq> CHR ''.'') suf" using first_label [OF nd1(2)] by simp
    with suf have "list_ex py_isdigit d1" by (auto simp: py_isdigit_def)
    with nodig show False by simp
  qed
  show ?thesis
    using nosuf by (simp add: is_real_email_def sp sp2 py_index_def)
qed

theorem is_real_email_shape_witness:
  "is_real_email (''jane'' @ CHR ''@'' # ''example'' @ CHR ''.'' # ''com'') = Inr True"
  using is_real_email_shape [of "''jane''" "''example''" "''com''"]
  by (simp add: local_char_def label_char_def tail_char_def is_ascii_alnum_def py_isdigit_def)


text \<open>\<open>is_real_email\<close> rejects \<open>foo@2.6.8.6\<close> and accepts \<open>jane@example.com\<close>.\<close>

theorem is_real_email_examples:
  "is_real_email ''foo@2.6.8.6'' = Inr False \<and> is_real_email ''jane@example.com'' = Inr True"
  by (simp add: is_real_email_def py_index_def py_isdigit_def py_endswith_def)


lemma real_emails_total:
  "\<forall>e \<in> set es. \<exists>b. is_real_email e = Inr b \<Longrightarrow> \<exists>r. real_emails es = Inr r \<and> set r \<subseteq> set es"
  by (induction es) (auto split: sum.splits)

text \<open>
  C12. Filtering the scanner's matches with \<open>is_real_email\<close> never raises
  \<open>IndexError\<close>, and keeps only matches.
\<close>

theorem real_emails_findall:
  "\<exists>r. real_emails (email_findall s) = Inr r \<and> set r \<subseteq> set (email_findall s)"
proof (rule real_emails_total, rule ballI)
  fix e
  assume "e \<in> set (email_findall s)"
  then obtain l d1 d2 where "e = l @ CHR ''@'' # d1 @ CHR ''.'' # d2" "list_all local_char l"
    "list_all label_char d1" "list_all tail_char d2"
    using email_findall_shape by blast
  then show "\<exists>b. is_real_email e = Inr b" using is_real_email_shape by blast
qed

lemma slice5_at_most_five: "slice5 j = Inr r \<Longrightarrow> at_most_five r"
  by (cases j) auto

lemma contact_fallback_bounded:
  "contact_fallback rt t page = Inr c \<Longrightarrow> at_most_five (emails c) \<and> at_most_five (phones c)"
  by (auto simp: contact_fallback_def split: sum.splits prod.splits dest: slice5_at_most_five)

text \<open>
  C13. Whenever \<open>get_contact_details\<close> returns, its \<open>emails\<close> and \<open>phones\<close> hold at
  most five entries each: lists of at most five, or, from a model reply whose field is
  a string, strings of at most five characters.
\<close>

theorem contact_lists_bounded:
  "get_contact_details rt sc = Inr c \<Longrightarrow> at_most_five (emails c) \<and> at_most_five (phones c)"
  by (auto simp: get_contact_details_def Let_def split: if_splits sum.splits prod.splits
           dest: contact_fallback_bounded)

lemma contact_rt_c:
  "get_contact_details contact_rt (scraper_init ''https://c.test'') =
     Inr \<lparr>emails = JArr [JStr ''jane@example.com'', JStr ''sales@shop.com''], phones = JArr [],
          contact_page = Some ''https://c.test/pages/contact''\<rparr>"
  by (simp add: get_contact_details_def contact_rt_def contact_web_def contact_parse_def
      fetch_homepage_html_def scraper_init_def py_rstrip_def scrape_page_def stripped_text_def
      get_text_def py_strip_def is_space_def match_email_def local_char_def label_char_def
      tail_char_def is_ascii_alnum_def is_real_email_def py_index_def py_isdigit_def
      py_endswith_def contact_link_def anchors_def py_lower_def lower_char_def is_upper_def
      resolve_href_def py_startswith_def contact_page_scrape_def get_200_def Let_def)

theorem contact_lists_bounded_witness:
  "at_most_five (JArr [JStr ''jane@example.com'', JStr ''sales@shop.com'']) \<and> at_most_five (JArr [])"
  using contact_lists_bounded [OF contact_rt_c] by simp

text \<open>
  C14. Without \<open>OPENAI_API_KEY\<close>, \<open>get_contact_details\<close> never returns empty
  contact lists: when no address and no phone number is found, building the client
  outside the \<open>try\<close> of \<open>extract_contact_with_llm\<close> raises, and nothing on the way
  catches it (the spec wants an empty result).
\<close>

theorem contact_no_key_never_empty:
  "api_key rt = None \<Longrightarrow> get_contact_details rt sc = Inr c \<Longrightarrow>
   emails c \<noteq> JArr [] \<or> phones c \<noteq> JArr []"
  by (auto simp: get_contact_details_def contact_fallback_def extract_contact_with_llm_def
                 openai_client_def Let_def split: if_splits sum.splits prod.splits)

theorem contact_no_key_never_empty_witness:
  "api_key contact_rt = None \<and>
   get_contact_details contact_rt (scraper_init ''https://c.test'') =
     Inr \<lparr>emails = JArr [JStr ''jane@example.com'', JStr ''sales@shop.com''], phones = JArr [],
          contact_page = Some ''https://c.test/pages/contact''\<rparr> \<and>
   emails \<lparr>emails = JArr [JStr ''jane@example.com'', JStr ''sales@shop.com''], phones = JArr [],
           contact_page = Some ''https://c.test/pages/contact''\<rparr> \<noteq> JArr []"
proof -
  have k: "api_key contact_rt = None" by (simp add: contact_rt_def)
  from contact_no_key_never_empty [OF k contact_rt_c] have
    "emails \<lparr>emails = JArr [JStr ''jane@example.com'', JStr ''sales@shop.com''], phones = JArr [],
             contact_page = Some ''https://c.test/pages/contact''\<rparr> \<noteq> JArr []"
    by simp
  with k contact_rt_c show ?thesis by simp
qed

end
