(* ===== verification/Catalog.thy ===== *)
theory Catalog
  imports Web
begin

text \<open>
  \<open>ShopifyScraper.get_product_catalog\<close> and \<open>get_hero_products\<close>
  (\<open>src/app/scraper.py\<close>, lines 15-51). The catalogue is the \<open>products\<close> field of
  \<open>{base}/products.json\<close>, or \<open>[]\<close> on any failure; it is returned as the raw JSON
  value the feed holds. Hero products are the homepage anchors whose \<open>href\<close> contains
  \<open>/products/\<close>, deduplicated by resolved URL, keeping the first candidate that has
  a title.
\<close>

section \<open>The product feed\<close>

definition get_product_catalog :: "runtime \<Rightarrow> scraper \<Rightarrow> json" where
  \<comment> \<open>\<open>resp.json()\<close> raising, \<open>data.get\<close> on a non-dictionary and a failed request
    all end in the \<open>except\<close> branch\<close>
  "get_product_catalog rt sc =
     (case http_get rt (base_url sc @ ''/products.json'') of
        None \<Rightarrow> JArr []
      | Some r \<Rightarrow>
          if status_code r = 200 then
            (case json_loads rt (resp_text r) of
               None \<Rightarrow> JArr []
             | Some data \<Rightarrow> (case json_get data ''products'' (JArr []) of Inl e \<Rightarrow> JArr [] | Inr v \<Rightarrow> v))
          else JArr [])"

section \<open>Hero products\<close>

record hero =
  hero_title :: string
  hero_url :: string
  hero_image :: "string option"

definition hero_candidate :: "scraper \<Rightarrow> node \<Rightarrow> string \<Rightarrow> hero" where
  \<comment> \<open>title from the link text, image from the first descendant \<open><img>\<close> with a
    \<open>src\<close>, URL resolved against the base\<close>
  "hero_candidate sc a href =
     \<lparr>hero_title = tag_text a,
      hero_url = resolve_href sc href,
      hero_image = (case find_tag [''img''] (children a) of None \<Rightarrow> None | Some img \<Rightarrow> get_attr img ''src'')\<rparr>"

definition hero_candidates :: "scraper \<Rightarrow> doc \<Rightarrow> hero list" where
  "hero_candidates sc soup =
     map (\<lambda>(a, href). hero_candidate sc a href)
       (filter (\<lambda>(a, href). py_in ''/products/'' href) (anchors soup))"

fun unique_heroes :: "string set \<Rightarrow> hero list \<Rightarrow> hero list" where
  \<comment> \<open>the \<open>seen\<close> loop: only a kept product marks its URL as seen\<close>
  "unique_heroes seen [] = []"
| "unique_heroes seen (p # ps) =
     (if hero_url p \<notin> seen \<and> hero_title p \<noteq> []
      then p # unique_heroes (insert (hero_url p) seen) ps
      else unique_heroes seen ps)"

definition get_hero_products :: "runtime \<Rightarrow> scraper \<Rightarrow> hero list" where
  "get_hero_products rt sc =
     (let html = fetch_homepage_html rt sc in
      if html = [] then [] else unique_heroes {} (hero_candidates sc (parse_html rt html)))"

section \<open>Example storefront\<close>

definition widget_link :: node where
  \<comment> \<open>\<open><a href="/products/widget"><img src="/img/w.jpg">Widget</a>\<close>\<close>
  "widget_link = Elem ''a'' [(''href'', ''/products/widget'')]
                   [Elem ''img'' [(''src'', ''/img/w.jpg'')] [], Text ''Widget'']"

definition shop_rt :: runtime where
  "shop_rt = \<lparr>http_get = (\<lambda>u.
       if u = ''https://w.test'' then Some \<lparr>status_code = 200, resp_text = ''home''\<rparr>
       else if u = ''https://w.test/products.json'' then Some \<lparr>status_code = 200, resp_text = ''feed''\<rparr>
       else None),
     parse_html = (\<lambda>t. if t = ''home'' then [widget_link, Elem ''p'' [] [Text ''New''], widget_link] else []),
     json_loads = (\<lambda>t. if t = ''feed'' then Some (JObj [(''products'', JArr [JObj [(''handle'', JStr ''widget'')]])])
                      else None),
     phone_numbers = (\<lambda>_. []), llm_complete = (\<lambda>_ _. None), api_key = None, set_order = id\<rparr>"

section \<open>Lemmas\<close>

lemma unique_heroes_nub_by:
  "unique_heroes seen ps = nub_by hero_url (filter (\<lambda>p. hero_url p \<notin> seen \<and> hero_title p \<noteq> []) ps)"
proof (induction ps arbitrary: seen)
  case Nil
  then show ?case by simp
next
  case (Cons p ps)
  have "filter (\<lambda>y. hero_url y \<noteq> hero_url p) (filter (\<lambda>y. hero_url y \<notin> seen \<and> hero_title y \<noteq> []) ps) =
        filter (\<lambda>y. hero_url y \<notin> insert (hero_url p) seen \<and> hero_title y \<noteq> []) ps"
    by (simp add: filter_filter conj_ac)
  with Cons.IH show ?case by simp
qed

lemma resolve_href_keeps: "py_in n href \<Longrightarrow> py_in n (resolve_href sc href)"
proof -
  assume h: "py_in n href"
  have "py_in n ([] @ href @ [])" "py_in n (base_url sc @ href @ [])" "py_in n ((base_url sc @ ''/'') @ href @ [])"
    using py_in_append [OF h] by blast+
  then show ?thesis by (simp add: resolve_href_def)
qed

lemma hero_candidates_url: "p \<in> set (hero_candidates sc soup) \<Longrightarrow> py_in ''/products/'' (hero_url p)"
  by (auto simp: hero_candidates_def hero_candidate_def resolve_href_keeps)

lemma hero_nub_props:
  "distinct (map hero_url (nub_by hero_url (filter (\<lambda>p. hero_title p \<noteq> []) (hero_candidates sc soup)))) \<and>
   (\<forall>p \<in> set (nub_by hero_url (filter (\<lambda>p. hero_title p \<noteq> []) (hero_candidates sc soup))).
      hero_title p \<noteq> [] \<and> py_in ''/products/'' (hero_url p))"
proof
  show "\<forall>p \<in> set (nub_by hero_url (filter (\<lambda>p. hero_title p \<noteq> []) (hero_candidates sc soup))).
      hero_title p \<noteq> [] \<and> py_in ''/products/'' (hero_url p)"
  proof
    fix p
    assume "p \<in> set (nub_by hero_url (filter (\<lambda>p. hero_title p \<noteq> []) (hero_candidates sc soup)))"
    then have "p \<in> set (filter (\<lambda>p. hero_title p \<noteq> []) (hero_candidates sc soup))"
      by (rule subsetD [OF set_nub_by])
    then show "hero_title p \<noteq> [] \<and> py_in ''/products/'' (hero_url p)"
      using hero_candidates_url [of p sc soup] by simp
  qed
qed (rule distinct_nub_by)

lemma get_hero_products_nub:
  "get_hero_products rt sc =
     (if fetch_homepage_html rt sc = [] then []
      else nub_by hero_url (filter (\<lambda>p. hero_title p \<noteq> []) (hero_candidates sc (parse_html rt (fetch_homepage_html rt sc)))))"
  by (simp add: get_hero_products_def Let_def unique_heroes_nub_by)

text \<open>
  C15. The hero products never repeat a URL, every one has a non-empty title, and
  every URL contains \<open>/products/\<close> (relative links are resolved without losing it).
\<close>

theorem get_hero_products_inv:
  "distinct (map hero_url (get_hero_products rt sc)) \<and>
   (\<forall>p \<in> set (get_hero_products rt sc). hero_title p \<noteq> [] \<and> py_in ''/products/'' (hero_url p))"
proof (cases "fetch_homepage_html rt sc = []")
  case True
  then show ?thesis by (simp add: get_hero_products_def Let_def)
next
  case False
  then have "get_hero_products rt sc =
      nub_by hero_url (filter (\<lambda>p. hero_title p \<noteq> []) (hero_candidates sc (parse_html rt (fetch_homepage_html rt sc))))"
    by (simp add: get_hero_products_def Let_def unique_heroes_nub_by)
  then show ?thesis using hero_nub_props by presburger
qed

text \<open>
  C16. For any URL, the hero product listed under it is the first homepage candidate
  with that URL and a non-empty title (first occurrence wins; an untitled duplicate
  earlier on the page does not block a later titled one).
\<close>

theorem hero_first_wins:
  "find (\<lambda>p. hero_url p = u) (get_hero_products rt sc) =
     (if fetch_homepage_html rt sc = [] then None
      else find (\<lambda>p. hero_title p \<noteq> [] \<and> hero_url p = u) (hero_candidates sc (parse_html rt (fetch_homepage_html rt sc))))"
  by (simp add: get_hero_products_nub find_nub_by find_filter_conj)

lemma shop_rt_heroes:
  "get_hero_products shop_rt (scraper_init ''https://w.test'') =
     [\<lparr>hero_title = ''Widget'', hero_url = ''https://w.test/products/widget'', hero_image = Some ''/img/w.jpg''\<rparr>]"
  by (simp add: get_hero_products_def shop_rt_def fetch_homepage_html_def scraper_init_def py_rstrip_def
      hero_candidates_def hero_candidate_def widget_link_def anchors_def resolve_href_def py_startswith_def
      find_tag_def get_text_def py_strip_def is_space_def)

theorem get_hero_products_inv_witness:
  "distinct (map hero_url [\<lparr>hero_title = ''Widget'', hero_url = ''https://w.test/products/widget'', hero_image = Some ''/img/w.jpg''\<rparr>]) \<and>
   ''Widget'' \<noteq> [] \<and> py_in ''/products/'' ''https://w.test/products/widget''"
  using get_hero_products_inv [of shop_rt "scraper_init ''https://w.test''"] by (simp add: shop_rt_heroes)

lemma json_get_non_dict: "(\<forall>kvs. v \<noteq> JObj kvs) \<Longrightarrow> json_get v k d = Inl AttributeError"
  by (cases v) auto

text \<open>
  C17. When \<open>/products.json\<close> answers 200 with a JSON object, the catalogue is its
  \<open>products\<close> field (the last one when the key repeats), or \<open>[]\<close> without one.
\<close>

theorem product_catalog_ok:
  assumes "get_200 rt (base_url sc @ ''/products.json'') = Some t"
    and "json_loads rt t = Some (JObj kvs)"
  shows "get_product_catalog rt sc = (case dict_get kvs ''products'' of None \<Rightarrow> JArr [] | Some v \<Rightarrow> v)"
  using assms by (auto simp: get_product_catalog_def get_200_Some)

theorem product_catalog_ok_witness:
  "get_product_catalog shop_rt (scraper_init ''https://w.test'') = JArr [JObj [(''handle'', JStr ''widget'')]]"
proof -
  have "get_product_catalog shop_rt (scraper_init ''https://w.test'') =
        (case dict_get [(''products'', JArr [JObj [(''handle'', JStr ''widget'')]])] ''products'' of
           None \<Rightarrow> JArr [] | Some v \<Rightarrow> v)"
    by (rule product_catalog_ok [where t = "''feed''"])
       (simp_all add: shop_rt_def scraper_init_def py_rstrip_def get_200_def)
  then show ?thesis by (simp add: dict_get_def)
qed

text \<open>
  C18. A failed request, a non-200 status, a body that is not JSON or JSON that is
  not an object all give the empty catalogue instead of an exception.
\<close>

theorem product_catalog_failure:
  assumes "case get_200 rt (base_url sc @ ''/products.json'') of
             None \<Rightarrow> True | Some t \<Rightarrow> (\<forall>kvs. json_loads rt t \<noteq> Some (JObj kvs))"
  shows "get_product_catalog rt sc = JArr []"
  using assms
  by (auto simp: get_product_catalog_def get_200_def json_get_non_dict split: option.splits if_splits)

theorem product_catalog_failure_witness:
  "get_product_catalog shop_rt (scraper_init ''https://x.test'') = JArr []"
  by (rule product_catalog_failure) (simp add: shop_rt_def scraper_init_def py_rstrip_def get_200_def)

end
