(* ===== verification/Links.thy ===== *)
theory Links
  imports Policy
begin

text \<open>
  The three single-pass homepage resolvers of \<open>src/app/scraper.py\<close>:
  \<open>get_social_handles\<close> (lines 223-246), \<open>get_about\<close> with
  \<open>extract_about_with_llm\<close> (lines 326-386) and \<open>get_important_links\<close>
  (lines 388-411). The social handles and the important links are Python dictionaries
  filled while walking the homepage anchors, modelled as association lists updated by
  \<open>dict_set\<close> (insertion order kept, an assigned key keeps its place): the social
  loop assigns unconditionally (the last matching link wins), the links loop only
  assigns an absent key (the first matching link wins). The about resolver is a
  chain of three tiers whose last one calls the language model and can raise.
\<close>

section \<open>Social handles\<close>

definition social_domains :: "(string \<times> string) list" where
  \<comment> \<open>the \<open>social_domains\<close> dictionary, in its literal order\<close>
  "social_domains =
     [(''instagram'', ''instagram.com''), (''facebook'', ''facebook.com''), (''tiktok'', ''tiktok.com''),
      (''twitter'', ''twitter.com''), (''youtube'', ''youtube.com''), (''pinterest'', ''pinterest.com''),
      (''linkedin'', ''linkedin.com''), (''snapchat'', ''snapchat.com''), (''whatsapp'', ''wa.me''),
      (''telegram'', ''t.me'')]"

fun social_scan :: "(string \<times> string) list \<Rightarrow> string \<Rightarrow> (string \<times> string) list \<Rightarrow> (string \<times> string) list" where
  \<comment> \<open>inner loop: \<open>for platform, domain in social_domains.items(): if domain in href:
    handles[platform] = href\<close>\<close>
  "social_scan [] href h = h"
| "social_scan ((plat, domain) # ds) href h =
     social_scan ds href (if py_in domain href then dict_set plat href h else h)"

definition social_handles_of :: "(node \<times> string) list \<Rightarrow> (string \<times> string) list" where
  \<comment> \<open>outer loop over \<open>soup.find_all('a', href=True)\<close>, starting from \<open>{}\<close>\<close>
  "social_handles_of as = fold (\<lambda>(a, href) h. social_scan social_domains href h) as []"

definition get_social_handles :: "runtime \<Rightarrow> scraper \<Rightarrow> (string \<times> string) list" where
  "get_social_handles rt sc =
     (let html = fetch_homepage_html rt sc in
      if html = [] then [] else social_handles_of (anchors (parse_html rt html)))"

section \<open>About text\<close>

definition about_paths :: "string list" where
  "about_paths =
     [''/pages/about'', ''/about'', ''/about-us'', ''/pages/about-us'',
      ''/pages/our-story'', ''/our-story'', ''/pages/brand-story'', ''/brand-story'']"

definition about_page_ok :: "response \<Rightarrow> bool" where
  \<comment> \<open>\<open>resp.status_code == 200 and ('about' in resp.text.lower() or 'story' in resp.text.lower())\<close>\<close>
  "about_page_ok r \<longleftrightarrow>
     status_code r = 200 \<and> (py_in ''about'' (py_lower (resp_text r)) \<or> py_in ''story'' (py_lower (resp_text r)))"

fun about_probe :: "runtime \<Rightarrow> string \<Rightarrow> string list \<Rightarrow> string option" where
  \<comment> \<open>tier 1: the first probed path whose page mentions about/story; a raised request
    continues with the next path\<close>
  "about_probe rt base [] = None"
| "about_probe rt base (p # ps) =
     (case http_get rt (base @ p) of
        None \<Rightarrow> about_probe rt base ps
      | Some r \<Rightarrow> if about_page_ok r then Some (base @ p) else about_probe rt base ps)"

fun about_link :: "scraper \<Rightarrow> (node \<times> string) list \<Rightarrow> string option" where
  \<comment> \<open>tier 2: the first homepage anchor whose lower-cased \<open>href\<close> mentions about/story,
    resolved after lower-casing\<close>
  "about_link sc [] = None"
| "about_link sc ((a, h) # as) =
     (let href = py_lower h in
      if py_in ''about'' href \<or> py_in ''story'' href then Some (resolve_href sc href)
      else about_link sc as)"

definition about_locate :: "runtime \<Rightarrow> scraper \<Rightarrow> string option" where
  \<comment> \<open>\<open>about_url\<close> after lines 348-366; \<open>not about_url\<close> holds for \<open>None\<close> and \<open>''\<close>\<close>
  "about_locate rt sc =
     (let u = about_probe rt (base_url sc) about_paths in
      if u = None \<or> u = Some [] then
        (let html = fetch_homepage_html rt sc in
         if html = [] then u
         else (case about_link sc (anchors (parse_html rt html)) of None \<Rightarrow> u | Some v \<Rightarrow> Some v))
      else u)"

definition about_prompt :: "string \<Rightarrow> string" where
  "about_prompt text =
     ''Summarize the following text as a concise brand description suitable for an 'About Us' section. '' @
     ''Return only the summary text.'' @ ''\<newline>'' @ ''Text:'' @ ''\<newline>'' @ text"

definition extract_about_with_llm :: "runtime \<Rightarrow> string \<Rightarrow> py_exc + string option" where
  \<comment> \<open>the client is built outside the \<open>try\<close>; inside it, a raised call or a null
    content (\<open>None.strip()\<close>) gives \<open>None\<close>\<close>
  "extract_about_with_llm rt text =
     (case openai_client rt of
        Inl e \<Rightarrow> Inl e
      | Inr _ \<Rightarrow> Inr (map_option py_strip (llm_complete rt (about_prompt text) 256)))"

definition about_page :: "runtime \<Rightarrow> string \<Rightarrow> string option" where
  \<comment> \<open>lines 368-378: the main-content text of the about URL under the 100-character
    gate, stripped\<close>
  "about_page rt url = map_option py_strip (accept_page rt url)"

definition get_about :: "runtime \<Rightarrow> scraper \<Rightarrow> py_exc + string option" where
  "get_about rt sc =
     (let page = (case about_locate rt sc of
                    None \<Rightarrow> None
                  | Some url \<Rightarrow> if url = [] then None else about_page rt url) in
      case page of
        Some text \<Rightarrow> Inr (Some text)
      | None \<Rightarrow>
          (let html = fetch_homepage_html rt sc in
           if html = [] then Inr None
           else
             (case extract_about_with_llm rt (get_text ''\<newline>'' True (parse_html rt html)) of
                Inl e \<Rightarrow> Inl e
              | Inr summary \<Rightarrow> Inr (if summary = None \<or> summary = Some [] then None else summary))))"

section \<open>Important links\<close>

definition link_keywords :: "(string \<times> string list) list" where
  "link_keywords =
     [(''order_tracking'', [''track'', ''tracking'', ''order status'']), (''contact_us'', [''contact'']),
      (''blog'', [''blog'']), (''support'', [''support'', ''help'']),
      (''returns'', [''return'', ''refund'', ''exchange'']), (''policy'', [''policy'']),
      (''faq'', [''faq'', ''questions''])]"

definition link_match :: "string list \<Rightarrow> string \<Rightarrow> string \<Rightarrow> bool" where
  \<comment> \<open>\<open>any(kw in text or kw in href.lower() for kw in kw_list)\<close>\<close>
  "link_match kws text href \<longleftrightarrow> list_ex (\<lambda>kw. py_in kw text \<or> py_in kw (py_lower href)) kws"

fun links_scan :: "scraper \<Rightarrow> string \<Rightarrow> string \<Rightarrow> (string \<times> string list) list \<Rightarrow>
    (string \<times> string) list \<Rightarrow> (string \<times> string) list" where
  \<comment> \<open>inner loop over the categories: \<open>if key not in links: links[key] = url\<close>\<close>
  "links_scan sc text href [] l = l"
| "links_scan sc text href ((key, kws) # ks) l =
     links_scan sc text href ks
       (if link_match kws text href \<and> map_of l key = None then dict_set key (resolve_href sc href) l else l)"

definition links_of :: "scraper \<Rightarrow> (node \<times> string) list \<Rightarrow> (string \<times> string) list" where
  \<comment> \<open>outer loop over the anchors with \<open>text = a.get_text(strip=True).lower()\<close>\<close>
  "links_of sc as = fold (\<lambda>(a, href) l. links_scan sc (py_lower (tag_text a)) href link_keywords l) as []"

definition get_important_links :: "runtime \<Rightarrow> scraper \<Rightarrow> (string \<times> string) list" where
  "get_important_links rt sc =
     (let html = fetch_homepage_html rt sc in
      if html = [] then [] else links_of sc (anchors (parse_html rt html)))"

section \<open>Example storefronts\<close>

definition about_body :: string where
  "about_body =
     ''Acme has made hand-thrown stoneware in a two-room studio since 2009, firing every mug '' @
     ''and bowl twice for a finish that lasts.''"

definition links_home :: doc where
  "links_home =
     [Elem ''a'' [(''href'', ''https://instagram.com/acme'')] [Text ''Instagram''],
      Elem ''a'' [(''href'', ''https://www.instagram.com/acme_shop'')] [Text ''Follow us''],
      Elem ''a'' [(''href'', ''https://www.linkedin.com/company/best.media'')] [Text ''LinkedIn''],
      Elem ''a'' [(''href'', ''/pages/contact'')] [Text ''Contact''],
      Elem ''a'' [(''href'', ''/pages/Contact-2'')] [Text ''Write to us''],
      Elem ''a'' [(''href'', ''/pages/About-Brand'')] [Text ''Our brand'']]"

definition links_rt :: runtime where
  "links_rt = \<lparr>http_get = (\<lambda>u.
       if u = ''https://l.test'' then Some \<lparr>status_code = 200, resp_text = ''home-l''\<rparr>
       else if u = ''https://l.test/pages/about-brand'' then Some \<lparr>status_code = 200, resp_text = ''page-a''\<rparr>
       else if u = ''https://m.test/pages/about'' then Some \<lparr>status_code = 200, resp_text = ''Our Story''\<rparr>
       else if u = ''https://k.test'' then Some \<lparr>status_code = 200, resp_text = ''home-k''\<rparr>
       else if u = ''https://n.test'' then Some \<lparr>status_code = 200, resp_text = ''home-n''\<rparr>
       else None),
     parse_html = (\<lambda>t. if t = ''home-l'' then links_home
                       else if t = ''page-a'' \<or> t = ''Our Story'' then [Elem ''main'' [] [Text about_body]]
                       else if t = ''home-k'' then
                         [Elem ''a'' [(''href'', ''/pages/contact'')] [Text ''Contact''],
                          Elem ''a'' [(''href'', ''/pages/Contact-2'')] [Text ''Write to us'']]
                       else if t = ''home-n'' then [Elem ''p'' [] [Text ''Hello'']]
                       else []),
     json_loads = (\<lambda>_. None), phone_numbers = (\<lambda>_. []), llm_complete = (\<lambda>_ _. None),
     api_key = None, set_order = id\<rparr>"

section \<open>Lemmas\<close>

lemma map_of_social_scan:
  "distinct (map fst ds) \<Longrightarrow> map_of (social_scan ds href h) k =
     (case map_of ds k of None \<Rightarrow> map_of h k | Some d \<Rightarrow> if py_in d href then Some href else map_of h k)"
proof (induction ds arbitrary: h)
  case Nil
  then show ?case by simp
next
  case (Cons pd ds)
  obtain p d where pd: "pd = (p, d)" by fastforce
  let ?h = "if py_in d href then dict_set p href h else h"
  have dist: "distinct (map fst ds)" and new: "p \<notin> fst ` set ds" using Cons.prems pd by auto
  show ?case
  proof (cases "k = p")
    case True
    with new have "map_of ds k = None" by (simp add: map_of_eq_None_iff)
    with True Cons.IH [OF dist, of ?h] show ?thesis by (simp add: pd)
  next
    case False
    with Cons.IH [OF dist, of ?h] show ?thesis by (simp add: pd split: option.split)
  qed
qed

lemma map_of_social_fold:
  "map_of (fold (\<lambda>(a, href) h. social_scan social_domains href h) as h) k =
     (case map_of social_domains k of
        None \<Rightarrow> map_of h k
      | Some d \<Rightarrow> (case filter (py_in d) (map snd as) of [] \<Rightarrow> map_of h k | hs \<Rightarrow> Some (last hs)))"
proof (induction as arbitrary: h)
  case Nil
  then show ?case by (simp split: option.split)
next
  case (Cons ah as)
  have dist: "distinct (map fst social_domains)" by (simp add: social_domains_def)
  obtain a href where ah: "ah = (a, href)" by fastforce
  show ?case
    using Cons [of "social_scan social_domains href h"]
    by (auto simp: ah map_of_social_scan [OF dist] split: option.split list.split)
qed

lemma social_handles_fold_distinct:
  "distinct (map fst h) \<Longrightarrow> distinct (map fst (fold (\<lambda>(a, href) h. social_scan social_domains href h) as h))"
proof (induction as arbitrary: h)
  case Nil
  then show ?case by simp
next
  case (Cons ah as)
  have "distinct (map fst (social_scan ds href h))" if "distinct (map fst h)" for ds href h
    using that by (induction ds href h rule: social_scan.induct) (simp_all add: distinct_dict_set)
  with Cons show ?case by (auto split: prod.split)
qed

lemma get_social_handles_lookup:
  "map_of (get_social_handles rt sc) p =
     (let html = fetch_homepage_html rt sc in
      if html = [] then None
      else case map_of social_domains p of
             None \<Rightarrow> None
           | Some d \<Rightarrow> (case filter (py_in d) (map snd (anchors (parse_html rt html))) of
                          [] \<Rightarrow> None | hs \<Rightarrow> Some (last hs)))"
  by (simp add: get_social_handles_def social_handles_of_def map_of_social_fold Let_def
      split: option.split list.split)

text \<open>
  C19. The social handle recorded for a platform is the last homepage link whose
  \<open>href\<close> contains that platform's domain; a platform with no such link, or an
  unreachable homepage, has no entry.
\<close>

theorem social_last_wins:
  "map_of (get_social_handles rt sc) p =
     (let html = fetch_homepage_html rt sc in
      if html = [] then None
      else case map_of social_domains p of
             None \<Rightarrow> None
           | Some d \<Rightarrow> (case filter (py_in d) (map snd (anchors (parse_html rt html))) of
                          [] \<Rightarrow> None | hs \<Rightarrow> Some (last hs)))"
  by (rule get_social_handles_lookup)

text \<open>
  C20. The social-handle dictionary has one entry per platform, only for the ten known
  platforms, and every recorded URL contains its platform's domain.
\<close>

theorem social_handles_inv:
  "distinct (map fst (get_social_handles rt sc)) \<and>
   (\<forall>(p, u) \<in> set (get_social_handles rt sc). \<exists>d. map_of social_domains p = Some d \<and> py_in d u)"
proof
  show dist: "distinct (map fst (get_social_handles rt sc))"
    by (simp add: get_social_handles_def social_handles_of_def Let_def social_handles_fold_distinct)
  show "\<forall>(p, u) \<in> set (get_social_handles rt sc). \<exists>d. map_of social_domains p = Some d \<and> py_in d u"
  proof (clarify)
    fix p u
    assume "(p, u) \<in> set (get_social_handles rt sc)"
    with dist have "map_of (get_social_handles rt sc) p = Some u" by (rule map_of_is_SomeI)
    then show "\<exists>d. map_of social_domains p = Some d \<and> py_in d u"
      unfolding get_social_handles_lookup Let_def
      by (auto split: if_splits option.splits list.splits dest: last_filter_Cons simp del: last.simps)
  qed
qed

lemma map_of_links_scan:
  "distinct (map fst ks) \<Longrightarrow> map_of (links_scan sc text href ks l) k =
     (case map_of l k of
        Some u \<Rightarrow> Some u
      | None \<Rightarrow> (case map_of ks k of
                   None \<Rightarrow> None
                 | Some kws \<Rightarrow> if link_match kws text href then Some (resolve_href sc href) else None))"
proof (induction ks arbitrary: l)
  case Nil
  then show ?case by (simp split: option.split)
next
  case (Cons kk ks)
  obtain key kws where kk: "kk = (key, kws)" by fastforce
  let ?l = "if link_match kws text href \<and> map_of l key = None then dict_set key (resolve_href sc href) l else l"
  have dist: "distinct (map fst ks)" and new: "key \<notin> fst ` set ks" using Cons.prems kk by auto
  show ?case
  proof (cases "k = key")
    case True
    with new have "map_of ks k = None" by (simp add: map_of_eq_None_iff)
    with True Cons.IH [OF dist, of ?l] show ?thesis by (simp add: kk split: option.split)
  next
    case False
    with Cons.IH [OF dist, of ?l] show ?thesis by (simp add: kk split: option.split)
  qed
qed

lemma map_of_links_fold:
  "map_of (fold (\<lambda>(a, href) l. links_scan sc (py_lower (tag_text a)) href link_keywords l) as l) k =
     (case map_of l k of
        Some u \<Rightarrow> Some u
      | None \<Rightarrow> (case map_of link_keywords k of
                   None \<Rightarrow> None
                 | Some kws \<Rightarrow> map_option (\<lambda>(a, href). resolve_href sc href)
                                 (find (\<lambda>(a, href). link_match kws (py_lower (tag_text a)) href) as)))"
proof (induction as arbitrary: l)
  case Nil
  then show ?case by (simp split: option.split)
next
  case (Cons ah as)
  have dist: "distinct (map fst link_keywords)" by (simp add: link_keywords_def)
  obtain a href where ah: "ah = (a, href)" by fastforce
  show ?case
    using Cons [of "links_scan sc (py_lower (tag_text a)) href link_keywords l"]
    by (auto simp: ah map_of_links_scan [OF dist] split: option.split)
qed

lemma get_important_links_lookup:
  "map_of (get_important_links rt sc) k =
     (let html = fetch_homepage_html rt sc in
      if html = [] then None
      else case map_of link_keywords k of
             None \<Rightarrow> None
           | Some kws \<Rightarrow> map_option (\<lambda>(a, href). resolve_href sc href)
                           (find (\<lambda>(a, href). link_match kws (py_lower (tag_text a)) href)
                              (anchors (parse_html rt html))))"
  by (simp add: get_important_links_def links_of_def map_of_links_fold Let_def)

text \<open>
  C21. The important link of a category is the first homepage anchor whose lower-cased
  text or \<open>href\<close> contains one of the category's keywords, resolved against the base
  URL; later matches never replace it.
\<close>

theorem links_first_wins:
  "map_of (get_important_links rt sc) k =
     (let html = fetch_homepage_html rt sc in
      if html = [] then None
      else case map_of link_keywords k of
             None \<Rightarrow> None
           | Some kws \<Rightarrow> map_option (\<lambda>(a, href). resolve_href sc href)
                           (find (\<lambda>(a, href). link_match kws (py_lower (tag_text a)) href)
                              (anchors (parse_html rt html))))"
  by (rule get_important_links_lookup)

lemma links_rt_social:
  "get_social_handles links_rt (scraper_init ''https://l.test'') =
     [(''instagram'', ''https://www.instagram.com/acme_shop''),
      (''linkedin'', ''https://www.linkedin.com/company/best.media''),
      (''telegram'', ''https://www.linkedin.com/company/best.media'')]"
  by (simp add: get_social_handles_def social_handles_of_def social_domains_def links_rt_def links_home_def
      fetch_homepage_html_def scraper_init_def py_rstrip_def anchors_def find_all_def)


lemma about_page_clean: "about_page rt url = Some t \<Longrightarrow> t \<noteq> [] \<and> py_strip t = t"
  by (auto simp: about_page_def main_text_def get_text_stripped dest!: accept_page_SomeD)

lemma extract_about_clean: "extract_about_with_llm rt x = Inr (Some s) \<Longrightarrow> py_strip s = s"
  by (auto simp: extract_about_with_llm_def split: sum.splits)

lemma about_probe_Some: "about_probe rt b ps = Some u \<Longrightarrow> \<exists>p \<in> set ps. u = b @ p"
  by (induction ps) (auto split: option.splits if_splits)

text \<open>
  C22. An about text, whichever tier produced it, is never the empty string and is
  already stripped of surrounding whitespace.
\<close>

theorem about_result_clean:
  "get_about rt sc = Inr (Some t) \<Longrightarrow> t \<noteq> [] \<and> py_strip t = t"
  by (auto simp: get_about_def Let_def split: option.splits if_splits sum.splits
      dest: about_page_clean extract_about_clean)

text \<open>
  C23. When a probed about path answers 200 with a page mentioning about/story and its
  main content passes the 100-character gate, that stripped text is the result; the
  language model is never consulted, so no API key is needed.
\<close>

theorem about_page_tier:
  assumes "about_probe rt (base_url sc) about_paths = Some url" and "accept_page rt url = Some text"
  shows "get_about rt sc = Inr (Some (py_strip text))"
proof -
  from about_probe_Some [OF assms(1)] obtain p where "p \<in> set about_paths" "url = base_url sc @ p" by blast
  then have "url \<noteq> []" by (auto simp: about_paths_def)
  with assms show ?thesis by (simp add: get_about_def about_locate_def about_page_def)
qed

text \<open>
  C24. When no about page yields text and the homepage is reachable, a missing
  \<open>OPENAI_API_KEY\<close> makes \<open>get_about\<close> raise (the client is built outside the
  \<open>try\<close>), instead of returning an absent about text.
\<close>

theorem about_no_key_raises:
  assumes "case about_locate rt sc of None \<Rightarrow> True | Some url \<Rightarrow> url = [] \<or> about_page rt url = None"
    and "fetch_homepage_html rt sc \<noteq> []" and "api_key rt = None"
  shows "get_about rt sc = Inl OpenAIError"
  using assms
  by (auto simp: get_about_def extract_about_with_llm_def openai_client_def Let_def split: option.splits)

theorem social_handles_inv_witness:
  "map_of social_domains ''telegram'' = Some ''t.me'' \<and> py_in ''t.me'' ''https://www.linkedin.com/company/best.media''"
  using social_handles_inv [of links_rt "scraper_init ''https://l.test''"] by (simp add: links_rt_social social_domains_def)

text \<open>
  Domains are matched as substrings anywhere in the URL: a LinkedIn company page
  named \<open>best.media\<close> contains \<open>t.me\<close> and is also recorded as the Telegram handle.
\<close>

theorem social_telegram_substring:
  "map_of (get_social_handles links_rt (scraper_init ''https://l.test'')) ''telegram'' =
     Some ''https://www.linkedin.com/company/best.media''"
  by (simp add: links_rt_social)

lemma links_rt_about: "get_about links_rt (scraper_init ''https://l.test'') = Inr (Some about_body)"
  by code_simp

theorem about_result_clean_witness:
  "get_about links_rt (scraper_init ''https://l.test'') = Inr (Some about_body) \<and>
   about_body \<noteq> [] \<and> py_strip about_body = about_body"
  using about_result_clean [OF links_rt_about] links_rt_about by simp

theorem about_page_tier_witness:
  "get_about links_rt (scraper_init ''https://m.test'') = Inr (Some (py_strip about_body))"
proof (rule about_page_tier)
  show "about_probe links_rt (base_url (scraper_init ''https://m.test'')) about_paths = Some ''https://m.test/pages/about''"
    by code_simp
  show "accept_page links_rt ''https://m.test/pages/about'' = Some about_body"
    by code_simp
qed

theorem about_no_key_raises_witness:
  "get_about links_rt (scraper_init ''https://n.test'') = Inl OpenAIError"
proof (rule about_no_key_raises)
  show "case about_locate links_rt (scraper_init ''https://n.test'') of
          None \<Rightarrow> True | Some url \<Rightarrow> url = [] \<or> about_page links_rt url = None"
    by code_simp
  show "fetch_homepage_html links_rt (scraper_init ''https://n.test'') \<noteq> []"
    by code_simp
  show "api_key links_rt = None" by (simp add: links_rt_def)
qed

end
