(* ===== verification/Pyfloat.thy ===== *)
theory Pyfloat
  imports Complex_Main Prelude
begin

text \<open>
  Python's \<open>float(x)\<close> as \<open>src/app/main.py\<close> applies it to the first variant's price of
  a feed product (lines 36 and 118). A Python \<open>float\<close> is an IEEE double: a sign bit with
  a finite magnitude, an infinity or NaN. A finite magnitude is kept as the exact
  rational it denotes, \<open>m * 2^E\<close> with \<open>m < 2^53\<close> and \<open>E \<ge> -1074\<close>. Conversion rounds
  the exact value of the argument to the nearest double, ties to the even mantissa
  (\<open>round_double\<close>); a string that rounds past the largest double gives an infinity, an
  \<open>int\<close> that does raises \<open>OverflowError\<close>. Strings follow the grammar of \<open>float()\<close>:
  surrounding whitespace, an optional sign, \<open>inf\<close>/\<open>infinity\<close>/\<open>nan\<close> in any case, or a
  decimal mantissa with optional fraction and exponent whose digit runs may contain
  single underscores between digits.
\<close>

datatype pyfloat =
    Fin bool rat \<comment> \<open>sign bit (\<open>True\<close>: negative) and magnitude\<close>
  | Inf bool
  | NaN

section \<open>Rounding to a double\<close>

function nbits :: "int \<Rightarrow> int" where
  \<comment> \<open>the number of binary digits of \<open>n > 0\<close> (\<open>int.bit_length\<close>)\<close>
  "nbits n = (if n \<le> 0 then 0 else 1 + nbits (n div 2))"
  by auto
termination by (relation "measure nat") auto

declare nbits.simps [simp del]

definition log2_floor :: "rat \<Rightarrow> int" where
  \<comment> \<open>for \<open>q > 0\<close>, the exponent \<open>e\<close> with \<open>2^e \<le> q < 2^(e+1)\<close>\<close>
  "log2_floor q =
     (let (a, b) = quotient_of q; e0 = nbits a - nbits b in
      if power_int 2 e0 \<le> q then e0 else e0 - 1)"

definition round_half_even :: "rat \<Rightarrow> int" where
  "round_half_even s =
     (let f = \<lfloor>s\<rfloor>; r = s - of_int f in
      if r < 1/2 then f else if 1/2 < r then f + 1 else if even f then f else f + 1)"

definition round_double :: "bool \<Rightarrow> rat \<Rightarrow> pyfloat" where
  \<comment> \<open>the double nearest to the magnitude \<open>q \<ge> 0\<close> with sign bit \<open>neg\<close>: 53 significant
    bits, subnormal below \<open>2^-1022\<close>, infinite from \<open>2^1024\<close> on\<close>
  "round_double neg q =
     (if q = 0 then Fin neg 0
      else
        (let e = max (log2_floor q - 52) (-1074);
             v = of_int (round_half_even (q / power_int 2 e)) * power_int 2 e in
         if power_int 2 1024 \<le> v then Inf neg else Fin neg v))"

section \<open>Conversions\<close>

definition float_of_int :: "int \<Rightarrow> py_exc + pyfloat" where
  \<comment> \<open>\<open>float(n)\<close> for an \<open>int\<close>: \<open>OverflowError\<close> when it rounds past the largest double\<close>
  "float_of_int n =
     (case round_double (n < 0) (of_int \<bar>n\<bar>) of Inf _ \<Rightarrow> Inl OverflowError | f \<Rightarrow> Inr f)"

definition is_ascii_digit :: "char \<Rightarrow> bool" where
  "is_ascii_digit c \<longleftrightarrow> (let n = of_char c :: nat in 48 \<le> n \<and> n \<le> 57)"

function digits_more :: "string \<Rightarrow> string \<times> string" where
  \<comment> \<open>the rest of a digit run, \<open>(['_'] digit)*\<close>, and what follows it\<close>
  "digits_more [] = ([], [])"
| "digits_more (c # cs) =
     (if is_ascii_digit c then (let (ds, r) = digits_more cs in (c # ds, r))
      else if c = CHR ''_'' \<and> cs \<noteq> [] \<and> is_ascii_digit (hd cs)
      then (let (ds, r) = digits_more (tl cs) in (hd cs # ds, r))
      else ([], c # cs))"
  by pat_completeness auto
termination by (relation "measure length") auto

definition digit_part :: "string \<Rightarrow> (string \<times> string) option" where
  \<comment> \<open>\<open>digit (['_'] digit)*\<close>\<close>
  "digit_part s = (if s \<noteq> [] \<and> is_ascii_digit (hd s) then Some (digits_more s) else None)"

definition digits_val :: "string \<Rightarrow> int" where
  "digits_val ds = foldl (\<lambda>n c. 10 * n + (int (of_char c) - 48)) 0 ds"

definition take_sign :: "string \<Rightarrow> bool \<times> string" where
  "take_sign s =
     (if s \<noteq> [] \<and> hd s = CHR ''-'' then (True, tl s)
      else if s \<noteq> [] \<and> hd s = CHR ''+'' then (False, tl s)
      else (False, s))"

definition parse_mantissa :: "string \<Rightarrow> (string \<times> string \<times> string) option" where
  \<comment> \<open>\<open>digitpart '.' [digitpart] | '.' digitpart | digitpart\<close>: integer digits,
    fraction digits and the rest\<close>
  "parse_mantissa s =
     (case digit_part s of
        Some (ip, r) \<Rightarrow>
          if r \<noteq> [] \<and> hd r = CHR ''.'' then
            (case digit_part (tl r) of Some (fp, r') \<Rightarrow> Some (ip, fp, r') | None \<Rightarrow> Some (ip, [], tl r))
          else Some (ip, [], r)
      | None \<Rightarrow>
          if s \<noteq> [] \<and> hd s = CHR ''.'' then
            (case digit_part (tl s) of Some (fp, r') \<Rightarrow> Some ([], fp, r') | None \<Rightarrow> None)
          else None)"

definition parse_exponent :: "string \<Rightarrow> int option" where
  \<comment> \<open>\<open>[('e' | 'E') ['+' | '-'] digitpart]\<close> and nothing after it\<close>
  "parse_exponent r =
     (if r = [] then Some 0
      else if hd r = CHR ''e'' \<or> hd r = CHR ''E'' then
        (let (neg, r') = take_sign (tl r) in
         case digit_part r' of
           Some (ds, []) \<Rightarrow> Some (if neg then - digits_val ds else digits_val ds)
         | _ \<Rightarrow> None)
      else None)"

definition float_of_str :: "string \<Rightarrow> py_exc + pyfloat" where
  \<comment> \<open>\<open>float(s)\<close> for a \<open>str\<close>; \<open>ValueError\<close> when \<open>s\<close> is not a float literal\<close>
  "float_of_str s =
     (let (neg, t) = take_sign (py_strip s); lt = py_lower t in
      if lt = ''inf'' \<or> lt = ''infinity'' then Inr (Inf neg)
      else if lt = ''nan'' then Inr NaN
      else
        (case parse_mantissa t of
           None \<Rightarrow> Inl ValueError
         | Some (ip, fp, r) \<Rightarrow>
             (case parse_exponent r of
                None \<Rightarrow> Inl ValueError
              | Some e \<Rightarrow>
                  Inr (round_double neg
                         (of_int (digits_val (ip @ fp)) * power_int 10 (e - int (length fp)))))))"

section \<open>Decimal printing of an \<open>int\<close>\<close>

function dec_digits :: "int \<Rightarrow> string" where
  \<comment> \<open>the decimal digits of \<open>n \<ge> 0\<close>\<close>
  "dec_digits n =
     (if n < 10 then [''0123456789'' ! nat n]
      else dec_digits (n div 10) @ [''0123456789'' ! nat (n mod 10)])"
  by auto
termination by (relation "measure nat") auto

declare dec_digits.simps [simp del]

definition py_str_int :: "int \<Rightarrow> string" where
  \<comment> \<open>\<open>str(n)\<close>, also what an f-string prints for an \<open>int\<close>\<close>
  "py_str_int n = (if n < 0 then CHR ''-'' # dec_digits (- n) else dec_digits n)"

fun py_float :: "json \<Rightarrow> py_exc + pyfloat" where
  \<comment> \<open>\<open>float(x)\<close> for a decoded JSON value\<close>
  "py_float (JStr s) = float_of_str s"
| "py_float (JNum n) = float_of_int n"
| "py_float (JBool b) = Inr (Fin False (if b then 1 else 0))"
| "py_float JNull = Inl TypeError"
| "py_float (JArr xs) = Inl TypeError"
| "py_float (JObj kvs) = Inl TypeError"

section \<open>Lemmas\<close>

lemma nbits_nonpos [simp]: "n \<le> 0 \<Longrightarrow> nbits n = 0"
  by (simp add: nbits.simps)

lemma nbits_pos [simp]: "0 < n \<Longrightarrow> nbits n = 1 + nbits (n div 2)"
  by (subst nbits.simps) simp

lemma nbits_bounds: "0 < n \<Longrightarrow> 1 \<le> nbits n \<and> 2 ^ nat (nbits n - 1) \<le> n \<and> n < 2 ^ nat (nbits n)"
proof (induction n rule: nbits.induct)
  case (1 n)
  show ?case
  proof (cases "n = 1")
    case True
    then show ?thesis by simp
  next
    case False
    with "1.prems" have m: "0 < n div 2" by auto
    with "1.IH" "1.prems" have ih: "1 \<le> nbits (n div 2)" "2 ^ nat (nbits (n div 2) - 1) \<le> n div 2"
      "n div 2 < 2 ^ nat (nbits (n div 2))" by auto
    have ns: "nbits n = 1 + nbits (n div 2)" using "1.prems" by simp
    have e1: "nat (nbits n - 1) = nat (nbits (n div 2))" and e2: "nat (nbits n) = Suc (nat (nbits (n div 2)))"
      using ih(1) ns by auto
    have "nat (nbits (n div 2)) = Suc (nat (nbits (n div 2) - 1))" using ih(1) by linarith
    then have "(2::int) ^ nat (nbits (n div 2)) = 2 * 2 ^ nat (nbits (n div 2) - 1)"
      by (metis power_Suc)
    have dm: "n = 2 * (n div 2) + n mod 2" "0 \<le> n mod 2" "n mod 2 < 2" by simp_all
    from \<open>(2::int) ^ nat (nbits (n div 2)) = _\<close> e1
    have p: "(2::int) ^ nat (nbits n - 1) = 2 * 2 ^ nat (nbits (n div 2) - 1)" by simp
    have "2 ^ nat (nbits n - 1) \<le> n" unfolding p using ih(2) dm by linarith
    moreover have "n < 2 ^ nat (nbits n)" using ih(3) e2 dm by simp
    ultimately show ?thesis using ns ih(1) by simp
  qed
qed

lemma power_int_2_int: "0 \<le> k \<Longrightarrow> power_int (2::rat) k = of_int (2 ^ nat k)"
  by (simp add: power_int_def)

lemma log2_floor_le:
  assumes "0 < q"
  shows "power_int 2 (log2_floor q) \<le> q"
proof -
  obtain a b where qa: "quotient_of q = (a, b)" by fastforce
  then have b: "0 < b" and q: "q = of_int a / of_int b"
    using quotient_of_denom_pos quotient_of_div by auto
  with assms have a: "0 < a" by (simp add: zero_less_divide_iff)
  define e0 where "e0 = nbits a - nbits b"
  show ?thesis
  proof (cases "power_int 2 e0 \<le> q")
    case True
    then show ?thesis by (simp add: log2_floor_def qa e0_def Let_def)
  next
    case False
    from nbits_bounds [OF a] have A: "2 ^ nat (nbits a - 1) \<le> a" "1 \<le> nbits a" by auto
    from nbits_bounds [OF b] have B: "b < 2 ^ nat (nbits b)" "1 \<le> nbits b" by auto
    have "power_int (2::rat) (e0 - 1) = power_int 2 (nbits a - 1) / power_int 2 (nbits b)"
      unfolding e0_def by (simp add: power_int_diff [symmetric] algebra_simps)
    also have "\<dots> = of_int (2 ^ nat (nbits a - 1)) / of_int (2 ^ nat (nbits b))"
      using A(2) B(2) by (simp add: power_int_2_int)
    also have "\<dots> \<le> of_int a / of_int b"
      using A(1) B(1) a b by (intro frac_le) simp_all
    finally have "power_int 2 (e0 - 1) \<le> q" using q by simp
    then show ?thesis using False by (simp add: log2_floor_def qa e0_def Let_def)
  qed
qed

lemma round_half_even_int [simp]: "round_half_even (of_int k) = k"
  by (simp add: round_half_even_def)

lemma round_double_int_exact:
  assumes k: "0 < k" "k < 2 ^ 53"
  shows "round_double neg (of_int k) = Fin neg (of_int k)"
proof -
  let ?q = "of_int k :: rat"
  let ?L = "log2_floor ?q"
  have "power_int 2 ?L \<le> ?q" using k(1) by (simp add: log2_floor_le)
  also have "?q < power_int 2 53" using k(2) by simp
  finally have "?L < 53"
    using power_int_increasing [of 53 ?L "2::rat"] by (cases "53 \<le> ?L") auto
  define e where "e = max (?L - 52) (-1074)"
  then have e: "e \<le> 0" using \<open>?L < 53\<close> by simp
  have pe: "power_int (2::rat) e = inverse (2 ^ nat (- e))"
    using e by (simp add: power_int_def power_one_over inverse_eq_divide)
  have d: "?q / power_int 2 e = of_int (k * 2 ^ nat (- e))" by (simp add: pe divide_inverse)
  have r: "round_half_even (?q / power_int 2 e) = k * 2 ^ nat (- e)"
    unfolding d by (rule round_half_even_int)
  have "of_int (round_half_even (?q / power_int 2 e)) * power_int 2 e = ?q"
    unfolding r by (simp add: pe)
  moreover have "?q < power_int 2 1024" using k(2) by simp
  ultimately show ?thesis using k(1) by (simp add: round_double_def e_def Let_def)
qed

text \<open>
  Converting an \<open>int\<close> of magnitude below \<open>2^53\<close> to a float is exact: no rounding,
  no overflow, and the sign bit is the sign of the integer.
\<close>

theorem float_of_int_exact:
  "\<bar>n\<bar> < 2 ^ 53 \<Longrightarrow> float_of_int n = Inr (Fin (n < 0) (of_int \<bar>n\<bar>))"
proof (cases "n = 0")
  case True
  then show ?thesis by (simp add: float_of_int_def round_double_def)
next
  case False
  assume "\<bar>n\<bar> < 2 ^ 53"
  with False have "round_double (n < 0) (of_int \<bar>n\<bar>) = Fin (n < 0) (of_int \<bar>n\<bar>)"
    by (intro round_double_int_exact) simp_all
  then show ?thesis by (simp only: float_of_int_def pyfloat.case)
qed

lemma dec_digits_small [simp]: "n < 10 \<Longrightarrow> dec_digits n = [''0123456789'' ! nat n]"
  by (simp add: dec_digits.simps)

lemma dec_digits_big [simp]:
  "10 \<le> n \<Longrightarrow> dec_digits n = dec_digits (n div 10) @ [''0123456789'' ! nat (n mod 10)]"
  by (subst dec_digits.simps) simp

theorem float_of_int_exact_witness: "float_of_int (-1999) = Inr (Fin True 1999)"
  using float_of_int_exact [of "-1999"] by simp

end
