(* ===== verification/Models.thy ===== *)
theory Models
  imports Pyfloat Catalog Contact
begin

text \<open>
  The response models of \<open>src/app/models.py\<close> (pydantic \<open>Product\<close> and
  \<open>BrandInsights\<close>) and the code of \<open>src/app/main.py\<close> that builds them from the
  scraper's raw results (lines 31-47 and 113-126). A raw feed product is a decoded JSON
  value read with Python's dynamic operations (\<open>p.get\<close>, \<open>p['k']\<close>, \<open>v[0]\<close>,
  \<open>len\<close>, f-string formatting, \<open>float\<close>), each of which raises on a value of the wrong
  shape; the model returns the exception of the first operation that raises, in the
  order Python evaluates the keyword arguments. Field validation follows pydantic 2:
  \<open>title\<close> must be a \<open>str\<close>, \<open>image\<close> a \<open>str\<close> or \<open>None\<close>.
\<close>

section \<open>Python operations on decoded JSON\<close>

definition exc_bind :: "py_exc + 'a \<Rightarrow> ('a \<Rightarrow> py_exc + 'b) \<Rightarrow> py_exc + 'b" where
  \<comment> \<open>sequencing: an exception of the first step propagates\<close>
  "exc_bind m f = (case m of Inl e \<Rightarrow> Inl e | Inr x \<Rightarrow> f x)"

fun json_index0 :: "json \<Rightarrow> py_exc + json" where
  \<comment> \<open>\<open>v[0]\<close>\<close>
  "json_index0 (JArr xs) = (if xs = [] then Inl IndexError else Inr (hd xs))"
| "json_index0 (JStr s) = (if s = [] then Inl IndexError else Inr (JStr [hd s]))"
| "json_index0 (JObj kvs) = Inl KeyError"
| "json_index0 _ = Inl TypeError"

fun json_key :: "json \<Rightarrow> string \<Rightarrow> py_exc + json" where
  \<comment> \<open>\<open>v[k]\<close> for a string \<open>k\<close>\<close>
  "json_key (JObj kvs) k = (case dict_get kvs k of None \<Rightarrow> Inl KeyError | Some v \<Rightarrow> Inr v)"
| "json_key _ k = Inl TypeError"

fun py_len :: "json \<Rightarrow> py_exc + nat" where
  \<comment> \<open>\<open>len(v)\<close>; a decoded object has one entry per distinct key\<close>
  "py_len (JArr xs) = Inr (length xs)"
| "py_len (JStr s) = Inr (length s)"
| "py_len (JObj kvs) = Inr (length (remdups (map fst kvs)))"
| "py_len _ = Inl TypeError"

fun json_iter :: "json \<Rightarrow> py_exc + json list" where
  \<comment> \<open>\<open>for p in v\<close>: list elements, dictionary keys, string characters\<close>
  "json_iter (JArr xs) = Inr xs"
| "json_iter (JObj kvs) = Inr (map JStr (remdups (map fst kvs)))"
| "json_iter (JStr s) = Inr (map (\<lambda>c. JStr [c]) s)"
| "json_iter _ = Inl TypeError"

definition hex_digit :: "nat \<Rightarrow> char" where
  "hex_digit d = ''0123456789abcdef'' ! d"

definition is_printable :: "char \<Rightarrow> bool" where
  \<comment> \<open>\<open>str.isprintable\<close> on U+0000..U+00FF: not a control, not NBSP, not the soft hyphen\<close>
  "is_printable c \<longleftrightarrow> (let n = of_char c :: nat in \<not> (n < 32 \<or> (127 \<le> n \<and> n \<le> 160) \<or> n = 173))"

definition repr_char :: "char \<Rightarrow> char \<Rightarrow> string" where
  \<comment> \<open>one character inside a \<open>repr\<close> string literal delimited by \<open>q\<close>\<close>
  "repr_char q c =
     (if c = q \<or> c = CHR 0x5C then [CHR 0x5C, c]
      else if c = CHR 0x09 then [CHR 0x5C, CHR ''t'']
      else if c = CHR 0x0A then [CHR 0x5C, CHR ''n'']
      else if c = CHR 0x0D then [CHR 0x5C, CHR ''r'']
      else if \<not> is_printable c
      then [CHR 0x5C, CHR ''x'', hex_digit (of_char c div 16), hex_digit (of_char c mod 16)]
      else [c])"

definition str_repr :: "string \<Rightarrow> string" where
  \<comment> \<open>\<open>repr(s)\<close>: single quotes unless the text has one and no double quote\<close>
  "str_repr s =
     (let q = (if CHR 0x27 \<in> set s \<and> CHR 0x22 \<notin> set s then CHR 0x22 else CHR 0x27) in
      q # concat (map (repr_char q) s) @ [q])"

fun json_repr :: "json \<Rightarrow> string"
  and json_repr_list :: "json list \<Rightarrow> string list"
  and json_repr_items :: "(string \<times> json) list \<Rightarrow> (string \<times> string) list" where
  \<comment> \<open>\<open>repr\<close> of the Python value \<open>json.loads\<close> returns\<close>
  "json_repr JNull = ''None''"
| "json_repr (JBool b) = (if b then ''True'' else ''False'')"
| "json_repr (JNum n) = py_str_int n"
| "json_repr (JStr s) = str_repr s"
| "json_repr (JArr xs) = ''['' @ py_join '', '' (json_repr_list xs) @ '']''"
| "json_repr (JObj kvs) =
     ''{'' @ py_join '', '' (map (\<lambda>(k, r). str_repr k @ '': '' @ r)
                            (fold (\<lambda>(k, r). dict_set k r) (json_repr_items kvs) [])) @ ''}''"
| "json_repr_list [] = []"
| "json_repr_list (x # xs) = json_repr x # json_repr_list xs"
| "json_repr_items [] = []"
| "json_repr_items ((k, v) # kvs) = (k, json_repr v) # json_repr_items kvs"

definition json_fstr :: "json \<Rightarrow> string" where
  \<comment> \<open>\<open>f"{v}"\<close>, that is \<open>str(v)\<close>: a string prints as itself, anything else as its \<open>repr\<close>\<close>
  "json_fstr v = (case v of JStr s \<Rightarrow> s | _ \<Rightarrow> json_repr v)"

section \<open>The response models\<close>

record product =
  \<comment> \<open>\<open>models.Product\<close>\<close>
  prod_title :: string
  prod_url :: string
  prod_price :: "pyfloat option"
  prod_image :: "string option"

record brand_insights =
  \<comment> \<open>\<open>models.BrandInsights\<close>\<close>
  product_catalog :: "product list"
  hero_products :: "product list"
  privacy_policy :: "string option"
  refund_policy :: "string option"
  faqs :: "json list"
  social_handles :: "(string \<times> string) list"
  contact :: contact_details
  about :: "string option"
  important_links :: "(string \<times> string) list"

fun valid_str :: "json \<Rightarrow> py_exc + string" where
  \<comment> \<open>pydantic validation of a \<open>str\<close> field\<close>
  "valid_str (JStr s) = Inr s"
| "valid_str _ = Inl ValidationError"

fun valid_opt_str :: "json \<Rightarrow> py_exc + string option" where
  \<comment> \<open>pydantic validation of an \<open>Optional[str]\<close> field\<close>
  "valid_opt_str JNull = Inr None"
| "valid_opt_str (JStr s) = Inr (Some s)"
| "valid_opt_str _ = Inl ValidationError"

section \<open>Feed products and hero products\<close>

definition raw_price :: "json \<Rightarrow> py_exc + pyfloat option" where
  \<comment> \<open>\<open>float(p['variants'][0]['price']) if p.get('variants') and
    p['variants'][0].get('price') else None\<close>\<close>
  "raw_price p =
     exc_bind (json_get p ''variants'' JNull) (\<lambda>vs.
       if \<not> py_truthy vs then Inr None
       else exc_bind (json_index0 vs) (\<lambda>v0.
         exc_bind (json_get v0 ''price'' JNull) (\<lambda>pr.
           if \<not> py_truthy pr then Inr None
           else exc_bind (py_float pr) (\<lambda>f. Inr (Some f)))))"

definition raw_image :: "json \<Rightarrow> py_exc + json" where
  \<comment> \<open>\<open>p['images'][0]['src'] if p.get('images') and len(p['images']) > 0 else None\<close>\<close>
  "raw_image p =
     exc_bind (json_get p ''images'' JNull) (\<lambda>is.
       if \<not> py_truthy is then Inr JNull
       else exc_bind (py_len is) (\<lambda>n.
         if n = 0 then Inr JNull
         else exc_bind (json_index0 is) (\<lambda>i0. json_key i0 ''src'')))"

definition product_of_raw :: "string \<Rightarrow> json \<Rightarrow> py_exc + product" where
  \<comment> \<open>lines 33-38 (and 115-120) for one raw product \<open>p\<close> of the site \<open>site\<close>\<close>
  "product_of_raw site p =
     exc_bind (json_get p ''title'' (JStr [])) (\<lambda>t.
     exc_bind (json_get p ''handle'' (JStr [])) (\<lambda>h.
     exc_bind (raw_price p) (\<lambda>pr.
     exc_bind (raw_image p) (\<lambda>im.
     exc_bind (valid_str t) (\<lambda>title.
     exc_bind (valid_opt_str im) (\<lambda>image.
       Inr \<lparr>prod_title = title, prod_url = py_rstrip CHR ''/'' site @ ''/products/'' @ json_fstr h,
            prod_price = pr, prod_image = image\<rparr>))))))"

fun products_of_raw :: "string \<Rightarrow> json list \<Rightarrow> py_exc + product list" where
  \<comment> \<open>the \<open>for p in raw_products\<close> loop: the first raising product aborts it\<close>
  "products_of_raw site [] = Inr []"
| "products_of_raw site (p # ps) =
     exc_bind (product_of_raw site p) (\<lambda>x. exc_bind (products_of_raw site ps) (\<lambda>xs. Inr (x # xs)))"

definition product_of_hero :: "hero \<Rightarrow> product" where
  \<comment> \<open>lines 42-47: a hero product has no price\<close>
  "product_of_hero hp =
     \<lparr>prod_title = hero_title hp, prod_url = hero_url hp, prod_price = None, prod_image = hero_image hp\<rparr>"

end
