(* ===== verification/Store.thy ===== *)
theory Store
  imports Prelude
begin

text \<open>
  The persistence of \<open>src/app/main.py\<close>: the two tables of \<open>src/app/schemas.py\<close>
  (\<open>brands\<close> and \<open>brand_insights\<close>), the save block of \<open>fetch_insights\<close>
  (lines 66-88) and the two read endpoints \<open>list_brands\<close> and \<open>get_brand_insights\<close>
  (lines 156-170). The database is a value of \<open>'j db\<close>, the rows of each table in
  primary-key order; \<open>'j\<close> is the stored insights document, so the store is
  independent of what the scraper puts in it. A new row gets SQLite's next rowid (one
  more than the largest present). Each \<open>db.commit()\<close> may fail with an
  \<open>SQLAlchemyError\<close>; its outcome is an argument of the save, and a failure rolls
  back the uncommitted work and is swallowed. \<open>created_at\<close> (server time) is not
  modelled. The spec's contract for this collaborator is an abstract map from site to
  latest insights (\<open>store_abs\<close>), which the tables refine when requests run one at a
  time (\<open>db_reach\<close>); their interleaving is the subject of \<open>Session\<close>.
\<close>

record brand_row =
  \<comment> \<open>\<open>schemas.Brand\<close>\<close>
  brand_id :: nat
  website_url :: string

record 'j insight_row =
  \<comment> \<open>\<open>schemas.BrandInsight\<close>\<close>
  insight_id :: nat
  insight_brand :: nat
  insights_json :: 'j

record 'j db =
  brands :: "brand_row list"
  insights :: "'j insight_row list"

datatype api_error =
    HTTPError nat \<comment> \<open>an \<open>HTTPException\<close> with this status code\<close>
  | Unhandled py_exc \<comment> \<open>an exception FastAPI turns into a 500 response\<close>

definition empty_db :: "'j db" where
  "empty_db = \<lparr>brands = [], insights = []\<rparr>"

definition next_id :: "nat list \<Rightarrow> nat" where
  \<comment> \<open>SQLite's rowid for a new row: one more than the largest in use\<close>
  "next_id ids = Suc (fold max ids 0)"

definition find_brand :: "'j db \<Rightarrow> string \<Rightarrow> brand_row option" where
  \<comment> \<open>\<open>db.query(Brand).filter(Brand.website_url == url).first()\<close>\<close>
  "find_brand d url = find (\<lambda>b. website_url b = url) (brands d)"

definition find_insight :: "'j db \<Rightarrow> nat \<Rightarrow> 'j insight_row option" where
  \<comment> \<open>\<open>db.query(BrandInsight).filter(BrandInsight.brand_id == bid).first()\<close>\<close>
  "find_insight d bid = find (\<lambda>i. insight_brand i = bid) (insights d)"

definition put_insight :: "nat \<Rightarrow> 'j \<Rightarrow> bool \<Rightarrow> 'j db \<Rightarrow> 'j db" where
  \<comment> \<open>lines 76-83: insert or update the brand's insight row, then commit (\<open>ok\<close>)\<close>
  "put_insight bid j ok d =
     (if \<not> ok then d
      else
        (case find_insight d bid of
           None \<Rightarrow> d\<lparr>insights := insights d @
                    [\<lparr>insight_id = next_id (map insight_id (insights d)), insight_brand = bid, insights_json = j\<rparr>]\<rparr>
         | Some i \<Rightarrow> d\<lparr>insights := map (\<lambda>r. if insight_id r = insight_id i then r\<lparr>insights_json := j\<rparr> else r)
                                   (insights d)\<rparr>))"

definition save_insights :: "string \<Rightarrow> 'j \<Rightarrow> bool \<Rightarrow> bool \<Rightarrow> 'j db \<Rightarrow> 'j db" where
  \<comment> \<open>lines 67-88 for the request URL \<open>url\<close> and the document \<open>j\<close>; \<open>ok1\<close>: the commit
    of a new brand succeeds, \<open>ok2\<close>: the commit of the insight succeeds\<close>
  "save_insights url j ok1 ok2 d =
     (case find_brand d url of
        Some b \<Rightarrow> put_insight (brand_id b) j ok2 d
      | None \<Rightarrow>
          if ok1 then
            (let b = \<lparr>brand_id = next_id (map brand_id (brands d)), website_url = url\<rparr> in
             put_insight (brand_id b) j ok2 (d\<lparr>brands := brands d @ [b]\<rparr>))
          else d)"

definition list_brands :: "'j db \<Rightarrow> (nat \<times> string) list" where
  \<comment> \<open>\<open>list_brands\<close> without \<open>created_at\<close>\<close>
  "list_brands d = map (\<lambda>b. (brand_id b, website_url b)) (brands d)"

definition get_brand_insights :: "'j db \<Rightarrow> nat \<Rightarrow> api_error + 'j" where
  \<comment> \<open>\<open>get_brand_insights\<close>; \<open>json.loads(insight.insights_json)\<close> gives back the stored
    document\<close>
  "get_brand_insights d bid =
     (case find (\<lambda>b. brand_id b = bid) (brands d) of
        None \<Rightarrow> Inl (HTTPError 404)
      | Some b \<Rightarrow>
          (case find_insight d bid of
             None \<Rightarrow> Inl (HTTPError 404)
           | Some i \<Rightarrow> Inr (insights_json i)))"

inductive db_reach :: "'j db \<Rightarrow> bool" where
  \<comment> \<open>the databases a sequence of \<open>/fetch-insights\<close> requests can leave behind\<close>
  init: "db_reach empty_db"
| save: "db_reach d \<Longrightarrow> db_reach (save_insights url j ok1 ok2 d)"

definition db_inv :: "'j db \<Rightarrow> bool" where
  \<comment> \<open>unique site URLs and keys, at most one insight row per brand, no dangling brand id\<close>
  "db_inv d \<longleftrightarrow>
     distinct (map website_url (brands d)) \<and> distinct (map brand_id (brands d)) \<and>
     distinct (map insight_id (insights d)) \<and> distinct (map insight_brand (insights d)) \<and>
     (\<forall>i \<in> set (insights d). insight_brand i \<in> set (map brand_id (brands d)))"

definition store_abs :: "'j db \<Rightarrow> string \<Rightarrow> 'j option" where
  \<comment> \<open>the spec's view: the latest insights stored for a site\<close>
  "store_abs d url =
     (case find_brand d url of
        None \<Rightarrow> None
      | Some b \<Rightarrow> map_option insights_json (find_insight d (brand_id b)))"

section \<open>Lemmas\<close>

lemma fold_max_start: "a \<le> fold max xs (a::nat)"
  by (induction xs arbitrary: a) (simp, metis fold_simps(2) max.cobounded2 order_trans)

lemma fold_max_ge: "x \<in> set xs \<Longrightarrow> x \<le> fold max xs (a::nat)"
proof (induction xs arbitrary: a)
  case Nil
  then show ?case by simp
next
  case (Cons y ys)
  show ?case
  proof (cases "x = y")
    case True
    then show ?thesis using fold_max_start [of "max y a" ys] by simp
  next
    case False
    with Cons show ?thesis by simp
  qed
qed

lemma next_id_fresh: "next_id ids \<notin> set ids"
  using fold_max_ge [of _ ids 0] by (fastforce simp: next_id_def)

lemma find_map_option: "find P (map f xs) = map_option f (find (P \<circ> f) xs)"
  by (induction xs) auto

lemma find_append_one:
  "find P (xs @ [x]) = (case find P xs of None \<Rightarrow> if P x then Some x else None | Some y \<Rightarrow> Some y)"
  by (induction xs) auto

lemma find_Some_in: "find P xs = Some x \<Longrightarrow> x \<in> set xs \<and> P x"
  by (metis find_Some_iff nth_mem)

lemma insight_put:
  assumes "distinct (map insight_id (insights d))"
  shows "map_option insights_json (find_insight (put_insight bid j True d) b') =
           (if b' = bid then Some j else map_option insights_json (find_insight d b'))"
proof (cases "find_insight d bid")
  case None
  then show ?thesis
    by (auto simp: put_insight_def find_insight_def find_append_one split: option.split)
next
  case (Some i)
  let ?f = "\<lambda>r. if insight_id r = insight_id i then r\<lparr>insights_json := j\<rparr> else r"
  have i: "i \<in> set (insights d)" "insight_brand i = bid"
    using Some find_Some_in unfolding find_insight_def by fastforce+
  have f: "find_insight (put_insight bid j True d) b' = map_option ?f (find_insight d b')"
    using Some by (simp add: put_insight_def find_insight_def find_map_option comp_def)
  show ?thesis
  proof (cases "find_insight d b'")
    case None
    with f show ?thesis using i Some by auto
  next
    case (Some r)
    then have r: "r \<in> set (insights d)" "insight_brand r = b'"
      using find_Some_in unfolding find_insight_def by fastforce+
    have "insight_id r = insight_id i \<longleftrightarrow> r = i"
      using assms r(1) i(1) by (auto dest: inj_onD simp: distinct_map)
    with f Some r(2) i(2) \<open>find_insight d bid = Some i\<close> show ?thesis by auto
  qed
qed

lemma distinct_map_eq: "distinct (map g xs) \<Longrightarrow> x \<in> set xs \<Longrightarrow> y \<in> set xs \<Longrightarrow> g x = g y \<Longrightarrow> x = y"
  by (auto dest: inj_onD simp: distinct_map)

lemma put_insight_inv:
  assumes "db_inv d" "bid \<in> set (map brand_id (brands d))"
  shows "db_inv (put_insight bid j ok d)"
proof (cases "ok")
  case False
  then show ?thesis using assms(1) by (simp add: put_insight_def)
next
  case True
  show ?thesis
  proof (cases "find_insight d bid")
    case None
    then have "bid \<notin> set (map insight_brand (insights d))"
      by (auto simp: find_insight_def find_None_iff)
    with None True assms next_id_fresh [of "map insight_id (insights d)"] show ?thesis
      by (auto simp: db_inv_def put_insight_def)
  next
    case (Some i)
    let ?f = "\<lambda>r. if insight_id r = insight_id i then r\<lparr>insights_json := j\<rparr> else r"
    have e: "\<And>r. insight_id (?f r) = insight_id r" "\<And>r. insight_brand (?f r) = insight_brand r"
      by simp_all
    show ?thesis using Some True assms(1)
      by (simp add: db_inv_def put_insight_def e map_map comp_def) auto
  qed
qed

lemma add_brand_inv:
  assumes "db_inv d" "find_brand d url = None"
  shows "db_inv (d\<lparr>brands := brands d @ [\<lparr>brand_id = next_id (map brand_id (brands d)), website_url = url\<rparr>]\<rparr>)"
  using assms next_id_fresh [of "map brand_id (brands d)"]
  by (auto simp: db_inv_def find_brand_def find_None_iff)

lemma find_brand_in: "find_brand d url = Some b \<Longrightarrow> b \<in> set (brands d) \<and> website_url b = url"
  unfolding find_brand_def by (rule find_Some_in)

lemma save_inv: "db_inv d \<Longrightarrow> db_inv (save_insights url j ok1 ok2 d)"
proof (cases "find_brand d url")
  case None
  assume inv: "db_inv d"
  let ?b = "\<lparr>brand_id = next_id (map brand_id (brands d)), website_url = url\<rparr>"
  have "db_inv (d\<lparr>brands := brands d @ [?b]\<rparr>)" using inv None by (rule add_brand_inv)
  then have "db_inv (put_insight (brand_id ?b) j ok2 (d\<lparr>brands := brands d @ [?b]\<rparr>))"
    by (rule put_insight_inv) simp
  with None inv show ?thesis by (simp add: save_insights_def Let_def)
next
  case (Some b)
  assume inv: "db_inv d"
  from Some have "brand_id b \<in> set (map brand_id (brands d))" by (auto dest: find_brand_in)
  with inv have "db_inv (put_insight (brand_id b) j ok2 d)" by (rule put_insight_inv)
  with Some show ?thesis by (simp add: save_insights_def)
qed

lemma store_abs_put:
  assumes inv: "db_inv d" and b: "b \<in> set (brands d)"
  shows "store_abs (put_insight (brand_id b) j True d) = (store_abs d)(website_url b \<mapsto> j)"
proof
  fix u
  have fb: "find_brand (put_insight (brand_id b) j True d) u = find_brand d u"
    by (simp add: find_brand_def put_insight_def split: option.split)
  have dist: "distinct (map insight_id (insights d))" using inv by (simp add: db_inv_def)
  show "store_abs (put_insight (brand_id b) j True d) u = ((store_abs d)(website_url b \<mapsto> j)) u"
  proof (cases "find_brand d u")
    case None
    then have "u \<noteq> website_url b" using b by (auto simp: find_brand_def find_None_iff)
    with None fb show ?thesis by (simp add: store_abs_def)
  next
    case (Some b')
    then have b': "b' \<in> set (brands d)" "website_url b' = u" by (auto dest: find_brand_in)
    have "brand_id b' = brand_id b \<longleftrightarrow> u = website_url b"
      using inv b b' by (auto simp: db_inv_def dest: distinct_map_eq)
    with Some fb insight_put [OF dist] show ?thesis by (simp add: store_abs_def)
  qed
qed

lemma store_abs_put_fail: "put_insight bid j False d = d"
  by (simp add: put_insight_def)

lemma store_abs_add_brand:
  assumes inv: "db_inv d" and none: "find_brand d url = None"
  shows "store_abs (d\<lparr>brands := brands d @ [\<lparr>brand_id = next_id (map brand_id (brands d)), website_url = url\<rparr>]\<rparr>) =
         store_abs d"
proof
  fix u
  let ?b = "\<lparr>brand_id = next_id (map brand_id (brands d)), website_url = url\<rparr>"
  let ?d = "d\<lparr>brands := brands d @ [?b]\<rparr>"
  have refs: "\<forall>i \<in> set (insights d). insight_brand i \<in> set (map brand_id (brands d))"
    using inv by (simp add: db_inv_def)
  have "\<forall>i \<in> set (insights d). insight_brand i \<noteq> brand_id ?b"
    using refs next_id_fresh [of "map brand_id (brands d)"] by fastforce
  then have ni: "find_insight d (next_id (map brand_id (brands d))) = None"
    by (simp add: find_insight_def find_None_iff)
  have fi: "\<And>bs. find_insight (d\<lparr>brands := bs\<rparr>) = find_insight d" by (simp add: find_insight_def fun_eq_iff)
  have fb: "find_brand ?d u = (case find_brand d u of None \<Rightarrow> if url = u then Some ?b else None | Some y \<Rightarrow> Some y)"
    by (simp add: find_brand_def find_append_one)
  show "store_abs ?d u = store_abs d u"
  proof (cases "find_brand d u")
    case None
    with fb fi ni none show ?thesis by (simp add: store_abs_def)
  next
    case (Some y)
    with fb fi show ?thesis by (simp add: store_abs_def)
  qed
qed

lemma store_abs_save:
  assumes inv: "db_inv d"
  shows "store_abs (save_insights url j ok1 ok2 d) =
           (if ok2 \<and> (find_brand d url \<noteq> None \<or> ok1) then (store_abs d)(url \<mapsto> j) else store_abs d)"
proof (cases "find_brand d url")
  case None
  let ?b = "\<lparr>brand_id = next_id (map brand_id (brands d)), website_url = url\<rparr>"
  let ?d = "d\<lparr>brands := brands d @ [?b]\<rparr>"
  have inv': "db_inv ?d" using inv None by (rule add_brand_inv)
  have abs': "store_abs ?d = store_abs d" using inv None by (rule store_abs_add_brand)
  have "store_abs (put_insight (brand_id ?b) j True ?d) = (store_abs ?d)(url \<mapsto> j)"
    using store_abs_put [OF inv', of ?b j] by simp
  with None abs' show ?thesis
    by (cases ok2) (simp_all add: save_insights_def store_abs_put_fail)
next
  case (Some b)
  then have b: "b \<in> set (brands d)" "website_url b = url" by (auto dest: find_brand_in)
  with Some store_abs_put [OF inv b(1), of j] show ?thesis
    by (cases ok2) (simp_all add: save_insights_def store_abs_put_fail)
qed

lemma empty_db_inv: "db_inv empty_db"
  by (simp add: db_inv_def empty_db_def)

lemma reach_inv: "db_reach d \<Longrightarrow> db_inv d"
  by (induction rule: db_reach.induct) (simp_all add: empty_db_inv save_inv)

text \<open>
  C27. Saving the insights of a site keeps the database well formed (one brand per
  URL, unique keys, at most one insight row per brand, no dangling brand id),
  whichever of the two commits fails.
\<close>

theorem save_preserves_inv: "db_inv d \<Longrightarrow> db_inv (save_insights url j ok1 ok2 d)"
  by (rule save_inv)

text \<open>
  C28. On every reachable database, the save block refines the spec's store: the
  latest insights replace the prior ones for the request URL exactly when the insight
  commit succeeds (and, for a new site, the brand commit too); otherwise the abstract
  store is unchanged.
\<close>

theorem store_refines:
  "db_reach d \<Longrightarrow> store_abs (save_insights url j ok1 ok2 d) =
     (if ok2 \<and> (find_brand d url \<noteq> None \<or> ok1) then (store_abs d)(url \<mapsto> j) else store_abs d)"
  by (rule store_abs_save [OF reach_inv])

lemma get_of_abs:
  assumes "store_abs d url = Some j"
  shows "\<exists>b. find_brand d url = Some b \<and> get_brand_insights d (brand_id b) = Inr j"
proof -
  obtain b where b: "find_brand d url = Some b"
    using assms by (auto simp: store_abs_def split: option.splits)
  with assms obtain i where i: "find_insight d (brand_id b) = Some i" "insights_json i = j"
    by (auto simp: store_abs_def)
  from b have "b \<in> set (brands d)" by (auto dest: find_brand_in)
  then have "find (\<lambda>x. brand_id x = brand_id b) (brands d) \<noteq> None" by (auto simp: find_None_iff)
  then obtain b' where "find (\<lambda>x. brand_id x = brand_id b) (brands d) = Some b'" by blast
  with i have "get_brand_insights d (brand_id b) = Inr j" by (simp add: get_brand_insights_def)
  with b show ?thesis by blast
qed

text \<open>
  After a successful save, \<open>GET /brands/{id}/insights\<close> for the brand stored under
  the request URL returns the saved document.
\<close>

theorem save_then_get:
  assumes "db_reach d" and "ok2" and "find_brand d url \<noteq> None \<or> ok1"
  shows "\<exists>b. find_brand (save_insights url j ok1 ok2 d) url = Some b \<and>
             get_brand_insights (save_insights url j ok1 ok2 d) (brand_id b) = Inr j"
proof -
  have inv: "db_inv d" using assms(1) by (rule reach_inv)
  then have "store_abs (save_insights url j ok1 ok2 d) url = Some j"
    using assms(2,3) by (simp add: store_abs_save)
  then show ?thesis by (rule get_of_abs)
qed

theorem save_preserves_inv_witness:
  "db_inv (save_insights ''https://b.test'' (2::nat) True True (save_insights ''https://a.test'' 1 True True empty_db))"
proof (rule save_preserves_inv)
  show "db_inv (save_insights ''https://a.test'' (1::nat) True True empty_db)"
    by (simp add: db_inv_def save_insights_def put_insight_def find_brand_def find_insight_def empty_db_def next_id_def)
qed

lemma store_abs_empty: "store_abs \<lparr>brands = [], insights = []\<rparr> = Map.empty"
  by (simp add: fun_eq_iff store_abs_def find_brand_def)

theorem store_refines_witness:
  "store_abs (save_insights ''https://a.test'' (1::nat) True True empty_db) = [''https://a.test'' \<mapsto> 1]"
  using store_refines [OF db_reach.init, of "''https://a.test''" "1::nat" True True]
  by (simp add: store_abs_empty find_brand_def empty_db_def)

theorem save_then_get_witness:
  "get_brand_insights (save_insights ''https://a.test'' (1::nat) True True empty_db) 1 = Inr 1"
proof -
  obtain b where "find_brand (save_insights ''https://a.test'' (1::nat) True True empty_db) ''https://a.test'' = Some b"
    "get_brand_insights (save_insights ''https://a.test'' (1::nat) True True empty_db) (brand_id b) = Inr 1"
    using save_then_get [OF db_reach.init, of True "''https://a.test''" True "1::nat"]
    by (auto simp: find_brand_def empty_db_def)
  moreover have "brand_id b = 1" using calculation(1)
    by (auto simp: find_brand_def save_insights_def put_insight_def empty_db_def next_id_def find_insight_def)
  ultimately show ?thesis by simp
qed

lemma raw_url_two_brands:
  "list_brands (save_insights ''https://a.test/'' (2::nat) True True (save_insights ''https://a.test'' 1 True True empty_db)) =
     [(1, ''https://a.test''), (2, ''https://a.test/'')]"
  by (simp add: list_brands_def save_insights_def put_insight_def find_brand_def find_insight_def empty_db_def
      next_id_def)

end
