(* ===== verification/Api.thy ===== *)
theory Api
  imports Models Store Faq Policy Links
begin

text \<open>
  The two extraction endpoints of \<open>src/app/main.py\<close>. \<open>POST /fetch-insights\<close>
  (\<open>fetch_insights\<close>, lines 25-89) runs every resolver of the scraper on the request
  URL, turns an empty catalogue into HTTP 401, builds the response model and saves it
  (the save block is \<open>Store.save_insights\<close>). \<open>POST /fetch-competitors\<close>
  (\<open>fetch_competitors\<close>, lines 91-147) asks the language model for competitor
  storefronts, extracts every \<open>https?://[\w\.-]+\<close> match of its reply, runs the same
  extraction on each URL, skipping the ones that raise, and wraps the whole body in a
  \<open>try\<close> whose \<open>except Exception\<close> answers 500. A result is \<open>api_error + _\<close>:
  an \<open>HTTPException\<close> status, or an unhandled exception (a 500 response).
\<close>

section \<open>\<open>POST /fetch-insights\<close>\<close>

definition insight_products :: "string \<Rightarrow> json \<Rightarrow> api_error + product list" where
  \<comment> \<open>lines 28-38 once the catalogue is fetched: 401 when it is falsy, else the loop\<close>
  "insight_products url raw =
     (if \<not> py_truthy raw then Inl (HTTPError 401)
      else case exc_bind (json_iter raw) (products_of_raw url) of
             Inl e \<Rightarrow> Inl (Unhandled e)
           | Inr ps \<Rightarrow> Inr ps)"

definition site_insights ::
  "runtime \<Rightarrow> scraper \<Rightarrow> product list \<Rightarrow> py_exc + brand_insights" where
  \<comment> \<open>lines 39-65 (and 121-137): the other resolvers, in the order they run; only the
    contact and about resolvers can raise\<close>
  "site_insights rt sc ps =
     (let heroes = map product_of_hero (get_hero_products rt sc);
          privacy = get_privacy_policy rt sc;
          refund = get_refund_policy rt sc;
          fq = get_faqs rt sc;
          social = get_social_handles rt sc in
      exc_bind (get_contact_details rt sc) (\<lambda>cd.
      exc_bind (get_about rt sc) (\<lambda>ab.
        Inr \<lparr>product_catalog = ps, hero_products = heroes, privacy_policy = privacy,
             refund_policy = refund, faqs = fq, social_handles = social, contact = cd,
             about = ab, important_links = get_important_links rt sc\<rparr>)))"

definition fetch_insights ::
  "runtime \<Rightarrow> string \<Rightarrow> bool \<Rightarrow> bool \<Rightarrow> brand_insights db \<Rightarrow>
     (api_error + brand_insights) \<times> brand_insights db" where
  \<comment> \<open>the endpoint on the database \<open>d\<close>; \<open>ok1\<close>, \<open>ok2\<close>: the outcomes of the two commits\<close>
  "fetch_insights rt url ok1 ok2 d =
     (let sc = scraper_init url in
      case insight_products url (get_product_catalog rt sc) of
        Inl e \<Rightarrow> (Inl e, d)
      | Inr ps \<Rightarrow>
          (case site_insights rt sc ps of
             Inl e \<Rightarrow> (Inl (Unhandled e), d)
           | Inr ins \<Rightarrow> (Inr ins, save_insights url ins ok1 ok2 d)))"

section \<open>\<open>POST /fetch-competitors\<close>\<close>

definition is_word_char :: "char \<Rightarrow> bool" where
  \<comment> \<open>the class \<open>\w\<close> of a \<open>str\<close> pattern on U+0000..U+00FF: \<open>_\<close> and the characters for
    which \<open>str.isalnum\<close> holds\<close>
  "is_word_char c \<longleftrightarrow> (let n = of_char c :: nat in
     (48 \<le> n \<and> n \<le> 57) \<or> (65 \<le> n \<and> n \<le> 90) \<or> n = 95 \<or> (97 \<le> n \<and> n \<le> 122) \<or>
     n = 170 \<or> n = 178 \<or> n = 179 \<or> n = 181 \<or> n = 185 \<or> n = 186 \<or> (188 \<le> n \<and> n \<le> 190) \<or>
     (192 \<le> n \<and> n \<le> 255 \<and> n \<noteq> 215 \<and> n \<noteq> 247))"

definition url_char :: "char \<Rightarrow> bool" where
  \<comment> \<open>\<open>[\w\.-]\<close>\<close>
  "url_char c \<longleftrightarrow> is_word_char c \<or> c = CHR ''.'' \<or> c = CHR ''-''"

definition url_scheme_len :: "string \<Rightarrow> nat option" where
  \<comment> \<open>the length of the \<open>https?://\<close> part at the start of \<open>s\<close>: \<open>s?\<close> first tries to
    take the \<open>s\<close>\<close>
  "url_scheme_len s =
     (if py_startswith ''https://'' s then Some 8 else if py_startswith ''http://'' s then Some 7 else None)"

definition match_url :: "string \<Rightarrow> (string \<times> string) option" where
  \<comment> \<open>a match of \<open>https?://[\w\.-]+\<close> at the start of \<open>s\<close> (the greedy longest one) and
    the rest of \<open>s\<close>\<close>
  "match_url s =
     (case url_scheme_len s of
        None \<Rightarrow> None
      | Some k \<Rightarrow>
          if takeWhile url_char (drop k s) = [] then None
          else Some (take k s @ takeWhile url_char (drop k s), dropWhile url_char (drop k s)))"

function url_findall :: "string \<Rightarrow> string list" where
  \<comment> \<open>\<open>re.findall(r'https?://[\w\.-]+', content)\<close>: leftmost matches, left to right\<close>
  "url_findall s =
     (case match_url s of
        Some (m, rest) \<Rightarrow> m # url_findall rest
      | None \<Rightarrow> (case s of [] \<Rightarrow> [] | c # cs \<Rightarrow> url_findall cs))"
  by pat_completeness auto
termination
proof (relation "measure length")
  show "wf (measure length)" by simp
next
  fix s x2 m rest
  assume "match_url s = Some x2" "(m, rest) = x2"
  then obtain k where k: "takeWhile url_char (drop k s) \<noteq> []" "rest = dropWhile url_char (drop k s)"
    by (auto simp: match_url_def split: option.splits if_splits)
  have "drop k s = takeWhile url_char (drop k s) @ dropWhile url_char (drop k s)" by simp
  then have "length (dropWhile url_char (drop k s)) < length (drop k s)"
    using k(1) by (metis length_append less_add_same_cancel2 length_greater_0_conv)
  then show "(rest, s) \<in> measure length" using k(2) by simp
next
  fix s c cs
  assume "match_url s = None" "s = c # cs"
  then show "(cs, s) \<in> measure length" by simp
qed

declare url_findall.simps [simp del]

definition url_lang :: "string \<Rightarrow> bool" where
  \<comment> \<open>the strings the pattern \<open>https?://[\w\.-]+\<close> of line 106 matches\<close>
  "url_lang m \<longleftrightarrow>
     (\<exists>pre body. (pre = ''https://'' \<or> pre = ''http://'') \<and> m = pre @ body \<and> body \<noteq> [] \<and>
        list_all url_char body)"

definition competitor_prompt :: "string \<Rightarrow> string" where
  "competitor_prompt url =
     ''List 5 direct competitor Shopify store URLs for the brand at '' @ url @ ''. '' @
     ''Return only the URLs, one per line.''"

definition competitor_insights :: "runtime \<Rightarrow> string \<Rightarrow> py_exc + brand_insights" where
  \<comment> \<open>lines 111-137 for one competitor URL: no 401 check, no persistence\<close>
  "competitor_insights rt u =
     (let sc = scraper_init u in
      exc_bind (exc_bind (json_iter (get_product_catalog rt sc)) (products_of_raw u)) (\<lambda>ps.
        site_insights rt sc ps))"

definition competitor_batch :: "runtime \<Rightarrow> string list \<Rightarrow> api_error + brand_insights list" where
  \<comment> \<open>lines 108-144: a competitor that raises is skipped; none left gives 404\<close>
  "competitor_batch rt urls =
     (let res = concat (map (\<lambda>u. case competitor_insights rt u of Inl e \<Rightarrow> [] | Inr i \<Rightarrow> [i]) urls) in
      if res = [] then Inl (HTTPError 404) else Inr res)"

definition fetch_competitors :: "runtime \<Rightarrow> string \<Rightarrow> api_error + brand_insights list" where
  \<comment> \<open>the endpoint: every exception of the body, the 404 included, becomes a 500; a
    raised completion and a null reply (\<open>re.findall\<close> on \<open>None\<close> raises
    \<open>TypeError\<close>) both end there\<close>
  "fetch_competitors rt url =
     (let body =
        (case openai_client rt of
           Inl e \<Rightarrow> Inl (Unhandled e)
         | Inr _ \<Rightarrow>
             (case llm_complete rt (competitor_prompt url) 256 of
                None \<Rightarrow> Inl (Unhandled TypeError)
              | Some content \<Rightarrow> competitor_batch rt (url_findall content))) in
      case body of
        Inl e \<Rightarrow> Inl (HTTPError 500)
      | Inr res \<Rightarrow> Inr res)"

section \<open>Example sites\<close>

definition mug_raw :: json where
  "mug_raw = JObj [(''title'', JStr ''Mug''), (''handle'', JStr ''mug''),
     (''variants'', JArr [JObj [(''price'', JStr ''19.99'')]]),
     (''images'', JArr [JObj [(''src'', JStr ''https://cdn.test/m.jpg'')]])]"

definition cup_raw :: json where
  "cup_raw = JObj [(''title'', JStr ''Cup''), (''handle'', JNum 7)]"

definition competitor_reply :: string where
  "competitor_reply = ''1. https://s.test'' @ ''\<newline>'' @ ''2. https://y.test''"

definition api_rt :: runtime where
  "api_rt = \<lparr>http_get = (\<lambda>u.
       if u = ''https://s.test/products.json'' then Some \<lparr>status_code = 200, resp_text = ''feed-s''\<rparr>
       else if u = ''https://y.test/products.json'' then Some \<lparr>status_code = 200, resp_text = ''feed-y''\<rparr>
       else None),
     parse_html = (\<lambda>_. []),
     json_loads = (\<lambda>t. if t = ''feed-s'' then Some (JObj [(''products'', JArr [mug_raw])])
                      else if t = ''feed-y'' then Some (JObj [(''products'', JArr [JObj [(''title'', JNum 5)]])])
                      else None),
     phone_numbers = (\<lambda>_. []),
     llm_complete = (\<lambda>p n. if p = competitor_prompt ''https://me.test''
                           then Some competitor_reply else None),
     api_key = Some ''key'', set_order = id\<rparr>"

section \<open>Lemmas\<close>

lemma exc_bind_Inr: "exc_bind m f = Inr y \<longleftrightarrow> (\<exists>x. m = Inr x \<and> f x = Inr y)"
  by (cases m) (simp_all add: exc_bind_def)

lemma product_of_raw_url:
  "product_of_raw site p = Inr x \<Longrightarrow>
     \<exists>kvs. p = JObj kvs \<and>
       prod_url x = py_rstrip CHR ''/'' site @ ''/products/'' @
                    json_fstr (case dict_get kvs ''handle'' of None \<Rightarrow> JStr [] | Some h \<Rightarrow> h)"
  by (cases p) (auto simp: product_of_raw_def exc_bind_Inr split: option.splits)

lemma products_of_raw_nth:
  "products_of_raw site ps = Inr xs \<Longrightarrow>
     length xs = length ps \<and> (\<forall>k < length ps. product_of_raw site (ps ! k) = Inr (xs ! k))"
proof (induction ps arbitrary: xs)
  case Nil
  then show ?case by simp
next
  case (Cons p ps)
  then obtain x xs' where "product_of_raw site p = Inr x" "products_of_raw site ps = Inr xs'" "xs = x # xs'"
    by (auto simp: exc_bind_Inr)
  with Cons.IH show ?case by (auto simp: nth_Cons split: nat.split)
qed

text \<open>
  C25. A site whose product feed is missing, unreachable or empty gets HTTP 401, and
  nothing is written to the database.
\<close>

theorem fetch_insights_no_products:
  "\<not> py_truthy (get_product_catalog rt (scraper_init url)) \<Longrightarrow>
   fetch_insights rt url ok1 ok2 d = (Inl (HTTPError 401), d)"
  by (simp add: fetch_insights_def insight_products_def)

text \<open>
  C26. When every raw record of a non-empty feed maps to a product, the catalogue has
  exactly one product per record, in order, and the product of a record with handle
  \<open>h\<close> has the URL \<open>{base}/products/{h}\<close>, \<open>base\<close> being the request URL without
  trailing slashes.
\<close>

theorem catalog_products:
  assumes "products_of_raw url ps = Inr prods" and "ps \<noteq> []"
  shows "insight_products url (JArr ps) = Inr prods \<and> length prods = length ps \<and>
    (\<forall>k < length ps. \<exists>kvs. ps ! k = JObj kvs \<and>
       prod_url (prods ! k) = py_rstrip CHR ''/'' url @ ''/products/'' @
         json_fstr (case dict_get kvs ''handle'' of None \<Rightarrow> JStr [] | Some h \<Rightarrow> h))"
proof -
  from products_of_raw_nth [OF assms(1)] have l: "length prods = length ps"
    and n: "\<forall>k < length ps. product_of_raw url (ps ! k) = Inr (prods ! k)" by simp_all
  from n product_of_raw_url have "\<forall>k < length ps. \<exists>kvs. ps ! k = JObj kvs \<and>
       prod_url (prods ! k) = py_rstrip CHR ''/'' url @ ''/products/'' @
         json_fstr (case dict_get kvs ''handle'' of None \<Rightarrow> JStr [] | Some h \<Rightarrow> h)" by blast
  moreover have "insight_products url (JArr ps) = Inr prods"
    using assms by (simp add: insight_products_def exc_bind_def)
  ultimately show ?thesis using l by blast
qed

lemma match_url_shape:
  "match_url s = Some (m, rest) \<Longrightarrow>
     \<exists>pre body. m = pre @ body \<and> (pre = ''https://'' \<or> pre = ''http://'') \<and> body \<noteq> [] \<and>
       (\<forall>c \<in> set body. url_char c) \<and> s = m @ rest"
proof -
  assume h: "match_url s = Some (m, rest)"
  then obtain k where k: "url_scheme_len s = Some k" "takeWhile url_char (drop k s) \<noteq> []"
    "m = take k s @ takeWhile url_char (drop k s)" "rest = dropWhile url_char (drop k s)"
    by (auto simp: match_url_def split: option.splits if_splits)
  have "take k s = ''https://'' \<or> take k s = ''http://''"
  proof (cases "py_startswith ''https://'' s")
    case True
    then obtain t where "s = ''https://'' @ t" by (auto simp: py_startswith_prefix prefix_def)
    with True k(1) show ?thesis by (simp add: url_scheme_len_def)
  next
    case False
    with k(1) have "py_startswith ''http://'' s" "k = 7" by (auto simp: url_scheme_len_def split: if_splits)
    then obtain t where "s = ''http://'' @ t" by (auto simp: py_startswith_prefix prefix_def)
    with \<open>k = 7\<close> show ?thesis by simp
  qed
  moreover have "s = m @ rest" using k(3,4) by simp
  moreover have "\<forall>c \<in> set (takeWhile url_char (drop k s)). url_char c"
    by (meson set_takeWhileD)
  ultimately show ?thesis using k(2,3) by blast
qed

lemma match_url_sound: "match_url s = Some (m, rest) \<Longrightarrow> s = m @ rest \<and> m \<noteq> [] \<and> url_lang m"
  using match_url_shape [of s m rest] by (fastforce simp: url_lang_def list_all_iff)

lemma match_url_complete:
  assumes "0 < k" and "k \<le> length s" and "url_lang (take k s)"
  shows "\<exists>m rest. match_url s = Some (m, rest) \<and> k \<le> length m"
proof -
  obtain pre body where p: "pre = ''https://'' \<or> pre = ''http://''" and t: "take k s = pre @ body"
    and b: "body \<noteq> []" "list_all url_char body"
    using assms(3) by (auto simp: url_lang_def)
  define r where "r = drop k s"
  have "s = take k s @ drop k s" by simp
  then have s: "s = pre @ body @ r" by (simp add: t r_def)
  have k: "k = length pre + length body"
  proof -
    have "length (take k s) = k" using assms(2) by simp
    then show ?thesis by (simp add: t)
  qed
  have sch: "url_scheme_len s = Some (length pre)"
  proof (cases "pre = ''https://''")
    case True
    then have "py_startswith ''https://'' s" using s by (simp add: py_startswith_prefix)
    then show ?thesis using True by (simp add: url_scheme_len_def)
  next
    case False
    then have pre: "pre = ''http://''" using p by simp
    have "\<not> py_startswith ''https://'' s" "py_startswith ''http://'' s"
      using s pre by (simp_all add: py_startswith_prefix)
    then show ?thesis using pre by (simp add: url_scheme_len_def)
  qed
  have "drop (length pre) s = body @ r" using s by simp
  then have tw: "takeWhile url_char (drop (length pre) s) = body @ takeWhile url_char r"
    using b(2) by (simp add: list_all_iff takeWhile_append2)
  have "match_url s = Some (take (length pre) s @ body @ takeWhile url_char r,
                            dropWhile url_char (drop (length pre) s))"
    using sch tw b(1) by (simp add: match_url_def)
  moreover have "length (take (length pre) s) = length pre" using s by simp
  ultimately show ?thesis using k by auto
qed

text \<open>
  C30. The competitor-URL extraction is \<open>re.findall\<close> of its pattern: it returns
  exactly the leftmost-longest non-overlapping matches of \<open>https?://[\w\.-]+\<close>, left to
  right (\<open>findall_ref\<close> of \<open>Prelude\<close>).
\<close>

theorem url_findall_ref: "url_findall s = findall_ref url_lang s"
proof (induction s rule: url_findall.induct)
  case (1 s)
  show ?case
  proof (cases s)
    case Nil
    then show ?thesis by (simp add: url_findall.simps match_url_def url_scheme_len_def py_startswith_def)
  next
    case (Cons c cs)
    have lf: "longest_from url_lang s (length s) = map_option (length \<circ> fst) (match_url s)"
      by (rule longest_from_matcher [OF match_url_sound match_url_complete])
    show ?thesis
    proof (cases "match_url s")
      case None
      with 1 lf Cons show ?thesis by (simp add: url_findall.simps)
    next
      case (Some a)
      then obtain m rest where a: "match_url s = Some (m, rest)" by (cases a) auto
      have ih: "url_findall rest = findall_ref url_lang rest" using "1" a by simp
      have "s = m @ rest" using a match_url_sound by blast
      then have tk: "take (length m) s = m" "drop (length m) s = rest" by simp_all
      show ?thesis using lf a Cons tk ih by (simp add: url_findall.simps del: take_Suc_Cons drop_Suc_Cons)
    qed
  qed
qed

text \<open>
  C31. With a key and a reply, the competitor endpoint returns exactly the insights of
  the competitor URLs whose extraction does not raise, in reply order; a raising
  competitor is skipped without affecting the others.
\<close>

theorem competitor_isolation:
  assumes "api_key rt \<noteq> None" and "llm_complete rt (competitor_prompt url) 256 = Some content"
    and "concat (map (\<lambda>u. case competitor_insights rt u of Inl e \<Rightarrow> [] | Inr i \<Rightarrow> [i]) (url_findall content)) \<noteq> []"
  shows "fetch_competitors rt url =
           Inr (concat (map (\<lambda>u. case competitor_insights rt u of Inl e \<Rightarrow> [] | Inr i \<Rightarrow> [i]) (url_findall content)))"
  using assms by (auto simp: fetch_competitors_def openai_client_def competitor_batch_def Let_def)

text \<open>
  C32. The competitor endpoint never answers 404: the \<open>HTTPException(404)\<close> raised when
  no competitor succeeds is caught by the endpoint's own \<open>except Exception\<close> and
  re-raised as a 500.
\<close>

theorem competitors_no_404: "fetch_competitors rt url \<noteq> Inl (HTTPError 404)"
  by (simp add: fetch_competitors_def Let_def split: sum.split)

lemma cat_eval:
  "products_of_raw ''https://s.test/'' [mug_raw, cup_raw] =
     Inr [\<lparr>prod_title = ''Mug'', prod_url = ''https://s.test/products/mug'',
           prod_price = Some (Fin False (5626684784446013 / 281474976710656)),
           prod_image = Some ''https://cdn.test/m.jpg''\<rparr>,
          \<lparr>prod_title = ''Cup'', prod_url = ''https://s.test/products/7'', prod_price = None, prod_image = None\<rparr>]"
  by code_simp

lemma reply_urls:
  "url_findall competitor_reply = [''https://s.test'', ''https://y.test'']"
  by code_simp

lemma competitor_y_fails: "competitor_insights api_rt ''https://y.test'' = Inl ValidationError"
  by code_simp

lemma competitor_s_ok:
  "case competitor_insights api_rt ''https://s.test'' of
     Inl _ \<Rightarrow> False
   | Inr ins \<Rightarrow> map prod_url (product_catalog ins) = [''https://s.test/products/mug'']"
  by code_simp

theorem fetch_insights_no_products_witness:
  "fetch_insights api_rt ''https://z.test'' True True empty_db = (Inl (HTTPError 401), empty_db)"
  by (rule fetch_insights_no_products)
     (simp add: get_product_catalog_def api_rt_def scraper_init_def py_rstrip_def)

theorem catalog_products_witness:
  "insight_products ''https://s.test/'' (JArr [mug_raw, cup_raw]) =
     Inr [\<lparr>prod_title = ''Mug'', prod_url = ''https://s.test/products/mug'',
           prod_price = Some (Fin False (5626684784446013 / 281474976710656)),
           prod_image = Some ''https://cdn.test/m.jpg''\<rparr>,
          \<lparr>prod_title = ''Cup'', prod_url = ''https://s.test/products/7'', prod_price = None, prod_image = None\<rparr>]"
  using catalog_products [OF cat_eval] by simp

theorem competitor_isolation_witness:
  "case fetch_competitors api_rt ''https://me.test'' of
     Inr [ins] \<Rightarrow> map prod_url (product_catalog ins) = [''https://s.test/products/mug'']
   | _ \<Rightarrow> False"
proof (cases "competitor_insights api_rt ''https://s.test''")
  case (Inl e)
  with competitor_s_ok show ?thesis by simp
next
  case (Inr ins)
  have key: "api_key api_rt \<noteq> None" by (simp add: api_rt_def)
  have reply: "llm_complete api_rt (competitor_prompt ''https://me.test'') 256 =
      Some competitor_reply" by (simp add: api_rt_def)
  have "fetch_competitors api_rt ''https://me.test'' = Inr [ins]"
    using competitor_isolation [OF key reply] Inr by (simp add: reply_urls competitor_y_fails)
  with Inr competitor_s_ok show ?thesis by simp
qed

end
