(* ===== verification/Session.thy ===== *)
theory Session
  imports Store
begin

text \<open>
  Concurrent \<open>/fetch-insights\<close> requests on the shared database. FastAPI runs the
  synchronous endpoint \<open>fetch_insights\<close> (\<open>src/app/main.py\<close>) in a thread pool, so
  the save blocks (lines 66-88) of several requests interleave. Each request is a
  program counter \<open>req_pc\<close> at one database statement of the block: the brand query
  (line 69), the brand insert with its commit and refresh (lines 71-74), the insight
  query (line 77), the insert or the update of the insight row with its commit (lines
  78-83), and the end of the block (line 83 committed, or lines 84-88: rollback, print,
  close). One step of \<open>req_step\<close> runs one statement atomically against the committed
  tables; a commit may fail (\<open>ok\<close> false, any \<open>SQLAlchemyError\<close>), and the brand
  insert also fails on the unique constraint of \<open>brands.website_url\<close>
  (\<open>src/app/schemas.py\<close> line 9). \<open>brand_insights.brand_id\<close> has no unique
  constraint (line 16). Queries do not fail. The system \<open>sys\<close> is the shared database
  and the requests in flight; \<open>sys_step\<close> lets the scheduler run one statement of
  one request, and \<open>sys_reach\<close> are the states reachable from the empty database
  with requests arriving at any time.
\<close>

datatype 'j req_pc =
    AtQueryBrand string 'j   \<comment> \<open>line 69, for the request URL and insights document\<close>
  | AtAddBrand string 'j     \<comment> \<open>lines 71-74: no brand was found\<close>
  | AtQueryInsight nat 'j    \<comment> \<open>line 77, with \<open>brand.id\<close>\<close>
  | AtAddInsight nat 'j      \<comment> \<open>lines 79-80 and the commit of line 83\<close>
  | AtUpdateInsight nat 'j   \<comment> \<open>line 82 on the row with this id, and the commit of line 83\<close>
  | Finished bool           \<comment> \<open>the block has ended: committed, or rolled back (line 85)\<close>

definition add_brand_row :: "string \<Rightarrow> 'j db \<Rightarrow> 'j db \<times> nat" where
  \<comment> \<open>\<open>db.add(Brand(website_url=url)); db.commit(); db.refresh(brand)\<close>\<close>
  "add_brand_row url d =
     (let bid = next_id (map brand_id (brands d))
      in (d\<lparr>brands := brands d @ [\<lparr>brand_id = bid, website_url = url\<rparr>]\<rparr>, bid))"

definition add_insight_row :: "nat \<Rightarrow> 'j \<Rightarrow> 'j db \<Rightarrow> 'j db" where
  \<comment> \<open>\<open>db.add(BrandInsight(brand_id=bid, insights_json=j)); db.commit()\<close>\<close>
  "add_insight_row bid j d =
     d\<lparr>insights := insights d @
        [\<lparr>insight_id = next_id (map insight_id (insights d)), insight_brand = bid, insights_json = j\<rparr>]\<rparr>"

definition update_insight_row :: "nat \<Rightarrow> 'j \<Rightarrow> 'j db \<Rightarrow> 'j db" where
  \<comment> \<open>\<open>brand_insight.insights_json = j; db.commit()\<close>: an \<open>UPDATE\<close> of the row by id\<close>
  "update_insight_row iid j d =
     d\<lparr>insights := map (\<lambda>r. if insight_id r = iid then r\<lparr>insights_json := j\<rparr> else r) (insights d)\<rparr>"

fun req_step :: "bool \<Rightarrow> 'j db \<Rightarrow> 'j req_pc \<Rightarrow> 'j db \<times> 'j req_pc" where
  "req_step ok d (AtQueryBrand url j) =
     (case find_brand d url of
        Some b \<Rightarrow> (d, AtQueryInsight (brand_id b) j)
      | None \<Rightarrow> (d, AtAddBrand url j))"
| "req_step ok d (AtAddBrand url j) =
     (if ok \<and> find_brand d url = None
      then (let (d', bid) = add_brand_row url d in (d', AtQueryInsight bid j))
      else (d, Finished False))"
| "req_step ok d (AtQueryInsight bid j) =
     (case find_insight d bid of
        None \<Rightarrow> (d, AtAddInsight bid j)
      | Some i \<Rightarrow> (d, AtUpdateInsight (insight_id i) j))"
| "req_step ok d (AtAddInsight bid j) =
     (if ok then (add_insight_row bid j d, Finished True) else (d, Finished False))"
| "req_step ok d (AtUpdateInsight iid j) =
     (if ok then (update_insight_row iid j d, Finished True) else (d, Finished False))"
| "req_step ok d (Finished b) = (d, Finished b)"

record 'j sys =
  shared :: "'j db"
  reqs :: "'j req_pc list"

definition sys_step :: "nat \<times> bool \<Rightarrow> 'j sys \<Rightarrow> 'j sys" where
  \<comment> \<open>the scheduler runs one statement of request \<open>i\<close>; \<open>ok\<close> is the outcome of a commit\<close>
  "sys_step e s =
     (let (i, ok) = e in
      if i < length (reqs s)
      then (let (d', r') = req_step ok (shared s) (reqs s ! i)
            in s\<lparr>shared := d', reqs := (reqs s)[i := r']\<rparr>)
      else s)"

definition run_sched :: "(nat \<times> bool) list \<Rightarrow> 'j sys \<Rightarrow> 'j sys" where
  "run_sched es s = fold sys_step es s"

definition arrive :: "string \<Rightarrow> 'j \<Rightarrow> 'j sys \<Rightarrow> 'j sys" where
  \<comment> \<open>a new request reaches the save block of \<open>fetch_insights\<close>\<close>
  "arrive url j s = s\<lparr>reqs := reqs s @ [AtQueryBrand url j]\<rparr>"

inductive sys_reach :: "'j sys \<Rightarrow> bool" where
  init: "sys_reach \<lparr>shared = empty_db, reqs = []\<rparr>"
| arrive: "sys_reach s \<Longrightarrow> sys_reach (arrive url j s)"
| step: "sys_reach s \<Longrightarrow> sys_reach (sys_step e s)"

definition tables_inv :: "'j db \<Rightarrow> bool" where
  \<comment> \<open>what the schema enforces: unique URLs and keys, no dangling brand id\<close>
  "tables_inv d \<longleftrightarrow>
     distinct (map website_url (brands d)) \<and> distinct (map brand_id (brands d)) \<and>
     distinct (map insight_id (insights d)) \<and>
     set (map insight_brand (insights d)) \<subseteq> set (map brand_id (brands d))"

fun req_wf :: "'j db \<Rightarrow> 'j req_pc \<Rightarrow> bool" where
  \<comment> \<open>the ids a request holds name rows of the tables\<close>
  "req_wf d (AtQueryInsight bid j) = (bid \<in> set (map brand_id (brands d)))"
| "req_wf d (AtAddInsight bid j) = (bid \<in> set (map brand_id (brands d)))"
| "req_wf d (AtUpdateInsight iid j) = (iid \<in> set (map insight_id (insights d)))"
| "req_wf d _ = True"

definition sys_inv :: "'j sys \<Rightarrow> bool" where
  "sys_inv s \<longleftrightarrow> tables_inv (shared s) \<and> list_all (req_wf (shared s)) (reqs s)"

definition two_requests :: "string \<Rightarrow> 'j \<Rightarrow> 'j \<Rightarrow> 'j sys" where
  \<comment> \<open>two requests for the same site arrive at an empty database\<close>
  "two_requests url j1 j2 = arrive url j2 (arrive url j1 \<lparr>shared = empty_db, reqs = []\<rparr>)"

section \<open>Lemmas\<close>

lemma update_insight_row_keys:
  "map insight_id (insights (update_insight_row iid j d)) = map insight_id (insights d)"
  "map insight_brand (insights (update_insight_row iid j d)) = map insight_brand (insights d)"
  "brands (update_insight_row iid j d) = brands d"
  by (simp_all add: update_insight_row_def comp_def)

lemma update_insight_row_ids:
  "insight_id ` set (insights (update_insight_row iid j d)) = insight_id ` set (insights d)"
  by (metis update_insight_row_keys(1) set_map)

lemma req_step_mono:
  assumes "req_step ok d r = (d', r')"
  shows "set (map brand_id (brands d)) \<subseteq> set (map brand_id (brands d')) \<and>
         set (map insight_id (insights d)) \<subseteq> set (map insight_id (insights d'))"
  using assms
  by (cases r) (auto simp: add_brand_row_def add_insight_row_def update_insight_row_ids Let_def
                     update_insight_row_keys(3) split: if_splits option.splits)

lemma req_wf_mono:
  "req_wf d r \<Longrightarrow> set (map brand_id (brands d)) \<subseteq> set (map brand_id (brands d')) \<Longrightarrow>
   set (map insight_id (insights d)) \<subseteq> set (map insight_id (insights d')) \<Longrightarrow> req_wf d' r"
  by (cases r) auto

lemma find_brand_None_url: "find_brand d url = None \<Longrightarrow> url \<notin> set (map website_url (brands d))"
  by (auto simp: find_brand_def find_None_iff)

lemma add_brand_row_inv:
  assumes "tables_inv d" "find_brand d url = None" "add_brand_row url d = (d', bid)"
  shows "tables_inv d' \<and> bid \<in> set (map brand_id (brands d'))"
proof -
  let ?b = "\<lparr>brand_id = next_id (map brand_id (brands d)), website_url = url\<rparr>"
  have d': "d' = d\<lparr>brands := brands d @ [?b]\<rparr>" and bid: "bid = brand_id ?b"
    using assms(3) by (auto simp: add_brand_row_def Let_def)
  have "brand_id ?b \<notin> set (map brand_id (brands d))"
    using next_id_fresh [of "map brand_id (brands d)"] by simp
  moreover have "url \<notin> set (map website_url (brands d))" by (rule find_brand_None_url [OF assms(2)])
  moreover have "set (map insight_brand (insights d)) \<subseteq> set (map brand_id (brands d))"
    using assms(1) by (simp add: tables_inv_def)
  ultimately show ?thesis using assms(1) unfolding d' bid tables_inv_def by auto
qed

lemma add_insight_row_inv:
  "tables_inv d \<Longrightarrow> bid \<in> set (map brand_id (brands d)) \<Longrightarrow> tables_inv (add_insight_row bid j d)"
  using next_id_fresh [of "map insight_id (insights d)"]
  by (auto simp: tables_inv_def add_insight_row_def)

lemma update_insight_row_inv: "tables_inv d \<Longrightarrow> tables_inv (update_insight_row iid j d)"
  unfolding tables_inv_def by (simp only: update_insight_row_keys)

lemma req_step_inv:
  assumes "tables_inv d" "req_wf d r" "req_step ok d r = (d', r')"
  shows "tables_inv d' \<and> req_wf d' r'"
proof (cases r)
  case (AtQueryBrand url j)
  then show ?thesis using assms
    by (auto simp: find_brand_def dest!: find_Some_in split: option.splits)
next
  case (AtAddBrand url j)
  then show ?thesis using assms add_brand_row_inv [of d url]
    by (auto split: if_splits prod.splits)
next
  case (AtQueryInsight bid j)
  then show ?thesis using assms
    by (auto simp: find_insight_def dest!: find_Some_in split: option.splits)
next
  case (AtAddInsight bid j)
  then have "bid \<in> set (map brand_id (brands d))" using assms(2) by simp
  from add_insight_row_inv [OF assms(1) this] show ?thesis
    using assms(1,3) AtAddInsight by (auto split: if_splits)
next
  case (AtUpdateInsight iid j)
  then show ?thesis using assms update_insight_row_inv by (auto split: if_splits)
next
  case (Finished b)
  then show ?thesis using assms by auto
qed

lemma sys_step_inv:
  assumes "sys_inv s"
  shows "sys_inv (sys_step e s)"
proof (cases "fst e < length (reqs s)")
  case False
  then show ?thesis using assms by (auto simp: sys_step_def split: prod.splits)
next
  case True
  obtain i ok where e: "e = (i, ok)" by (cases e)
  obtain d' r' where st: "req_step ok (shared s) (reqs s ! i) = (d', r')"
    by (cases "req_step ok (shared s) (reqs s ! i)")
  have i: "i < length (reqs s)" using True e by simp
  then have wf: "req_wf (shared s) (reqs s ! i)" using assms by (simp add: sys_inv_def list_all_iff)
  have inv: "tables_inv d' \<and> req_wf d' r'"
    using req_step_inv [OF _ wf st] assms by (simp add: sys_inv_def list_all_iff)
  have others: "\<forall>r \<in> set (reqs s). req_wf d' r"
    using assms req_step_mono [OF st] req_wf_mono by (fastforce simp: sys_inv_def list_all_iff)
  have "set ((reqs s)[i := r']) \<subseteq> insert r' (set (reqs s))"
    by (rule set_update_subset_insert)
  with inv others show ?thesis using i e st by (auto simp: sys_step_def sys_inv_def list_all_iff)
qed

lemma sys_reach_inv: "sys_reach s \<Longrightarrow> sys_inv s"
proof (induction rule: sys_reach.induct)
  case init
  then show ?case by (simp add: sys_inv_def list_all_iff tables_inv_def empty_db_def)
next
  case (arrive s url j)
  then show ?case by (simp add: sys_inv_def list_all_iff arrive_def)
next
  case (step s e)
  show ?case by (rule sys_step_inv [OF step.IH])
qed

lemma sys_reach_run: "sys_reach s \<Longrightarrow> sys_reach (run_sched es s)"
  by (induction es arbitrary: s) (auto simp: run_sched_def intro: sys_reach.step)

lemma two_requests_reach: "sys_reach (two_requests url j1 j2)"
  unfolding two_requests_def by (intro sys_reach.arrive sys_reach.init)

lemma run_sched_Cons [simp]: "run_sched (e # es) s = run_sched es (sys_step e s)"
  by (simp add: run_sched_def)

lemma run_sched_Nil [simp]: "run_sched [] s = s"
  by (simp add: run_sched_def)

lemma race_facts:
  assumes inv: "tables_inv d" and nb: "find_brand d url = None"
  defines "b \<equiv> \<lparr>brand_id = next_id (map brand_id (brands d)), website_url = url\<rparr>"
  shows "find_brand (d\<lparr>brands := brands d @ [b]\<rparr>) url = Some b"
    and "find_insight (d\<lparr>brands := brands d @ [b]\<rparr>) (brand_id b) = None"
    and "find_insight (add_insight_row (brand_id b) j (d\<lparr>brands := brands d @ [b]\<rparr>)) (brand_id b) =
           Some \<lparr>insight_id = next_id (map insight_id (insights d)), insight_brand = brand_id b, insights_json = j\<rparr>"
    and "find (\<lambda>i. insight_brand i = brand_id b) (insights d) = None"
proof -
  show "find_brand (d\<lparr>brands := brands d @ [b]\<rparr>) url = Some b"
    using nb by (simp add: find_brand_def find_append_one b_def)
  have "brand_id b \<notin> set (map insight_brand (insights d))"
    using inv next_id_fresh [of "map brand_id (brands d)"] by (auto simp: tables_inv_def b_def)
  then show none: "find (\<lambda>i. insight_brand i = brand_id b) (insights d) = None"
    by (simp add: find_None_iff) (metis image_eqI)
  then show "find_insight (d\<lparr>brands := brands d @ [b]\<rparr>) (brand_id b) = None"
    by (simp add: find_insight_def)
  show "find_insight (add_insight_row (brand_id b) j (d\<lparr>brands := brands d @ [b]\<rparr>)) (brand_id b) =
           Some \<lparr>insight_id = next_id (map insight_id (insights d)), insight_brand = brand_id b, insights_json = j\<rparr>"
    using none by (simp add: find_insight_def add_insight_row_def find_append_one)
qed

section \<open>Properties\<close>

text \<open>
  C2. Under every interleaving of concurrent save blocks, with requests arriving at any
  time and any commit failing, the tables keep what the schema enforces: site URLs are
  unique (the unique constraint makes a racing brand insert fail), brand and insight
  ids are unique, and every insight row names an existing brand.
\<close>
theorem conc_tables_inv: "sys_reach s \<Longrightarrow> tables_inv (shared s)"
  by (drule sys_reach_inv) (simp add: sys_inv_def)

theorem conc_tables_inv_witness:
  "sys_reach (run_sched [(0, True), (1, True), (0, True)] (two_requests ''https://a.test'' (1::int) 2)) \<and>
   tables_inv (shared (run_sched [(0, True), (1, True), (0, True)] (two_requests ''https://a.test'' (1::int) 2)))"
proof -
  have r: "sys_reach (run_sched [(0, True), (1, True), (0, True)] (two_requests ''https://a.test'' (1::int) 2))"
    by (rule sys_reach_run [OF two_requests_reach])
  show ?thesis using r conc_tables_inv [OF r] by (rule conjI)
qed

text \<open>
  C6. Every request in flight is well typed against the shared tables: the brand id it
  holds after the brand query or the brand insert names a brand row, and the insight id
  it is about to update names an insight row, whatever the other requests have done.
\<close>
theorem conc_requests_wf: "sys_reach s \<Longrightarrow> list_all (req_wf (shared s)) (reqs s)"
  by (drule sys_reach_inv) (simp add: sys_inv_def)

theorem conc_requests_wf_witness:
  "sys_reach (run_sched [(0, True), (0, True)] (two_requests ''https://a.test'' (1::int) 2)) \<and>
   list_all (req_wf (shared (run_sched [(0, True), (0, True)] (two_requests ''https://a.test'' (1::int) 2))))
     (reqs (run_sched [(0, True), (0, True)] (two_requests ''https://a.test'' (1::int) 2)))"
proof -
  have r: "sys_reach (run_sched [(0, True), (0, True)] (two_requests ''https://a.test'' (1::int) 2))"
    by (rule sys_reach_run [OF two_requests_reach])
  show ?thesis using r conc_requests_wf [OF r] by (rule conjI)
qed

text \<open>
  C9. The store is not one-to-one under concurrent requests, from any reachable
  state: when two requests for a site that has no brand row yet arrive together, one
  interleaving (both query the insight row before either inserts it) lets both
  commit, so the brand gets two insight rows and the read endpoints keep showing the
  first while the second was committed last; another (both query the brand first)
  makes the second brand insert violate the unique constraint, the error is swallowed,
  and that request's insights are never stored although it answers with them.
\<close>

theorem conc_one_to_one_broken:
  assumes "sys_reach s" and "find_brand (shared s) url = None"
  shows
    "let n = length (reqs s); s2 = arrive url j2 (arrive url j1 s);
         sd = run_sched [(n, True), (n, True), (Suc n, True), (n, True), (Suc n, True), (n, True), (Suc n, True)] s2;
         sl = run_sched [(n, True), (Suc n, True), (n, True), (Suc n, True), (n, True), (n, True)] s2
     in sys_reach sd \<and> drop n (reqs sd) = [Finished True, Finished True] \<and>
        map insights_json (insights (shared sd)) = map insights_json (insights (shared s)) @ [j1, j2] \<and>
        \<not> db_inv (shared sd) \<and> store_abs (shared sd) url = Some j1 \<and>
        sys_reach sl \<and> drop n (reqs sl) = [Finished True, Finished False] \<and>
        map insights_json (insights (shared sl)) = map insights_json (insights (shared s)) @ [j1] \<and>
        store_abs (shared sl) url = Some j1"
proof -
  let ?d = "shared s" and ?xs = "reqs s" and ?n = "length (reqs s)"
  let ?b = "\<lparr>brand_id = next_id (map brand_id (brands (shared s))), website_url = url\<rparr>"
  let ?d1 = "(shared s)\<lparr>brands := brands (shared s) @ [?b]\<rparr>"
  let ?bid = "brand_id ?b"
  let ?d2 = "add_insight_row ?bid j1 ?d1"
  let ?d3 = "add_insight_row ?bid j2 ?d2"
  have inv: "tables_inv ?d" using sys_reach_inv [OF assms(1)] by (simp add: sys_inv_def)
  note f = race_facts [OF inv assms(2)]
  have s2: "arrive url j2 (arrive url j1 s) = s\<lparr>reqs := ?xs @ [AtQueryBrand url j1, AtQueryBrand url j2]\<rparr>"
    by (simp add: arrive_def)
  have t1: "sys_step (?n, True) (s\<lparr>reqs := ?xs @ [AtQueryBrand url j1, AtQueryBrand url j2]\<rparr>) =
            s\<lparr>reqs := ?xs @ [AtAddBrand url j1, AtQueryBrand url j2]\<rparr>"
    using assms(2) by (simp add: sys_step_def nth_append list_update_append)
  have t2: "sys_step (?n, True) (s\<lparr>reqs := ?xs @ [AtAddBrand url j1, AtQueryBrand url j2]\<rparr>) =
            s\<lparr>shared := ?d1, reqs := ?xs @ [AtQueryInsight ?bid j1, AtQueryBrand url j2]\<rparr>"
    using assms(2) by (simp add: sys_step_def nth_append list_update_append add_brand_row_def Let_def)
  have t3: "sys_step (Suc ?n, True) (s\<lparr>shared := ?d1, reqs := ?xs @ [AtQueryInsight ?bid j1, AtQueryBrand url j2]\<rparr>) =
            s\<lparr>shared := ?d1, reqs := ?xs @ [AtQueryInsight ?bid j1, AtQueryInsight ?bid j2]\<rparr>"
    using f(1) by (simp add: sys_step_def nth_append list_update_append)
  have t4: "sys_step (?n, True) (s\<lparr>shared := ?d1, reqs := ?xs @ [AtQueryInsight ?bid j1, AtQueryInsight ?bid j2]\<rparr>) =
            s\<lparr>shared := ?d1, reqs := ?xs @ [AtAddInsight ?bid j1, AtQueryInsight ?bid j2]\<rparr>"
    using f(2) by (simp add: sys_step_def nth_append list_update_append)
  have t5: "sys_step (Suc ?n, True) (s\<lparr>shared := ?d1, reqs := ?xs @ [AtAddInsight ?bid j1, AtQueryInsight ?bid j2]\<rparr>) =
            s\<lparr>shared := ?d1, reqs := ?xs @ [AtAddInsight ?bid j1, AtAddInsight ?bid j2]\<rparr>"
    using f(2) by (simp add: sys_step_def nth_append list_update_append)
  have t6: "sys_step (?n, True) (s\<lparr>shared := ?d1, reqs := ?xs @ [AtAddInsight ?bid j1, AtAddInsight ?bid j2]\<rparr>) =
            s\<lparr>shared := ?d2, reqs := ?xs @ [Finished True, AtAddInsight ?bid j2]\<rparr>"
    by (simp add: sys_step_def nth_append list_update_append)
  have t7: "sys_step (Suc ?n, True) (s\<lparr>shared := ?d2, reqs := ?xs @ [Finished True, AtAddInsight ?bid j2]\<rparr>) =
            s\<lparr>shared := ?d3, reqs := ?xs @ [Finished True, Finished True]\<rparr>"
    by (simp add: sys_step_def nth_append list_update_append)
  have l2: "sys_step (Suc ?n, True) (s\<lparr>reqs := ?xs @ [AtAddBrand url j1, AtQueryBrand url j2]\<rparr>) =
            s\<lparr>reqs := ?xs @ [AtAddBrand url j1, AtAddBrand url j2]\<rparr>"
    using assms(2) by (simp add: sys_step_def nth_append list_update_append)
  have l3: "sys_step (?n, True) (s\<lparr>reqs := ?xs @ [AtAddBrand url j1, AtAddBrand url j2]\<rparr>) =
            s\<lparr>shared := ?d1, reqs := ?xs @ [AtQueryInsight ?bid j1, AtAddBrand url j2]\<rparr>"
    using assms(2) by (simp add: sys_step_def nth_append list_update_append add_brand_row_def Let_def)
  have l4: "sys_step (Suc ?n, True) (s\<lparr>shared := ?d1, reqs := ?xs @ [AtQueryInsight ?bid j1, AtAddBrand url j2]\<rparr>) =
            s\<lparr>shared := ?d1, reqs := ?xs @ [AtQueryInsight ?bid j1, Finished False]\<rparr>"
    using f(1) by (simp add: sys_step_def nth_append list_update_append)
  have l5: "sys_step (?n, True) (s\<lparr>shared := ?d1, reqs := ?xs @ [AtQueryInsight ?bid j1, Finished False]\<rparr>) =
            s\<lparr>shared := ?d1, reqs := ?xs @ [AtAddInsight ?bid j1, Finished False]\<rparr>"
    using f(2) by (simp add: sys_step_def nth_append list_update_append)
  have l6: "sys_step (?n, True) (s\<lparr>shared := ?d1, reqs := ?xs @ [AtAddInsight ?bid j1, Finished False]\<rparr>) =
            s\<lparr>shared := ?d2, reqs := ?xs @ [Finished True, Finished False]\<rparr>"
    by (simp add: sys_step_def nth_append list_update_append)
  have rd: "run_sched [(?n, True), (?n, True), (Suc ?n, True), (?n, True), (Suc ?n, True), (?n, True), (Suc ?n, True)]
              (arrive url j2 (arrive url j1 s)) = s\<lparr>shared := ?d3, reqs := ?xs @ [Finished True, Finished True]\<rparr>"
    by (simp only: s2 run_sched_Cons run_sched_Nil t1 t2 t3 t4 t5 t6 t7)
  have rl: "run_sched [(?n, True), (Suc ?n, True), (?n, True), (Suc ?n, True), (?n, True), (?n, True)]
              (arrive url j2 (arrive url j1 s)) = s\<lparr>shared := ?d2, reqs := ?xs @ [Finished True, Finished False]\<rparr>"
    by (simp only: s2 run_sched_Cons run_sched_Nil t1 l2 l3 l4 l5 l6)
  have r: "sys_reach (run_sched es (arrive url j2 (arrive url j1 s)))" for es
    by (intro sys_reach_run sys_reach.arrive assms(1))
  have fb: "find_brand ?d3 url = Some ?b" "find_brand ?d2 url = Some ?b"
    using f(1) by (simp_all add: find_brand_def add_insight_row_def)
  have fi: "map_option insights_json (find_insight ?d3 ?bid) = Some j1"
           "map_option insights_json (find_insight ?d2 ?bid) = Some j1"
    using f(4) by (simp_all add: find_insight_def add_insight_row_def find_append_split)
  have sa: "store_abs ?d3 url = Some j1" "store_abs ?d2 url = Some j1"
    using fb fi by (simp_all add: store_abs_def)
  have nd: "\<not> db_inv ?d3" by (simp add: db_inv_def add_insight_row_def)
  have ij: "map insights_json (insights ?d3) = map insights_json (insights ?d) @ [j1, j2]"
           "map insights_json (insights ?d2) = map insights_json (insights ?d) @ [j1]"
    by (simp_all add: add_insight_row_def)
  show ?thesis
    using r [of "[(?n, True), (?n, True), (Suc ?n, True), (?n, True), (Suc ?n, True), (?n, True), (Suc ?n, True)]"]
          r [of "[(?n, True), (Suc ?n, True), (?n, True), (Suc ?n, True), (?n, True), (?n, True)]"]
          sa nd ij
    unfolding Let_def rd rl by simp
qed

theorem conc_one_to_one_broken_witness:
  "sys_reach \<lparr>shared = (empty_db :: int db), reqs = []\<rparr> \<and>
   find_brand (empty_db :: int db) ''https://a.test'' = None \<and>
   store_abs (shared (run_sched [(0, True), (0, True), (1, True), (0, True), (1, True), (0, True), (1, True)]
                        (two_requests ''https://a.test'' (1::int) 2))) ''https://a.test'' = Some 1"
proof -
  have nb: "find_brand (shared \<lparr>shared = (empty_db :: int db), reqs = []\<rparr>) ''https://a.test'' = None"
    by (simp add: find_brand_def empty_db_def)
  from conc_one_to_one_broken [OF sys_reach.init nb, of 2 "1::int"]
  have "store_abs (shared (run_sched [(0, True), (0, True), (1, True), (0, True), (1, True), (0, True), (1, True)]
                        (two_requests ''https://a.test'' (1::int) 2))) ''https://a.test'' = Some 1"
    by (simp add: Let_def two_requests_def)
  with nb show ?thesis by (simp add: sys_reach.init)
qed

end
