(* ===== verification/Spec2Isabelle.thy ===== *)
theory Spec2Isabelle
  imports Faq Policy Contact Catalog Links Pyfloat Models Store Api Session
begin

text \<open>
  \<^bold>\<open>A shallow embedding of the Shopify storefront scraper and its API.\<close>

  The program (\<open>src/app\<close>) has two layers. \<open>scraper.py\<close> holds
  \<open>ShopifyScraper\<close>, whose only state is the base URL; each of its resolvers fetches
  pages through \<open>requests\<close>, parses them with BeautifulSoup and returns one category of
  brand data (catalogue, hero products, policies, FAQs, contacts, social handles, about
  text, important links), falling back to an OpenAI completion for FAQs, contacts and
  the about text. \<open>main.py\<close> is a FastAPI app: \<open>fetch_insights\<close> runs every resolver
  on one site, builds the pydantic \<open>BrandInsights\<close> of \<open>models.py\<close> and stores it in
  the SQLAlchemy tables of \<open>schemas.py\<close>; \<open>fetch_competitors\<close> asks the model for
  competitor URLs and runs the same extraction on each; \<open>list_brands\<close> and
  \<open>get_brand_insights\<close> read the tables back.

  \<^bold>\<open>Theories, in import order.\<close>
  \<^item> \<open>Prelude\<close>: Python built-ins on strings (Latin-1 code points:
    \<open>isspace\<close>, \<open>lower\<close>, \<open>strip\<close>, \<open>startswith\<close>, \<open>in\<close>, \<open>split\<close>,
    \<open>join\<close>, \<open>replace\<close>, \<open>index\<close>), decoded JSON values (\<open>json\<close>) with
    truthiness and \<open>dict.get\<close>, dictionary assignment \<open>dict_set\<close>, the exception
    type \<open>py_exc\<close>, and \<open>nub_by\<close>, the first-occurrence deduplication against which
    every \<open>seen\<close> loop of the source is proved equivalent.
  \<^item> \<open>Html\<close>: the parsed document as a forest of \<open>node\<close>s and the BeautifulSoup calls
    the scraper makes (\<open>find_all\<close>, \<open>find\<close>, attributes, \<open>get_text\<close>,
    \<open>find_next_sibling\<close>, \<open>decompose\<close>, the main-content choice).
  \<^item> \<open>Web\<close>: the \<open>runtime\<close> record of external collaborators (HTTP, HTML parser,
    \<open>json.loads\<close>, the phone matcher, the model, the API key, set iteration order), the
    \<open>scraper\<close> record (\<open>ShopifyScraper.__init__\<close>), \<open>fetch_homepage_html\<close>, the
    status-200 fetch and \<open>href\<close> resolution.
  \<^item> \<open>Faq\<close> (\<open>get_faqs\<close>, \<open>extract_faqs_with_llm\<close>), \<open>Policy\<close>
    (\<open>get_policy_text\<close> and its two callers), \<open>Contact\<close> (\<open>get_contact_details\<close>,
    \<open>is_real_email\<close>, the email regex as \<open>email_findall\<close>,
    \<open>extract_contact_with_llm\<close>), \<open>Catalog\<close> (\<open>get_product_catalog\<close>,
    \<open>get_hero_products\<close>), \<open>Links\<close> (\<open>get_social_handles\<close>, \<open>get_about\<close>,
    \<open>extract_about_with_llm\<close>, \<open>get_important_links\<close>): one definition per method and
    per loop of the method, named after it, with its guards and early returns; every
    \<open>raise\<close> that escapes a method is an \<open>Inl\<close> of \<open>py_exc\<close>.
  \<^item> \<open>Pyfloat\<close>: Python \<open>float()\<close> on the decoded price (grammar of float literals,
    correctly rounded binary64 with subnormals, infinity, \<open>OverflowError\<close> for huge
    ints) and \<open>str()\<close> of an \<open>int\<close>.
  \<^item> \<open>Models\<close>: \<open>Product\<close> and \<open>BrandInsights\<close> as records, pydantic validation,
    and the mapping of raw feed records and hero products to \<open>Product\<close> with every
    dynamic JSON access (\<open>get\<close>, subscripts, \<open>len\<close>, iteration, f-string
    formatting through \<open>repr\<close>) and the exception it may raise.
  \<^item> \<open>Store\<close>: the \<open>brands\<close> and \<open>brand_insights\<close> tables as a database value over
    an arbitrary document type, the save block of \<open>fetch_insights\<close> with the outcome
    of each commit as an input, the read endpoints, the databases reachable by saves
    (\<open>db_reach\<close>, an inductive predicate), the table invariant \<open>db_inv\<close>, and the
    abstraction \<open>store_abs\<close> to the spec's map from site to latest insights.
  \<^item> \<open>Api\<close>: \<open>fetch_insights\<close> and \<open>fetch_competitors\<close> composed from the above,
    with the competitor-URL regex as \<open>url_findall\<close>; \<open>api_error\<close> separates an
    \<open>HTTPException\<close> status from an unhandled exception (a 500 response).
  \<^item> \<open>Session\<close>: concurrent requests. FastAPI runs the synchronous
    \<open>fetch_insights\<close> in a thread pool, so save blocks interleave. Each request is a
    program counter (\<open>req_pc\<close>) at one statement of the block (brand query, brand
    insert with commit and refresh, insight query, insight insert or update with
    commit, end), \<open>req_step\<close> runs one statement against the committed tables with
    the unique constraint of \<open>brands.website_url\<close> and commit failures, and
    \<open>sys_step\<close> / \<open>sys_reach\<close> are the scheduler and the states reachable with
    requests arriving at any time.

  \<^item> \<open>Spec2Isabelle\<close> (this theory): the app as a whole, a request type
    \<open>api_request\<close> for the four endpoints and \<open>api_call\<close> / \<open>run_api\<close> serving a
    sequence of requests on the tables; only \<open>/fetch-insights\<close> writes, so every
    database the app reaches is one of \<open>db_reach\<close>, and the \<open>Store\<close> lemmas carry
    over to the whole app.

  \<^bold>\<open>What the lemmas show.\<close> Each component theory ends with its properties,
  each after a text naming its claim. The \<open>seen\<close>-set loops equal \<open>nub_by\<close> over
  the filtered candidates (FAQs, hero products); the FAQ heuristics on \<open><details>\<close>
  pages, the FAQ location (both loops are \<open>find\<close>, and a matching homepage link
  overrides a matching probed path) and the language-model reply filter; the quality
  gates of the policy tiers; both regex scanners are \<open>re.findall\<close> of their
  pattern, proved equal to \<open>findall_ref\<close> of \<open>Prelude\<close> (leftmost-longest
  non-overlapping matches of the pattern's language, written from the language alone);
  the email filter's behaviour and its unreachable \<open>IndexError\<close>, the five-entry caps;
  the last-wins and first-wins dictionaries of the social and link resolvers; the
  about text is non-empty and stripped, and a missing API key raises out of the
  contact and about resolvers instead of degrading to an empty result; the API
  answers 401 on an empty catalogue, builds one product per raw record, keeps the
  tables well formed, refines the spec's store; the competitor endpoint isolates
  failing competitors and can never answer 404. Under concurrency (\<open>Session\<close>) the
  schema's constraints and the ids held by requests stay valid under every
  interleaving (rule induction on \<open>sys_reach\<close>), but the store is not one-to-one:
  from any reachable state, two concurrent first requests for a site can give it two
  insight rows, or lose one request's insights to a swallowed unique-constraint
  error. Across components, what a successful \<open>/fetch-insights\<close> answers is what the
  read endpoints give back for that site, after any later requests that do not fetch
  it again. Properties with hypotheses have witnesses on small example sites defined
  in each theory (\<open>demo_rt\<close>, \<open>policy_rt\<close>, \<open>contact_rt\<close>, \<open>shop_rt\<close>,
  \<open>links_rt\<close>, \<open>api_rt\<close>), evaluated by \<open>simp\<close> or \<open>code_simp\<close>.

  \<^bold>\<open>Bounds and termination.\<close> No fuel is used: every loop of the source runs over
  a finite list (paths, anchors, candidates, regex positions) and is structural
  recursion, or \<open>function\<close> with a \<open>measure\<close> where it is not (the two regex scanners
  and \<open>findall_ref\<close> shrink the remaining text, \<open>nbits\<close> and \<open>dec_digits\<close> shrink a
  positive integer, \<open>digits_more\<close> the remaining text). The save block has no loop.
  Python integers are \<open>int\<close>, counts and lengths \<open>nat\<close>; floats are exact rationals
  at the values binary64 can hold.

  \<^bold>\<open>Not modelled.\<close> The libraries the sources only call stay parameters of the
  \<open>runtime\<close> record: \<open>requests\<close> (a snapshot web: one answer per URL),
  BeautifulSoup's parser, \<open>json.loads\<close> (its numbers are integers: a JSON number
  with a fraction is outside the model), \<open>phonenumbers\<close>, the OpenAI client and the
  iteration order of a Python \<open>set\<close>. Characters are Latin-1. In the API layer, the
  HTTP framing and exception detail texts are not modelled (only status codes), nor
  \<open>get_db\<close> (it opens and closes a session for the read endpoints and changes no
  table), \<open>created_at\<close> timestamps or the \<open>app.db\<close> engine, which is not part of the
  sources; \<open>json.loads (json.dumps x)\<close> of a stored document is taken to be \<open>x\<close>. In
  \<open>Session\<close> each statement is atomic against the committed tables (SQLite serialises
  writers) and queries do not fail. Print statements and \<open>load_dotenv\<close> have no modelled effect.
\<close>

section \<open>The app as a sequence of requests\<close>

datatype api_request =
  \<comment> \<open>a request to the app: the body's \<open>website_url\<close> (\<open>FetchInsightsRequest\<close>,
    \<open>CompetitorInsightsRequest\<close>) or the path's \<open>brand_id\<close>; a fetch also carries the
    world it scrapes and the outcomes of its two commits\<close>
    FetchInsights runtime string bool bool
  | FetchCompetitors runtime string
  | ListBrands
  | GetBrandInsights nat

datatype api_response =
    InsightsResp "api_error + brand_insights"
  | CompetitorsResp "api_error + brand_insights list"
  | BrandsResp "(nat \<times> string) list"
  | StoredResp "api_error + brand_insights"

definition api_call :: "api_request \<Rightarrow> brand_insights db \<Rightarrow> api_response \<times> brand_insights db" where
  \<comment> \<open>the app's routing: each request runs its endpoint on the committed tables\<close>
  "api_call q d =
     (case q of
        FetchInsights rt url ok1 ok2 \<Rightarrow> (let (r, d') = fetch_insights rt url ok1 ok2 d in (InsightsResp r, d'))
      | FetchCompetitors rt url \<Rightarrow> (CompetitorsResp (fetch_competitors rt url), d)
      | ListBrands \<Rightarrow> (BrandsResp (list_brands d), d)
      | GetBrandInsights bid \<Rightarrow> (StoredResp (get_brand_insights d bid), d))"

fun run_api :: "api_request list \<Rightarrow> brand_insights db \<Rightarrow> api_response list \<times> brand_insights db" where
  \<comment> \<open>requests served one after another, with their responses\<close>
  "run_api [] d = ([], d)"
| "run_api (q # qs) d =
     (let (r, d') = api_call q d; (rs, d'') = run_api qs d' in (r # rs, d''))"

fun fetches :: "string \<Rightarrow> api_request \<Rightarrow> bool" where
  \<comment> \<open>the request is a \<open>/fetch-insights\<close> for this URL\<close>
  "fetches url (FetchInsights rt u ok1 ok2) = (u = url)"
| "fetches url _ = False"

section \<open>Lemmas\<close>

lemma run_api_Cons [simp]:
  "fst (run_api (q # qs) d) = fst (api_call q d) # fst (run_api qs (snd (api_call q d)))"
  "snd (run_api (q # qs) d) = snd (run_api qs (snd (api_call q d)))"
  by (simp_all split: prod.split)

declare run_api.simps(2) [simp del]

lemma fetch_insights_db:
  "snd (fetch_insights rt url ok1 ok2 d) = d \<or>
   (\<exists>ins. fetch_insights rt url ok1 ok2 d = (Inr ins, save_insights url ins ok1 ok2 d))"
  by (auto simp: fetch_insights_def Let_def split: sum.split)

lemma api_call_db:
  "snd (api_call q d) = d \<or>
   (\<exists>rt url ok1 ok2 ins. q = FetchInsights rt url ok1 ok2 \<and>
      api_call q d = (InsightsResp (Inr ins), save_insights url ins ok1 ok2 d))"
proof (cases q)
  case (FetchInsights rt url ok1 ok2)
  then show ?thesis using fetch_insights_db [of rt url ok1 ok2 d]
    by (auto simp: api_call_def split: prod.split)
qed (simp_all add: api_call_def)

lemma api_call_reach: "db_reach d \<Longrightarrow> db_reach (snd (api_call q d))"
  using api_call_db [of q d] by (auto intro: db_reach.save)

lemma run_api_reach: "db_reach d \<Longrightarrow> db_reach (snd (run_api qs d))"
  by (induction qs arbitrary: d) (simp_all add: api_call_reach)

lemma api_call_frame:
  "db_reach d \<Longrightarrow> \<not> fetches url q \<Longrightarrow> store_abs (snd (api_call q d)) url = store_abs d url"
  using api_call_db [of q d] store_abs_save [OF reach_inv] by fastforce

lemma run_api_frame:
  "db_reach d \<Longrightarrow> list_all (\<lambda>q. \<not> fetches url q) qs \<Longrightarrow>
   store_abs (snd (run_api qs d)) url = store_abs d url"
proof (induction qs arbitrary: d)
  case Nil
  then show ?case by simp
next
  case (Cons q qs)
  have "db_reach (snd (api_call q d))" using Cons.prems(1) by (rule api_call_reach)
  with Cons show ?case using api_call_frame [OF Cons.prems(1), of url q] by simp
qed

lemma run_api_append:
  "fst (run_api (xs @ ys) d) = fst (run_api xs d) @ fst (run_api ys (snd (run_api xs d)))"
  "snd (run_api (xs @ ys) d) = snd (run_api ys (snd (run_api xs d)))"
  by (induction xs arbitrary: d) simp_all

lemma length_run_api: "length (fst (run_api qs d)) = length qs"
  by (induction qs arbitrary: d) simp_all

lemma fetch_shop_ok: "\<exists>ins. fst (fetch_insights api_rt ''https://s.test'' True True empty_db) = Inr ins"
proof -
  have "case fst (fetch_insights api_rt ''https://s.test'' True True empty_db) of Inl _ \<Rightarrow> False | Inr _ \<Rightarrow> True"
    by code_simp
  then show ?thesis by (auto split: sum.splits)
qed

section \<open>Properties across components\<close>

text \<open>
  C29. Reading back what the API saved, end to end: after any sequence of requests, a
  \<open>/fetch-insights\<close> for a site that answers with insights \<open>ins\<close> and whose commits
  succeed, followed by any requests that do not fetch that site again, \<open>GET /brands\<close>
  lists the site under some id and \<open>GET /brands/{id}/insights\<close> returns \<open>ins\<close>.
\<close>
theorem api_fetch_then_get:
  assumes run: "run_api (pre @ FetchInsights rt url True True # post) empty_db = (rs, d)"
    and resp: "rs ! length pre = InsightsResp (Inr ins)"
    and post: "list_all (\<lambda>q. \<not> fetches url q) post"
  shows "\<exists>bid. (bid, url) \<in> set (list_brands d) \<and>
               fst (api_call (GetBrandInsights bid) d) = StoredResp (Inr ins)"
proof -
  define d0 where "d0 = snd (run_api pre empty_db)"
  have r0: "db_reach d0" unfolding d0_def by (rule run_api_reach [OF db_reach.init])
  have "rs = fst (run_api pre empty_db) @ fst (api_call (FetchInsights rt url True True) d0) #
              fst (run_api post (snd (api_call (FetchInsights rt url True True) d0)))"
    using run_api_append(1) [of pre "FetchInsights rt url True True # post" empty_db] run
    by (simp add: d0_def)
  then have "fst (api_call (FetchInsights rt url True True) d0) = InsightsResp (Inr ins)"
    using resp length_run_api [of pre empty_db] by (simp add: nth_append)
  then obtain d1 where "fetch_insights rt url True True d0 = (Inr ins, d1)"
    by (auto simp: api_call_def split: prod.splits)
  then have d1: "d1 = save_insights url ins True True d0" and
    a1: "snd (api_call (FetchInsights rt url True True) d0) = d1"
    by (auto simp: fetch_insights_def Let_def api_call_def split: sum.splits)
  have "d = snd (run_api (pre @ FetchInsights rt url True True # post) empty_db)"
    using run by (metis snd_conv)
  then have d: "d = snd (run_api post d1)"
    by (simp only: run_api_append(2) run_api_Cons(2) d0_def [symmetric] a1)
  have r1: "db_reach d1" unfolding d1 by (rule db_reach.save [OF r0])
  have "store_abs d1 url = Some ins" using store_abs_save [OF reach_inv [OF r0]] d1 by simp
  then have "store_abs d url = Some ins" using run_api_frame [OF r1 post] d by simp
  from get_of_abs [OF this] obtain b
    where b: "find_brand d url = Some b" "get_brand_insights d (brand_id b) = Inr ins"
    by blast
  have "b \<in> set (brands d)" "website_url b = url"
    using find_Some_in [OF b(1) [unfolded find_brand_def]] by simp_all
  then have mem: "(brand_id b, url) \<in> set (list_brands d)"
    using image_eqI [of "(brand_id b, url)" "\<lambda>b. (brand_id b, website_url b)" b "set (brands d)"]
    by (simp add: list_brands_def)
  show ?thesis
    by (intro exI [of _ "brand_id b"] conjI mem) (simp add: api_call_def b(2))
qed

theorem api_fetch_then_get_witness:
  "\<exists>ins. fst (run_api [FetchInsights api_rt ''https://s.test'' True True] empty_db) ! 0 = InsightsResp (Inr ins) \<and>
     (\<exists>bid. (bid, ''https://s.test'') \<in> set (list_brands (snd (run_api [FetchInsights api_rt ''https://s.test'' True True] empty_db))) \<and>
        fst (api_call (GetBrandInsights bid) (snd (run_api [FetchInsights api_rt ''https://s.test'' True True] empty_db))) =
          StoredResp (Inr ins))"
proof -
  obtain ins where ins: "fst (fetch_insights api_rt ''https://s.test'' True True empty_db) = Inr ins"
    using fetch_shop_ok by blast
  then have r: "fst (run_api [FetchInsights api_rt ''https://s.test'' True True] empty_db) ! 0 = InsightsResp (Inr ins)"
    by (simp add: api_call_def case_prod_beta)
  have h1: "run_api ([] @ [FetchInsights api_rt ''https://s.test'' True True]) empty_db =
             (fst (run_api [FetchInsights api_rt ''https://s.test'' True True] empty_db),
              snd (run_api [FetchInsights api_rt ''https://s.test'' True True] empty_db))"
    by (simp only: append_Nil prod.collapse)
  have h2: "fst (run_api [FetchInsights api_rt ''https://s.test'' True True] empty_db) !
              length ([] :: api_request list) = InsightsResp (Inr ins)"
    using r by (simp only: list.size(3))
  have h3: "list_all (\<lambda>q. \<not> fetches ''https://s.test'' q) []" by simp
  have "\<exists>bid. (bid, ''https://s.test'') \<in> set (list_brands (snd (run_api [FetchInsights api_rt ''https://s.test'' True True] empty_db))) \<and>
        fst (api_call (GetBrandInsights bid) (snd (run_api [FetchInsights api_rt ''https://s.test'' True True] empty_db))) =
          StoredResp (Inr ins)"
    by (rule api_fetch_then_get [OF h1 h2 h3])
  with r show ?thesis by (rule exI [of _ ins, OF conjI])
qed

end
